(* ===== verification/Ahe_Prelude.thy ===== *)
theory Ahe_Prelude imports Main "HOL-Library.Word" "HOL-Library.State_Monad" begin

text \<open>
  Shared vocabulary of the development.

  \<^item> Machine integers of the LP64 Linux ABI the program is built for, C strings and
    fixed-size character buffers (the \<^verbatim>\<open>string.h\<close> functions the sources call), and the
    little-endian layout of unsigned integers.
  \<^item> A weakest-precondition calculus over the library's state monad. Every operation of
    the program that touches the operating system is a value of \<open>('s, 'a) state\<close>; the
    rules collected in \<open>wp_rules\<close> reduce a goal about such an operation to its branches.
  \<^item> Two interfaces, as locales: a state machine with an inductive invariant, and a
    functional simulation of one state machine by another. The component theories
    interpret them.
\<close>

section \<open>Machine integers\<close>

type_synonym u16 = "16 word"
type_synonym u32 = "32 word"
type_synonym u64 = "64 word"

text \<open>\<open>size_t\<close> and \<open>uintptr_t\<close> are 64 bits wide on the supported platforms.\<close>

type_synonym usize = "64 word"

abbreviation SIZE_MAX :: usize where "SIZE_MAX \<equiv> 0xFFFFFFFFFFFFFFFF"

abbreviation INT64_MAX :: u64 where "INT64_MAX \<equiv> 0x7FFFFFFFFFFFFFFF"

abbreviation ULONG_MAX :: u64 where "ULONG_MAX \<equiv> 0xFFFFFFFFFFFFFFFF"

section \<open>C strings and buffers\<close>

text \<open>
  A \<open>const char *\<close> argument is modelled by the characters before its terminating NUL; a
  \<open>char[n]\<close> array by the list of its \<open>n\<close> characters.
\<close>

abbreviation NUL :: char where "NUL \<equiv> CHR 0x00"

definition has_nul :: "char list \<Rightarrow> bool" where
  "has_nul buf \<longleftrightarrow> NUL \<in> set buf"

definition cstr :: "char list \<Rightarrow> char list" where
  "cstr buf = takeWhile (\<lambda>c. c \<noteq> NUL) buf"

text \<open>\<open>memcpy(dst, src, length src)\<close> into an array, and the array after \<open>memset(_, 0, n)\<close>.\<close>

definition memcpy_into :: "char list \<Rightarrow> char list \<Rightarrow> char list" where
  "memcpy_into dst src = src @ drop (length src) dst"

definition zeroed :: "nat \<Rightarrow> char list" where
  "zeroed n = replicate n NUL"

lemma length_zeroed [simp]: "length (zeroed n) = n"
  by (simp add: zeroed_def)

lemma length_memcpy_into [simp]:
  "length src \<le> length dst \<Longrightarrow> length (memcpy_into dst src) = length dst"
  by (simp add: memcpy_into_def)

lemma cstr_no_nul: "NUL \<notin> set (cstr buf)"
  by (auto simp: cstr_def dest: set_takeWhileD)

lemma cstr_append_nul [simp]: "NUL \<notin> set s \<Longrightarrow> cstr (s @ NUL # rest) = s"
  by (induction s) (auto simp: cstr_def)

lemma cstr_memcpy_into: "NUL \<notin> set s \<Longrightarrow> cstr (memcpy_into dst (s @ [NUL])) = s"
  by (simp add: memcpy_into_def)

lemma has_nul_memcpy_into: "has_nul (memcpy_into dst (s @ [NUL]))"
  by (simp add: has_nul_def memcpy_into_def)

lemma cstr_empty_iff: "has_nul buf \<Longrightarrow> cstr buf = [] \<longleftrightarrow> hd buf = NUL"
  by (cases buf) (auto simp: cstr_def has_nul_def)

section \<open>Little-endian integers\<close>

primrec le_bytes :: "nat \<Rightarrow> nat \<Rightarrow> char list" where
  "le_bytes 0 v = []"
| "le_bytes (Suc n) v = char_of v # le_bytes n (v div 256)"

primrec le_value :: "char list \<Rightarrow> nat" where
  "le_value [] = 0"
| "le_value (c # cs) = of_char c + 256 * le_value cs"

lemma length_le_bytes [simp]: "length (le_bytes n v) = n"
  by (induction n arbitrary: v) simp_all

lemma le_value_le_bytes: "le_value (le_bytes n v) = v mod 256 ^ n"
  by (induction n arbitrary: v) (simp_all add: mod_mult2_eq)

lemma le_bytes_le_value: "le_bytes (length cs) (le_value cs) = cs"
proof (induction cs)
  case (Cons c cs)
  have "(of_char c + 256 * le_value cs) mod 256 = (of_char c :: nat)" by simp
  then have "char_of (of_char c + 256 * le_value cs) = c" by (metis char_of_char char_of_mod_256)
  moreover have "(of_char c + 256 * le_value cs) div 256 = le_value cs" by simp
  ultimately show ?case using Cons.IH by simp
qed simp

lemma le_bytes_inj: "v < 256 ^ n \<Longrightarrow> v' < 256 ^ n \<Longrightarrow> le_bytes n v = le_bytes n v' \<Longrightarrow> v = v'"
  by (metis le_value_le_bytes mod_less)

definition u32_bytes :: "u32 \<Rightarrow> char list" where
  "u32_bytes v = le_bytes 4 (unat v)"

definition u64_bytes :: "u64 \<Rightarrow> char list" where
  "u64_bytes v = le_bytes 8 (unat v)"

definition u32_value :: "char list \<Rightarrow> u32" where
  "u32_value cs = of_nat (le_value cs)"

definition u64_value :: "char list \<Rightarrow> u64" where
  "u64_value cs = of_nat (le_value cs)"

lemma length_u32_bytes [simp]: "length (u32_bytes v) = 4"
  by (simp add: u32_bytes_def)

lemma length_u64_bytes [simp]: "length (u64_bytes v) = 8"
  by (simp add: u64_bytes_def)

lemma u32_value_bytes [simp]: "u32_value (u32_bytes v) = v"
proof -
  have "unat v < 256 ^ 4" using unsigned_less [of v, where ?'a = nat] by simp
  then show ?thesis by (simp add: u32_value_def u32_bytes_def le_value_le_bytes)
qed

lemma u64_value_bytes [simp]: "u64_value (u64_bytes v) = v"
proof -
  have "unat v < 256 ^ 8" using unsigned_less [of v, where ?'a = nat] by simp
  then show ?thesis by (simp add: u64_value_def u64_bytes_def le_value_le_bytes)
qed

lemma le_value_bound: "le_value cs < 256 ^ length cs"
proof (induction cs)
  case (Cons c cs)
  have "of_char c < (256 :: nat)" by simp
  moreover from Cons.IH have "Suc (le_value cs) * 256 \<le> 256 ^ length cs * 256"
    by (intro mult_le_mono1) simp
  ultimately show ?case by (simp del: nat_of_char_less_256)
qed simp

section \<open>Decimal numbers\<close>

definition is_digit :: "char \<Rightarrow> bool" where
  "is_digit c \<longleftrightarrow> 48 \<le> (of_char c :: nat) \<and> of_char c \<le> (57 :: nat)"

definition decimal_value :: "string \<Rightarrow> nat" where
  "decimal_value cs = foldl (\<lambda>v c. 10 * v + (of_char c - 48)) 0 cs"

text \<open>What \<open>printf\<close> writes for \<open>%u\<close> and \<open>%zu\<close>.\<close>

fun decimal :: "nat \<Rightarrow> string" where
  "decimal n = (if n < 10 then [char_of (48 + n)] else decimal (n div 10) @ [char_of (48 + n mod 10)])"

declare decimal.simps [simp del]

lemma decimal_digits: "\<forall>c \<in> set (decimal n). is_digit c"
proof (induction n rule: decimal.induct)
  case (1 n)
  then show ?case by (subst decimal.simps) (auto simp: is_digit_def)
qed

lemma decimal_not_empty [simp]: "decimal n \<noteq> []"
  by (subst decimal.simps) simp

lemma decimal_value_decimal: "decimal_value (decimal n) = n"
proof (induction n rule: decimal.induct)
  case (1 n)
  show ?case
  proof (cases "n < 10")
    case False
    with 1 have "decimal_value (decimal (n div 10)) = n div 10" by simp
    with False show ?thesis by (subst decimal.simps) (simp add: decimal_value_def)
  qed (subst decimal.simps, simp add: decimal_value_def)
qed

lemma decimal_inj: "decimal n = decimal m \<Longrightarrow> n = m"
  by (metis decimal_value_decimal)

section \<open>Weakest preconditions for the state monad\<close>

abbreviation ret :: "'a \<Rightarrow> ('s, 'a) state" where "ret \<equiv> State_Monad.return"

definition wp :: "('s, 'a) state \<Rightarrow> ('a \<Rightarrow> 's \<Rightarrow> bool) \<Rightarrow> 's \<Rightarrow> bool" where
  "wp m Q s \<longleftrightarrow> (case run_state m s of (r, t) \<Rightarrow> Q r t)"

named_theorems wp_rules "weakest preconditions of the monad and of the operations"

lemma wp_return [wp_rules]: "wp (ret x) Q = Q x"
  by (simp add: wp_def fun_eq_iff)

lemma wp_bind [wp_rules]: "wp (State_Monad.bind m f) Q = wp m (\<lambda>r. wp (f r) Q)"
  by (simp add: wp_def fun_eq_iff split: prod.splits)

lemma wp_get [wp_rules]: "wp State_Monad.get Q s \<longleftrightarrow> Q s s"
  by (simp add: wp_def)

lemma wp_set [wp_rules]: "wp (State_Monad.set t) Q s \<longleftrightarrow> Q () t"
  by (simp add: wp_def)

lemma wp_if [wp_rules]: "wp (if b then m else n) Q s \<longleftrightarrow> (if b then wp m Q s else wp n Q s)"
  by simp

lemma wp_case_prod [wp_rules]:
  "wp (case p of (a, b) \<Rightarrow> f a b) Q s \<longleftrightarrow> (case p of (a, b) \<Rightarrow> wp (f a b) Q s)"
  by (cases p) simp

lemma wp_case_option [wp_rules]:
  "wp (case x of None \<Rightarrow> m | Some a \<Rightarrow> f a) Q s \<longleftrightarrow>
   (case x of None \<Rightarrow> wp m Q s | Some a \<Rightarrow> wp (f a) Q s)"
  by (cases x) simp_all

text \<open>A goal about a branch, one subgoal for each side.\<close>

lemma branchI: "(b \<Longrightarrow> P) \<Longrightarrow> (\<not> b \<Longrightarrow> Q) \<Longrightarrow> if b then P else Q"
  by simp

lemma wp_mono: "wp m P s \<Longrightarrow> (\<And>r t. P r t \<Longrightarrow> Q r t) \<Longrightarrow> wp m Q s"
  by (auto simp: wp_def)

lemma wp_seq: "wp m P s \<Longrightarrow> (\<And>r t. P r t \<Longrightarrow> wp (f r) Q t) \<Longrightarrow> wp (State_Monad.bind m f) Q s"
  by (simp add: wp_bind wp_mono)

lemma wp_conjI: "wp m P s \<Longrightarrow> wp m Q s \<Longrightarrow> wp m (\<lambda>r t. P r t \<and> Q r t) s"
  by (auto simp: wp_def)

lemma wp_runD: "wp m Q s \<Longrightarrow> run_state m s = (r, t) \<Longrightarrow> Q r t"
  by (simp add: wp_def)

lemma wp_runI: "(\<And>r t. run_state m s = (r, t) \<Longrightarrow> Q r t) \<Longrightarrow> wp m Q s"
  by (auto simp: wp_def split: prod.splits)

section \<open>Interfaces: state machines, invariants, simulations\<close>

text \<open>
  A state machine is a set of start states and a step relation. \<open>reaches\<close> is the
  reflexive transitive closure, extended at the end so that induction follows the run.
\<close>

inductive reaches :: "('s \<Rightarrow> 's \<Rightarrow> bool) \<Rightarrow> 's \<Rightarrow> 's \<Rightarrow> bool" for step where
  here: "reaches step s s"
| further: "reaches step s t \<Longrightarrow> step t u \<Longrightarrow> reaches step s u"

lemma reaches_one: "step s t \<Longrightarrow> reaches step s t"
  by (rule reaches.further [OF reaches.here])

lemma reaches_trans: "reaches step t u \<Longrightarrow> reaches step s t \<Longrightarrow> reaches step s u"
  by (induction rule: reaches.induct) (auto intro: reaches.further)

locale invariant_machine =
  fixes start :: "'s \<Rightarrow> bool"
    and step :: "'s \<Rightarrow> 's \<Rightarrow> bool"
    and inv :: "'s \<Rightarrow> bool"
  assumes start_inv: "start s \<Longrightarrow> inv s"
    and step_inv: "inv s \<Longrightarrow> step s t \<Longrightarrow> inv t"
begin

lemma reaches_inv: "reaches step s t \<Longrightarrow> inv s \<Longrightarrow> inv t"
  by (induction rule: reaches.induct) (auto intro: step_inv)

lemma start_reaches_inv: "start s \<Longrightarrow> reaches step s t \<Longrightarrow> inv t"
  by (blast intro: reaches_inv start_inv)

end

text \<open>
  A simulation maps every state of the detailed machine to a state of the abstract one;
  a detailed step is matched by any number of abstract steps.
\<close>

locale simulation = invariant_machine start step inv
  for start :: "'s \<Rightarrow> bool" and step :: "'s \<Rightarrow> 's \<Rightarrow> bool" and inv :: "'s \<Rightarrow> bool" +
  fixes astep :: "'a \<Rightarrow> 'a \<Rightarrow> bool"
    and abs :: "'s \<Rightarrow> 'a"
  assumes step_sim: "inv s \<Longrightarrow> step s t \<Longrightarrow> reaches astep (abs s) (abs t)"
begin

lemma reaches_sim: "reaches step s t \<Longrightarrow> inv s \<Longrightarrow> reaches astep (abs s) (abs t)"
proof (induction rule: reaches.induct)
  case (here s)
  then show ?case by (blast intro: reaches.here)
next
  case (further s t u)
  from further.prems further.hyps(1) have "inv t" by (blast intro: reaches_inv)
  with further.hyps(2) have "reaches astep (abs t) (abs u)" by (blast intro: step_sim)
  with further.IH further.prems show ?case by (blast intro: reaches_trans)
qed

end

end
