(* ===== verification/Posix.thy ===== *)
theory Posix imports Ahe_Prelude "HOL-Library.Multiset" begin

text \<open>
  The C library and kernel as the sources use them.

  A process is run against a \<open>world\<close>: the list of answers the kernel will give to its
  calls (\<open>script\<close>), its \<open>errno\<close>, the flag its signal handler sets, its effective user,
  its environment variables, and the calls it has made so far (\<open>history\<close>, newest
  first, each with its answer). A call consumes one answer, so every behaviour of the
  kernel is a script and a theorem over all worlds is a theorem over all of them. Once
  the script is used up every further call fails with \<open>EIO\<close>; every terminating run is
  the run of some script. Calls whose result the sources never read (\<open>close\<close>,
  \<open>perror\<close>, \<open>free\<close>, \<open>umask\<close>) are recorded and consume no answer.

  The history determines which descriptors the process holds (\<open>open_fds\<close>), whether
  it ever closed one it did not hold (\<open>closes_owned\<close>), and what the kernel is
  documented to guarantee about new descriptors (\<open>kernel_ok\<close>).
\<close>

section \<open>Errors, calls and answers\<close>

datatype errno = E_OK | EPERM | ENOENT | EINTR | EIO | EAGAIN | ENOMEM | EEXIST | EINVAL
  | ERANGE | EPROTO | ENAMETOOLONG | EADDRINUSE | ECONNREFUSED | EALREADY | EINPROGRESS
  | E_other nat

type_synonym fd = int

text \<open>\<open>struct stat\<close>, \<open>struct ucred\<close> and one \<open>struct cmsghdr\<close> with its payload.\<close>

record stat =
  st_mode :: u32
  st_uid :: u32
  st_dev :: u64
  st_ino :: u64

record ucred =
  cr_pid :: int
  cr_uid :: u32

record cmsg =
  cmsg_level :: int
  cmsg_type :: int
  cmsg_len :: nat
  cmsg_fds :: "fd list"

record reply =
  r_ret :: int
  r_errno :: errno
  r_signal :: bool
  r_addr :: u64
  r_data :: "char list"
  r_ctl :: "cmsg list"
  r_trunc :: bool
  r_stat :: stat
  r_cred :: ucred
  r_optlen :: nat
  r_revents :: "u16 list"

datatype syscall =
    Close fd
  | Memfd_create string u32
  | Ftruncate fd u64
  | Sendmsg fd "char list" "fd list"
  | Recv fd nat
  | Recvmsg fd nat nat
  | Socket bool
  | Setsockopt_timeo fd string nat
  | Getsockopt_peercred fd
  | Connect fd string
  | Bind fd string
  | Listen fd nat
  | Accept4 fd
  | Lstat string
  | Mkdir string u32
  | Chmod string u32
  | Unlink string
  | Umask u32
  | Poll "fd list"
  | Realloc nat
  | Calloc nat
  | Malloc nat
  | Free u64
  | Mmap u64 usize u32 fd
  | Munmap u64 usize
  | Fcntl_lock fd int int
  | Sigaction int
  | Personality u64
  | Setenv string string
  | Execv string "string list"
  | Message string

type_synonym event = "syscall \<times> reply"

record world =
  script :: "reply list"
  w_errno :: errno
  stopping :: bool
  euid :: u32
  environ :: "string \<Rightarrow> string option"
  history :: "event list"

section \<open>Making a call\<close>

text \<open>\<open>failed e\<close> is the answer \<open>-1\<close> with \<open>errno = e\<close>; \<open>returned n\<close> a success.\<close>

definition failed :: "errno \<Rightarrow> reply" where
  "failed e = \<lparr>r_ret = -1, r_errno = e, r_signal = False, r_addr = 0, r_data = [], r_ctl = [],
     r_trunc = False, r_stat = \<lparr>st_mode = 0, st_uid = 0, st_dev = 0, st_ino = 0\<rparr>,
     r_cred = \<lparr>cr_pid = 0, cr_uid = 0\<rparr>, r_optlen = 0, r_revents = []\<rparr>"

definition returned :: "int \<Rightarrow> reply" where
  "returned n = (failed E_OK)\<lparr>r_ret := n\<rparr>"

definition next_reply :: "world \<Rightarrow> reply" where
  "next_reply w = (case script w of [] \<Rightarrow> failed EIO | r # _ \<Rightarrow> r)"

text \<open>A failing call sets \<open>errno\<close>, a successful one leaves it; a signal may arrive meanwhile.\<close>

definition answered :: "syscall \<Rightarrow> reply \<Rightarrow> world \<Rightarrow> world" where
  "answered c r w = w\<lparr>script := tl (script w),
     w_errno := (if r_ret r < 0 then r_errno r else w_errno w),
     stopping := (stopping w \<or> r_signal r),
     history := (c, r) # history w\<rparr>"

definition sys :: "syscall \<Rightarrow> (world, reply) state" where
  "sys c = do {
     w \<leftarrow> State_Monad.get;
     State_Monad.set (answered c (next_reply w) w);
     ret (next_reply w)
   }"

definition noted :: "syscall \<Rightarrow> world \<Rightarrow> world" where
  "noted c w = w\<lparr>history := (c, returned 0) # history w\<rparr>"

definition note_call :: "syscall \<Rightarrow> (world, unit) state" where
  "note_call c = do {w \<leftarrow> State_Monad.get; State_Monad.set (noted c w)}"

definition with_errno :: "errno \<Rightarrow> world \<Rightarrow> world" where
  "with_errno e w = w\<lparr>w_errno := e\<rparr>"

definition set_errno :: "errno \<Rightarrow> (world, unit) state" where
  "set_errno e = do {w \<leftarrow> State_Monad.get; State_Monad.set (with_errno e w)}"

definition get_errno :: "(world, errno) state" where
  "get_errno = do {w \<leftarrow> State_Monad.get; ret (w_errno w)}"

definition geteuid :: "(world, u32) state" where
  "geteuid = do {w \<leftarrow> State_Monad.get; ret (euid w)}"

definition getenv :: "string \<Rightarrow> (world, string option) state" where
  "getenv name = do {w \<leftarrow> State_Monad.get; ret (environ w name)}"

text \<open>\<open>setenv(name, value, 1)\<close>.\<close>

definition setenv :: "string \<Rightarrow> string \<Rightarrow> (world, int) state" where
  "setenv name value = do {
     r \<leftarrow> sys (Setenv name value);
     w \<leftarrow> State_Monad.get;
     _ \<leftarrow> State_Monad.set (if r_ret r = -1 then w else w\<lparr>environ := (environ w)(name := Some value)\<rparr>);
     ret (r_ret r)
   }"

text \<open>\<open>close\<close>: its result is never read, and the descriptor is gone even when it fails.\<close>

definition close_fd :: "fd \<Rightarrow> (world, unit) state" where
  "close_fd f = note_call (Close f)"

text \<open>
  \<open>do { r = call; } while (r < 0 && again)\<close>. The loop is bounded by the answers left:
  when they are used up the next answer is \<open>failed EIO\<close>, which is never a reason to retry.
\<close>

primrec retry :: "nat \<Rightarrow> syscall \<Rightarrow> (world \<Rightarrow> bool) \<Rightarrow> (world, reply) state" where
  "retry 0 c again = sys c"
| "retry (Suc n) c again = do {
     r \<leftarrow> sys c;
     w \<leftarrow> State_Monad.get;
     if r_ret r < 0 \<and> again w then retry n c again else ret r
   }"

definition sys_retry :: "syscall \<Rightarrow> (world \<Rightarrow> bool) \<Rightarrow> (world, reply) state" where
  "sys_retry c again = do {w \<leftarrow> State_Monad.get; retry (length (script w)) c again}"

definition interrupted :: "world \<Rightarrow> bool" where
  "interrupted w \<longleftrightarrow> w_errno w = EINTR"

definition interrupted_running :: "world \<Rightarrow> bool" where
  "interrupted_running w \<longleftrightarrow> w_errno w = EINTR \<and> \<not> stopping w"

section \<open>Rules for the calls\<close>

lemma wp_sys [wp_rules]:
  "wp (sys c) Q w \<longleftrightarrow> Q (next_reply w) (answered c (next_reply w) w)"
  by (simp add: sys_def wp_rules)

lemma wp_note_call [wp_rules]:
  "wp (note_call c) Q w \<longleftrightarrow> Q () (noted c w)"
  by (simp add: note_call_def wp_rules)

lemma wp_close_fd [wp_rules]:
  "wp (close_fd f) Q w \<longleftrightarrow> Q () (noted (Close f) w)"
  by (simp add: close_fd_def wp_rules)

lemma wp_set_errno [wp_rules]: "wp (set_errno e) Q w \<longleftrightarrow> Q () (with_errno e w)"
  by (simp add: set_errno_def wp_rules)

lemma wp_get_errno [wp_rules]: "wp get_errno Q w \<longleftrightarrow> Q (w_errno w) w"
  by (simp add: get_errno_def wp_rules)

lemma wp_geteuid [wp_rules]: "wp geteuid Q w \<longleftrightarrow> Q (euid w) w"
  by (simp add: geteuid_def wp_rules)

lemma wp_getenv [wp_rules]: "wp (getenv name) Q w \<longleftrightarrow> Q (environ w name) w"
  by (simp add: getenv_def wp_rules)

lemma answered_simps [simp]:
  "script (answered c r w) = tl (script w)"
  "stopping (answered c r w) = (stopping w \<or> r_signal r)"
  "euid (answered c r w) = euid w"
  "environ (answered c r w) = environ w"
  "history (answered c r w) = (c, r) # history w"
  "w_errno (answered c r w) = (if r_ret r < 0 then r_errno r else w_errno w)"
  by (simp_all add: answered_def)

lemma noted_simps [simp]:
  "script (noted c w) = script w" "stopping (noted c w) = stopping w" "euid (noted c w) = euid w"
  "environ (noted c w) = environ w" "history (noted c w) = (c, returned 0) # history w"
  "w_errno (noted c w) = w_errno w"
  by (simp_all add: noted_def)

lemma with_errno_simps [simp]:
  "script (with_errno e w) = script w" "stopping (with_errno e w) = stopping w"
  "euid (with_errno e w) = euid w" "environ (with_errno e w) = environ w"
  "history (with_errno e w) = history w" "w_errno (with_errno e w) = e"
  by (simp_all add: with_errno_def)

lemma failed_simps [simp]: "r_ret (failed e) = -1" "r_errno (failed e) = e"
  "r_signal (failed e) = False" "r_ctl (failed e) = []" "r_addr (failed e) = 0"
  by (simp_all add: failed_def)

lemma returned_simps [simp]: "r_ret (returned n) = n" "r_signal (returned n) = False"
  "r_ctl (returned n) = []" "r_addr (returned n) = 0" "r_trunc (returned n) = False"
  "r_data (returned n) = []" "r_revents (returned n) = []"
  by (simp_all add: returned_def failed_def)

text \<open>
  What a retried call leaves behind: the interrupted attempts, all failed, then the
  final one, which is no reason for another attempt.
\<close>

definition retried :: "(world \<Rightarrow> bool) \<Rightarrow> world \<Rightarrow> reply \<Rightarrow> bool" where
  "retried again w f \<longleftrightarrow> r_ret f < 0 \<and>
     (\<exists>v. again v \<and> w_errno v = r_errno f \<and> (stopping w \<or> r_signal f \<longrightarrow> stopping v))"

lemma retried_interrupted: "retried interrupted w f \<Longrightarrow> r_ret f < 0 \<and> r_errno f = EINTR"
  by (auto simp: retried_def interrupted_def)

lemma retried_running:
  "retried interrupted_running w f \<Longrightarrow> r_ret f < 0 \<and> r_errno f = EINTR \<and> \<not> stopping w \<and> \<not> r_signal f"
  by (auto simp: retried_def interrupted_running_def)

definition retry_post ::
  "syscall \<Rightarrow> (world \<Rightarrow> bool) \<Rightarrow> world \<Rightarrow> reply \<Rightarrow> world \<Rightarrow> bool" where
  "retry_post c again w r w' \<longleftrightarrow> (\<exists>fs. history w' = (c, r) # map (Pair c) fs @ history w \<and>
     (\<forall>f \<in> set fs. retried again w f) \<and> script w' = drop (Suc (length fs)) (script w)) \<and>
     (r_ret r < 0 \<longrightarrow> w_errno w' = r_errno r \<and> \<not> again w') \<and>
     (stopping w \<longrightarrow> stopping w') \<and> euid w' = euid w \<and> environ w' = environ w"

lemma retry_post_step:
  assumes "retry_post c again (answered c f w) r w'" and "r_ret f < 0" and "again (answered c f w)"
  shows "retry_post c again w r w'"
proof -
  from assms(1) obtain fs where h: "history w' = (c, r) # map (Pair c) fs @ (c, f) # history w"
    and fs: "\<forall>g \<in> set fs. retried again (answered c f w) g"
    and s: "script w' = drop (Suc (length fs)) (tl (script w))"
    by (auto simp: retry_post_def)
  have "history w' = (c, r) # map (Pair c) (fs @ [f]) @ history w" using h by simp
  moreover have "retried again w f" unfolding retried_def
    by (intro conjI exI [of _ "answered c f w"]) (use assms(2,3) in \<open>auto simp: answered_def\<close>)
  then have "\<forall>g \<in> set (fs @ [f]). retried again w g"
    using fs by (auto simp: retried_def answered_def)
  moreover have "script w' = drop (Suc (length (fs @ [f]))) (script w)"
    using s by (simp add: drop_Suc)
  ultimately have "\<exists>fs. history w' = (c, r) # map (Pair c) fs @ history w \<and>
     (\<forall>f \<in> set fs. retried again w f) \<and> script w' = drop (Suc (length fs)) (script w)" by blast
  then show ?thesis using assms(1) by (simp add: retry_post_def)
qed

lemma retry_post_once:
  "\<not> (r_ret r < 0 \<and> again (answered c r w)) \<Longrightarrow> retry_post c again w r (answered c r w)"
  unfolding retry_post_def
  by (intro conjI exI [of _ "[]"]) (auto simp: drop_Suc)

text \<open>The predicates the sources loop on are false once the answers are used up.\<close>

definition retry_stops :: "(world \<Rightarrow> bool) \<Rightarrow> bool" where
  "retry_stops again \<longleftrightarrow> (\<forall>w. again w \<longrightarrow> w_errno w = EINTR)"

lemma retry_stops_interrupted [simp]:
  "retry_stops interrupted" "retry_stops interrupted_running"
  by (auto simp: retry_stops_def interrupted_def interrupted_running_def)

lemma wp_retry:
  assumes "retry_stops again" and "length (script w) = n"
  shows "wp (retry n c again) (\<lambda>r w'. retry_post c again w r w') w"
  using assms(2)
proof (induction n arbitrary: w)
  case 0
  then have "next_reply w = failed EIO" by (simp add: next_reply_def)
  moreover have "\<not> again (answered c (failed EIO) w)"
    using assms(1) by (force simp: retry_stops_def)
  ultimately show ?case by (simp add: wp_rules retry_post_once)
next
  case (Suc n)
  let ?r = "next_reply w" and ?w = "answered c (next_reply w) w"
  show ?case
  proof (cases "r_ret ?r < 0 \<and> again ?w")
    case True
    moreover from Suc.prems have "length (script ?w) = n" by simp
    then have "wp (retry n c again) (\<lambda>r w'. retry_post c again ?w r w') ?w" by (rule Suc.IH)
    then have "wp (retry n c again) (\<lambda>r w'. retry_post c again w r w') ?w"
      by (rule wp_mono) (use True in \<open>blast intro: retry_post_step\<close>)
    ultimately show ?thesis by (simp add: wp_rules)
  next
    case False
    then have "retry_post c again w ?r ?w" by (rule retry_post_once)
    with False show ?thesis by (auto simp: wp_rules)
  qed
qed

lemma wp_sys_retry:
  assumes "retry_stops again" and "\<And>r w'. retry_post c again w r w' \<Longrightarrow> Q r w'"
  shows "wp (sys_retry c again) Q w"
  using wp_mono [OF wp_retry [OF assms(1) refl] assms(2)] by (simp add: sys_retry_def wp_rules)

text \<open>The bounded loop is the loop of the source: one attempt, then the loop again.\<close>

lemma retry_enough:
  assumes "retry_stops again"
  shows "length (script w) \<le> n \<Longrightarrow> run_state (retry n c again) w = run_state (sys_retry c again) w"
proof (induction n arbitrary: w)
  case 0
  then show ?case by (simp add: sys_retry_def)
next
  case (Suc n)
  show ?case
  proof (cases "script w")
    case Nil
    then have "\<not> again (answered c (failed EIO) w)"
      using assms by (force simp: retry_stops_def)
    with Nil show ?thesis by (simp add: sys_retry_def sys_def next_reply_def)
  next
    case (Cons r rs)
    with Suc.prems have "length (script (answered c r w)) \<le> n" by simp
    then have "run_state (retry n c again) (answered c r w)
      = run_state (retry (length rs) c again) (answered c r w)"
      using Suc.IH Cons by (simp add: sys_retry_def)
    with Cons show ?thesis by (simp add: sys_retry_def sys_def next_reply_def)
  qed
qed

lemma sys_retry_unfold:
  assumes "retry_stops again"
  shows "run_state (sys_retry c again) w = run_state (do {
     r \<leftarrow> sys c;
     w \<leftarrow> State_Monad.get;
     if r_ret r < 0 \<and> again w then sys_retry c again else ret r
   }) w"
proof -
  have "run_state (sys_retry c again) w = run_state (retry (Suc (length (script w))) c again) w"
    by (rule retry_enough [OF assms, symmetric]) simp
  moreover have "run_state (retry (length (script w)) c again) (answered c (next_reply w) w)
    = run_state (sys_retry c again) (answered c (next_reply w) w)"
    by (rule retry_enough [OF assms]) simp
  ultimately show ?thesis by (simp add: sys_def)
qed

section \<open>Runs extend their world\<close>

text \<open>
  Whatever an operation does, it uses up answers and adds to the history; nothing is
  forgotten and the process stays the same user with the same environment. The rules in
  \<open>extends_intros\<close> show this of any composition of operations.
\<close>

definition extends :: "world \<Rightarrow> world \<Rightarrow> bool" where
  "extends w w' \<longleftrightarrow> length (script w') \<le> length (script w) \<and>
     (\<exists>h. history w' = h @ history w) \<and> (stopping w \<longrightarrow> stopping w') \<and>
     euid w' = euid w \<and> environ w' = environ w"

definition extending :: "(world, 'a) state \<Rightarrow> bool" where
  "extending m \<longleftrightarrow> (\<forall>w. extends w (snd (run_state m w)))"

text \<open>The calls made, with their answers, between two worlds of a run.\<close>

definition since :: "world \<Rightarrow> world \<Rightarrow> event set" where
  "since w w' = {e. \<exists>h. history w' = h @ history w \<and> e \<in> set h}"

lemma since_append: "history w' = h @ history w \<Longrightarrow> since w w' = set h"
  by (auto simp: since_def)

lemma since_extends: "e \<in> since w1 w2 \<Longrightarrow> extends w w1 \<Longrightarrow> extends w2 w' \<Longrightarrow> e \<in> since w w'"
  by (fastforce simp: since_def extends_def)

named_theorems extends_intros "operations that only extend the world"

lemma extends_refl: "extends w w"
  by (simp add: extends_def)

lemma extends_trans: "extends w w1 \<Longrightarrow> extends w1 w' \<Longrightarrow> extends w w'"
  by (auto simp: extends_def)

lemma extends_answered: "extends w w1 \<Longrightarrow> extends w (answered c r w1)"
  by (auto simp: extends_def answered_def)

lemma extends_noted: "extends w w1 \<Longrightarrow> extends w (noted c w1)"
  by (auto simp: extends_def noted_def)

lemma extendingD: "extending m \<Longrightarrow> run_state m w = (r, w') \<Longrightarrow> extends w w'"
  by (metis extending_def snd_conv)

lemma wp_extending: "extending m \<Longrightarrow> wp m (\<lambda>_ w'. extends w w') w"
  by (rule wp_runI) (rule extendingD)

lemma extending_return [extends_intros]: "extending (ret x)"
  by (simp add: extending_def extends_refl)

lemma extending_bind [extends_intros]:
  "extending m \<Longrightarrow> (\<And>r. extending (f r)) \<Longrightarrow> extending (State_Monad.bind m f)"
  by (auto simp: extending_def split: prod.splits intro: extends_trans)

lemma extending_get_bind [extends_intros]:
  "(\<And>w. extending (f w)) \<Longrightarrow> extending (State_Monad.bind State_Monad.get f)"
  by (simp add: extending_def)

lemma extending_if [extends_intros]:
  "extending m \<Longrightarrow> extending n \<Longrightarrow> extending (if b then m else n)"
  by simp

lemma extending_case_option [extends_intros]:
  "extending m \<Longrightarrow> (\<And>a. extending (f a)) \<Longrightarrow>
   extending (case x of None \<Rightarrow> m | Some a \<Rightarrow> f a)"
  by (cases x) simp_all

lemma extending_case_prod [extends_intros]:
  "(\<And>a b. extending (f a b)) \<Longrightarrow> extending (case p of (a, b) \<Rightarrow> f a b)"
  by (cases p) simp

lemma extending_sys [extends_intros]: "extending (sys c)"
  by (simp add: extending_def extends_def sys_def)

lemma extending_note_call [extends_intros]: "extending (note_call c)"
  by (simp add: extending_def extends_def note_call_def)

lemma extending_close_fd [extends_intros]: "extending (close_fd f)"
  by (simp add: close_fd_def extending_note_call)

lemma extending_set_errno [extends_intros]: "extending (set_errno e)"
  by (simp add: extending_def extends_def set_errno_def)

lemma extending_get_errno [extends_intros]: "extending get_errno"
  by (simp add: extending_def extends_def get_errno_def)

lemma extending_geteuid [extends_intros]: "extending geteuid"
  by (simp add: extending_def extends_def geteuid_def)

lemma extending_getenv [extends_intros]: "extending (getenv name)"
  by (simp add: extending_def extends_def getenv_def)

lemma extending_retry: "extending (retry n c again)"
  by (induction n) (auto intro!: extends_intros)

lemma extending_sys_retry [extends_intros]: "extending (sys_retry c again)"
  by (auto simp: sys_retry_def intro!: extending_get_bind extending_retry)

text \<open>\<open>only_calls P w w'\<close>: every event between the two worlds satisfies \<open>P\<close>.\<close>

definition only_calls :: "(syscall \<Rightarrow> bool) \<Rightarrow> world \<Rightarrow> world \<Rightarrow> bool" where
  "only_calls P w w' \<longleftrightarrow> (\<exists>h. history w' = h @ history w \<and> (\<forall>e \<in> set h. P (fst e)))"

lemma only_calls_refl [simp]: "only_calls P w w"
  by (simp add: only_calls_def)

lemma only_calls_cons: "P (fst e) \<Longrightarrow> only_calls P w w1 \<Longrightarrow> history w' = e # history w1 \<Longrightarrow> only_calls P w w'"
  by (auto simp: only_calls_def intro: exI [of _ "e # _"])

lemma only_calls_answered: "P c \<Longrightarrow> only_calls P w w' \<Longrightarrow> only_calls P w (answered c r w')"
  by (rule only_calls_cons [where e = "(c, r)"]) simp_all

lemma only_calls_noted: "P c \<Longrightarrow> only_calls P w w' \<Longrightarrow> only_calls P w (noted c w')"
  by (rule only_calls_cons [where e = "(c, returned 0)"]) simp_all

lemma only_calls_errno: "only_calls P w w' \<Longrightarrow> only_calls P w (with_errno e w')"
  by (simp add: only_calls_def)

lemma only_calls_trans: "only_calls P w w1 \<Longrightarrow> only_calls P w1 w' \<Longrightarrow> only_calls P w w'"
  by (fastforce simp: only_calls_def)

lemma only_calls_mono: "only_calls P w w' \<Longrightarrow> (\<And>c. P c \<Longrightarrow> P' c) \<Longrightarrow> only_calls P' w w'"
  by (auto simp: only_calls_def)

lemmas only_calls_intros = only_calls_answered only_calls_noted only_calls_errno

text \<open>\<open>calls P m\<close>: whatever happens, \<open>m\<close> makes only calls that satisfy \<open>P\<close>.\<close>

definition calls :: "(syscall \<Rightarrow> bool) \<Rightarrow> (world, 'a) state \<Rightarrow> bool" where
  "calls P m \<longleftrightarrow> (\<forall>w. wp m (\<lambda>_ w'. only_calls P w w') w)"

named_theorems calls_intros "what calls an operation makes"

lemma calls_wp: "calls P m \<Longrightarrow> wp m (\<lambda>_ w'. only_calls P w w') w"
  by (simp add: calls_def)

lemma calls_return [calls_intros]: "calls P (ret x)"
  by (simp add: calls_def wp_return)

lemma calls_bind [calls_intros]:
  assumes "calls P m" and "\<And>r. calls P (f r)"
  shows "calls P (State_Monad.bind m f)"
  unfolding calls_def
proof (intro allI wp_seq [OF calls_wp [OF assms(1)]])
  fix w r w1
  assume "only_calls P w w1"
  then show "wp (f r) (\<lambda>_ w'. only_calls P w w') w1"
    by (intro wp_mono [OF calls_wp [OF assms(2)]]) (rule only_calls_trans)
qed

lemma calls_get_bind [calls_intros]:
  "(\<And>w. calls P (f w)) \<Longrightarrow> calls P (State_Monad.bind State_Monad.get f)"
  by (simp add: calls_def wp_bind wp_get)

lemma calls_if [calls_intros]: "calls P m \<Longrightarrow> calls P n \<Longrightarrow> calls P (if b then m else n)"
  by simp

lemma calls_case_option [calls_intros]:
  "calls P m \<Longrightarrow> (\<And>a. calls P (f a)) \<Longrightarrow> calls P (case x of None \<Rightarrow> m | Some a \<Rightarrow> f a)"
  by (cases x) simp_all

lemma calls_case_prod [calls_intros]:
  "(\<And>a b. calls P (f a b)) \<Longrightarrow> calls P (case p of (a, b) \<Rightarrow> f a b)"
  by (cases p) simp

lemma calls_sys [calls_intros]: "P c \<Longrightarrow> calls P (sys c)"
  by (simp add: calls_def wp_sys only_calls_answered)

lemma calls_note_call [calls_intros]: "P c \<Longrightarrow> calls P (note_call c)"
  by (simp add: calls_def wp_note_call only_calls_noted)

lemma calls_close_fd [calls_intros]: "P (Close f) \<Longrightarrow> calls P (close_fd f)"
  by (simp add: close_fd_def calls_note_call)

lemma calls_set_errno [calls_intros]: "calls P (set_errno e)"
  by (simp add: calls_def wp_set_errno only_calls_errno)

lemma calls_get_errno [calls_intros]: "calls P get_errno"
  by (simp add: calls_def wp_get_errno)

lemma calls_geteuid [calls_intros]: "calls P geteuid"
  by (simp add: calls_def wp_geteuid)

lemma calls_retry: "P c \<Longrightarrow> calls P (retry n c again)"
  by (induction n) (auto intro!: calls_intros)

lemma calls_sys_retry [calls_intros]: "P c \<Longrightarrow> calls P (sys_retry c again)"
  by (auto simp: sys_retry_def intro!: calls_get_bind calls_retry)

section \<open>The descriptors a process holds\<close>

text \<open>\<open>SOL_SOCKET\<close> and \<open>SCM_RIGHTS\<close> mark the control messages that carry descriptors.\<close>

abbreviation SOL_SOCKET :: int where "SOL_SOCKET \<equiv> 1"

abbreviation SCM_RIGHTS :: int where "SCM_RIGHTS \<equiv> 1"

definition is_rights :: "cmsg \<Rightarrow> bool" where
  "is_rights m \<longleftrightarrow> cmsg_level m = SOL_SOCKET \<and> cmsg_type m = SCM_RIGHTS"

definition rights_fds :: "cmsg list \<Rightarrow> fd list" where
  "rights_fds ms = concat (map cmsg_fds (filter is_rights ms))"

text \<open>The descriptors a call opens, given its answer, and the one it closes.\<close>

fun opened :: "event \<Rightarrow> fd list" where
  "opened (Memfd_create n f, r) = (if r_ret r < 0 then [] else [r_ret r])"
| "opened (Socket b, r) = (if r_ret r < 0 then [] else [r_ret r])"
| "opened (Accept4 f, r) = (if r_ret r < 0 then [] else [r_ret r])"
| "opened (Recvmsg f n k, r) = (if r_ret r < 0 then [] else rights_fds (r_ctl r))"
| "opened (c, r) = []"

fun closed :: "event \<Rightarrow> fd set" where
  "closed (Close f, r) = {f}"
| "closed (c, r) = {}"

primrec open_fds :: "event list \<Rightarrow> fd set" where
  "open_fds [] = {}"
| "open_fds (e # h) = (open_fds h - closed e) \<union> set (opened e)"

text \<open>
  What the kernel is documented to guarantee: a new descriptor is nonnegative and not
  one the process already holds; a message comes with at most one rights message, which is
  as long as its descriptors.
\<close>

primrec kernel_ok :: "event list \<Rightarrow> bool" where
  "kernel_ok [] = True"
| "kernel_ok (e # h) = (kernel_ok h \<and> distinct (opened e) \<and> set (opened e) \<inter> open_fds h = {} \<and>
     (\<forall>f \<in> set (opened e). 0 \<le> f) \<and>
     length (filter is_rights (r_ctl (snd e))) \<le> 1 \<and>
     (\<forall>m \<in> set (r_ctl (snd e)). is_rights m \<longrightarrow> cmsg_len m = 16 + 4 * length (cmsg_fds m)))"

text \<open>The process never closes a descriptor it does not hold: no double close.\<close>

primrec closes_owned :: "event list \<Rightarrow> bool" where
  "closes_owned [] = True"
| "closes_owned (e # h) = (closes_owned h \<and> closed e \<subseteq> open_fds h)"

lemma kernel_ok_append: "kernel_ok (h @ h') \<Longrightarrow> kernel_ok h'"
  by (induction h) auto

lemma kernel_ok_open_nonneg: "kernel_ok h \<Longrightarrow> f \<in> open_fds h \<Longrightarrow> 0 \<le> f"
  by (induction h) auto

lemma finite_open_fds: "finite (open_fds h)"
  by (induction h) auto

text \<open>Calls that neither open nor close anything leave the descriptors alone.\<close>

definition fd_neutral :: "event \<Rightarrow> bool" where
  "fd_neutral e \<longleftrightarrow> opened e = [] \<and> closed e = {}"

lemma open_fds_neutral [simp]: "fd_neutral e \<Longrightarrow> open_fds (e # h) = open_fds h"
  by (simp add: fd_neutral_def)

lemma closes_owned_neutral [simp]: "fd_neutral e \<Longrightarrow> closes_owned (e # h) = closes_owned h"
  by (simp add: fd_neutral_def)

lemma open_fds_neutral_append:
  "\<forall>e \<in> set h. fd_neutral e \<Longrightarrow> open_fds (h @ h') = open_fds h'"
  by (induction h) (auto simp: fd_neutral_def)

lemma closes_owned_neutral_append:
  "\<forall>e \<in> set h. fd_neutral e \<Longrightarrow> closes_owned (h @ h') = closes_owned h'"
  by (induction h) (auto simp: fd_neutral_def)

fun retriable :: "syscall \<Rightarrow> bool" where
  "retriable (Close f) = False"
| "retriable c = True"

lemma fd_neutral_failed: "retriable c \<Longrightarrow> r_ret r < 0 \<Longrightarrow> fd_neutral (c, r)"
  by (cases c) (auto simp: fd_neutral_def)

text \<open>A retried call has the descriptor effect of its last attempt.\<close>

lemma retry_post_fds:
  assumes "retry_post c again w r w'" and "retriable c"
  shows "open_fds (history w') = open_fds ((c, r) # history w)"
    and "closes_owned (history w') = closes_owned ((c, r) # history w)"
    and "kernel_ok (history w') \<Longrightarrow> kernel_ok ((c, r) # history w)"
proof -
  obtain fs where h: "history w' = (c, r) # map (Pair c) fs @ history w"
    and fs: "\<forall>f \<in> set fs. r_ret f < 0"
    using assms(1) by (auto simp: retry_post_def retried_def)
  have n: "\<forall>e \<in> set (map (Pair c) fs). fd_neutral e"
    using fs assms(2) by (auto intro: fd_neutral_failed)
  show "open_fds (history w') = open_fds ((c, r) # history w)"
    by (simp add: h open_fds_neutral_append [OF n])
  show "closes_owned (history w') = closes_owned ((c, r) # history w)"
    by (simp add: h open_fds_neutral_append [OF n] closes_owned_neutral_append [OF n])
  show "kernel_ok (history w') \<Longrightarrow> kernel_ok ((c, r) # history w)"
    by (auto simp: h open_fds_neutral_append [OF n] dest: kernel_ok_append)
qed

section \<open>Ownership of descriptors\<close>

text \<open>
  \<open>holds F w\<close>: if the kernel keeps its guarantees, the process has closed nothing it did
  not hold and the descriptors it holds are exactly the multiset \<open>F\<close>, each once. A data
  structure that stores descriptors contributes its own to \<open>F\<close>; an operation is
  specified by what it takes from \<open>F\<close> and what it adds, with the rest as a frame.
\<close>

definition holds :: "fd multiset \<Rightarrow> world \<Rightarrow> bool" where
  "holds F w \<longleftrightarrow> (kernel_ok (history w) \<longrightarrow>
     closes_owned (history w) \<and> mset_set (open_fds (history w)) = F)"

definition fd_mset :: "fd \<Rightarrow> fd multiset" where
  "fd_mset f = (if 0 \<le> f then {#f#} else {#})"

lemma fd_mset_nonneg: "0 \<le> f \<Longrightarrow> fd_mset f = {#f#}"
  by (simp add: fd_mset_def)

lemma fd_mset_neg: "f < 0 \<Longrightarrow> fd_mset f = {#}"
  by (simp add: fd_mset_def)

lemma holds_with_errno [simp]: "holds F (with_errno e w) = holds F w"
  by (simp add: holds_def)

lemma holds_event:
  assumes "holds F w" and "history w' = e # history w" and "closed e = {}"
  shows "holds (mset (opened e) + F) w'"
  unfolding holds_def
proof
  assume "kernel_ok (history w')"
  then have k: "kernel_ok (history w)" and d: "distinct (opened e)"
    and n: "set (opened e) \<inter> open_fds (history w) = {}"
    using assms(2) by auto
  with assms(1) have c: "closes_owned (history w)" and F: "mset_set (open_fds (history w)) = F"
    by (auto simp: holds_def)
  have "mset_set (set (opened e) \<union> open_fds (history w)) = mset (opened e) + F"
    using n d F by (simp add: mset_set_Union finite_open_fds mset_set_set)
  then show "closes_owned (history w') \<and> mset_set (open_fds (history w')) = mset (opened e) + F"
    using c assms(2,3) by (simp add: Un_commute)
qed

lemma holds_neutral:
  "holds F w \<Longrightarrow> history w' = e # history w \<Longrightarrow> fd_neutral e \<Longrightarrow> holds F w'"
  using holds_event [of F w w' e] by (simp add: fd_neutral_def)

lemma holds_close:
  assumes "holds (add_mset f F) w" and "history w' = (Close f, r) # history w"
  shows "holds F w'"
  unfolding holds_def
proof
  assume "kernel_ok (history w')"
  then have "kernel_ok (history w)" using assms(2) by simp
  with assms(1) have c: "closes_owned (history w)"
    and F: "mset_set (open_fds (history w)) = add_mset f F" by (auto simp: holds_def)
  from F have "f \<in># mset_set (open_fds (history w))" by simp
  then have m: "f \<in> open_fds (history w)" by (simp add: finite_open_fds)
  have "mset_set (open_fds (history w) - {f}) = F"
    using F m by (simp add: finite_open_fds mset_set_Diff)
  then show "closes_owned (history w') \<and> mset_set (open_fds (history w')) = F"
    using c m assms(2) by simp
qed

lemma holds_noted_close: "holds (fd_mset f + F) w \<Longrightarrow> 0 \<le> f \<Longrightarrow> holds F (noted (Close f) w)"
  by (rule holds_close [where f = f and w = w]) (simp_all add: fd_mset_nonneg)

lemma holds_retry:
  assumes "retry_post c again w r w'" and "retriable c" and "holds F w" and "closed (c, r) = {}"
  shows "holds (mset (opened (c, r)) + F) w'"
proof -
  have "holds (mset (opened (c, r)) + F) (w\<lparr>history := (c, r) # history w\<rparr>)"
    using assms(3,4) by (intro holds_event [of F w]) simp_all
  then show ?thesis using retry_post_fds [OF assms(1,2)] by (simp add: holds_def)
qed

text \<open>
  What is owned when the kernel breaks a guarantee is of no interest: later worlds inherit
  the broken history.
\<close>

lemma holds_vacuous: "\<not> kernel_ok (history w) \<Longrightarrow> extends w w' \<Longrightarrow> holds F w'"
  by (auto simp: holds_def extends_def dest: kernel_ok_append)

lemma holds_nonneg: "holds (add_mset f F) w \<Longrightarrow> kernel_ok (history w) \<Longrightarrow> 0 \<le> f"
  using kernel_ok_open_nonneg [of "history w" f]
  by (auto simp: holds_def finite_open_fds dest!: arg_cong [where f = "\<lambda>M. f \<in># M"])

text \<open>A call that returns a descriptor: a new one in hand when it succeeds.\<close>

fun opens_one :: "syscall \<Rightarrow> bool" where
  "opens_one (Memfd_create n f) = True"
| "opens_one (Socket b) = True"
| "opens_one (Accept4 f) = True"
| "opens_one c = False"

fun opens_none :: "syscall \<Rightarrow> bool" where
  "opens_none (Memfd_create n f) = False"
| "opens_none (Socket b) = False"
| "opens_none (Accept4 f) = False"
| "opens_none (Recvmsg f n k) = False"
| "opens_none (Close f) = False"
| "opens_none c = True"

lemma opens_noneD: "opens_none c \<Longrightarrow> fd_neutral (c, r)"
  by (cases c) (auto simp: fd_neutral_def)

lemma holds_answered_none [intro]:
  "holds F w \<Longrightarrow> opens_none c \<Longrightarrow> holds F (answered c r w)"
  by (rule holds_neutral [where e = "(c, r)"]) (auto intro: opens_noneD)

lemma holds_answered_one [intro]:
  assumes "holds F w" and "opens_one c"
  shows "holds (fd_mset (r_ret r) + F) (answered c r w)"
proof -
  have "mset (opened (c, r)) = fd_mset (r_ret r)" and "closed (c, r) = {}"
    using assms(2) by (cases c; simp add: fd_mset_def)+
  with holds_event [OF assms(1), of "answered c r w" "(c, r)"] show ?thesis by simp
qed

lemma holds_noted_none [intro]: "holds F w \<Longrightarrow> opens_none c \<Longrightarrow> holds F (noted c w)"
  by (rule holds_neutral [where e = "(c, returned 0)"]) (auto intro: opens_noneD)

lemma holds_answered_failed:
  "holds F w \<Longrightarrow> r_ret r < 0 \<Longrightarrow> retriable c \<Longrightarrow> holds F (answered c r w)"
  by (rule holds_neutral [where e = "(c, r)"]) (auto intro: fd_neutral_failed)

lemma holds_retry_none:
  assumes "retry_post c again w r w'" and "holds F w" and "opens_none c"
  shows "holds F w'"
proof -
  have "retriable c" and n: "fd_neutral (c, r)" using assms(3) by (cases c; simp add: opens_noneD)+
  with holds_retry [OF assms(1) _ assms(2)] show ?thesis by (simp add: fd_neutral_def)
qed

lemmas holds_none_intros = holds_answered_none holds_noted_none

text \<open>Facts that follow from holding: descriptors in hand are distinct and nonnegative.\<close>

lemma holds_distinct:
  "holds F w \<Longrightarrow> kernel_ok (history w) \<Longrightarrow> count F f \<le> 1"
  by (auto simp: holds_def count_mset_set')

end
