(* ===== verification/Broker_Io.thy ===== *)
theory Broker_Io imports Broker_Protocol begin

text \<open>
  Sending and receiving in the broker (\<open>ahe_broker_send_message\<close> and
  \<open>ahe_broker_receive_message\<close> of \<^verbatim>\<open>src/ahe_broker.c\<close>): nonblocking calls, retried
  while interrupted unless the broker is stopping.
\<close>

section \<open>Sending\<close>

definition ahe_broker_send_message ::
  "fd \<Rightarrow> ahe_broker_message \<Rightarrow> fd list \<Rightarrow> (world, int) state" where
  "ahe_broker_send_message client_fd message fds =
     (if length fds \<noteq> 0 \<and> length fds > AHE_BROKER_DESCRIPTOR_COUNT
      then do {set_errno EINVAL; ret (-1)}
      else do {
        r \<leftarrow> sys_retry (Sendmsg client_fd (encode_message message) fds) interrupted_running;
        ret (if r_ret r = int MESSAGE_SIZE then 0 else -1)
      })"

section \<open>Receiving\<close>

text \<open>
  \<open>recv\<close> reports the bytes it stored: at most the buffer's size, the rest of a longer
  datagram is dropped. The result is 1 for a message, 0 for end of file, -1 otherwise.
\<close>

definition recv_result :: "nat \<Rightarrow> reply \<Rightarrow> int" where
  "recv_result cap r = (if r_ret r < 0 then r_ret r else int (length (take cap (r_data r))))"

definition ahe_broker_receive_message :: "fd \<Rightarrow> (world, int \<times> ahe_broker_message) state" where
  "ahe_broker_receive_message client_fd = do {
     r \<leftarrow> sys_retry (Recv client_fd MESSAGE_SIZE) interrupted_running;
     let received = recv_result MESSAGE_SIZE r;
         message = decode_message (take MESSAGE_SIZE (r_data r))
     in if received = 0 then ret (0, message)
        else if received \<noteq> int MESSAGE_SIZE
          \<or> m_magic message \<noteq> AHE_BROKER_PROTOCOL_MAGIC
          \<or> m_version message \<noteq> AHE_BROKER_PROTOCOL_VERSION
        then ret (-1, message)
        else ret (1, message)
   }"

section \<open>Rules\<close>

text \<open>
  The messages in a history that the process sent (destination, bytes, descriptors), and
  the descriptors it tried to receive from.
\<close>

fun sent_of :: "event \<Rightarrow> (fd \<times> char list \<times> fd list) list" where
  "sent_of (Sendmsg f bs fds, r) = [(f, bs, fds)]"
| "sent_of (c, r) = []"

definition sends :: "event list \<Rightarrow> (fd \<times> char list \<times> fd list) set" where
  "sends h = set (concat (map sent_of h))"

lemma sends_Nil [simp]: "sends [] = {}"
  by (simp add: sends_def)

lemma sends_Cons [simp]: "sends (e # h) = set (sent_of e) \<union> sends h"
  by (simp add: sends_def)

lemma sends_append [simp]: "sends (h @ h') = sends h \<union> sends h'"
  by (simp add: sends_def)

fun received_from :: "event \<Rightarrow> fd set" where
  "received_from (Recv f n, r) = {f}"
| "received_from (c, r) = {}"

definition recvs :: "event list \<Rightarrow> fd set" where
  "recvs h = \<Union> (set (map received_from h))"

lemma recvs_Nil [simp]: "recvs [] = {}"
  by (simp add: recvs_def)

lemma recvs_Cons [simp]: "recvs (e # h) = received_from e \<union> recvs h"
  by (simp add: recvs_def)

lemma recvs_append [simp]: "recvs (h @ h') = recvs h \<union> recvs h'"
  by (simp add: recvs_def)

lemma recvs_same_call: "recvs (map (Pair c) fs) \<subseteq> received_from (c, r)"
  by (induction fs) (cases c; auto)+

lemma retry_post_recvs:
  "retry_post c again w r w' \<Longrightarrow> recvs (history w') = received_from (c, r) \<union> recvs (history w)"
  using recvs_same_call [of c _ r] by (fastforce simp: retry_post_def)

lemma sends_same_call: "sends (map (Pair c) fs) \<subseteq> set (sent_of (c, r))"
  by (induction fs) (cases c; auto)+

lemma retry_post_sends:
  "retry_post c again w r w' \<Longrightarrow> sends (history w') = set (sent_of (c, r)) \<union> sends (history w)"
  using sends_same_call [of c _ r] by (fastforce simp: retry_post_def)

text \<open>
  Sending: one message goes out, descriptors in hand are unchanged. Receiving: nothing
  goes out; an accepted message is the decoding of a whole datagram.
\<close>

text \<open>The last call sent this message to this client, whole.\<close>

definition sent_whole :: "fd \<Rightarrow> char list \<Rightarrow> fd list \<Rightarrow> world \<Rightarrow> bool" where
  "sent_whole f bs fds w \<longleftrightarrow> (\<exists>r h. history w = (Sendmsg f bs fds, r) # h \<and> r_ret r = int MESSAGE_SIZE)"

lemma wp_send_message:
  assumes "length fds \<le> AHE_BROKER_DESCRIPTOR_COUNT"
    and "\<And>res w'. \<lbrakk>res = 0 \<or> res = -1; \<And>F. holds F w \<Longrightarrow> holds F w';
      sends (history w') = insert (client_fd, encode_message message, fds) (sends (history w));
      recvs (history w') = recvs (history w); length (script w') \<le> length (script w); stopping w \<Longrightarrow> stopping w';
      euid w' = euid w; environ w' = environ w;
      (res = 0) = sent_whole client_fd (encode_message message) fds w'\<rbrakk> \<Longrightarrow> Q res w'"
  shows "wp (ahe_broker_send_message client_fd message fds) Q w"
proof -
  let ?c = "Sendmsg client_fd (encode_message message) fds"
  have "wp (sys_retry ?c interrupted_running)
    (\<lambda>r w'. Q (if r_ret r = int MESSAGE_SIZE then 0 else -1) w') w"
  proof (rule wp_sys_retry)
    fix r w'
    assume p: "retry_post ?c interrupted_running w r w'"
    show "Q (if r_ret r = int MESSAGE_SIZE then 0 else -1) w'"
    proof (rule assms(2))
      show "holds F w'" if "holds F w" for F
        by (rule holds_retry_none [OF p that]) simp
      show "sends (history w') = insert (client_fd, encode_message message, fds) (sends (history w))"
        using retry_post_sends [OF p] by simp
      show "recvs (history w') = recvs (history w)"
        using retry_post_recvs [OF p] by simp
      show "((if r_ret r = int MESSAGE_SIZE then 0 else -1 :: int) = 0) =
          sent_whole client_fd (encode_message message) fds w'"
        using p by (auto simp: retry_post_def sent_whole_def)
    qed (use p in \<open>auto simp: retry_post_def\<close>)
  qed simp
  then show ?thesis using assms(1) by (simp add: ahe_broker_send_message_def wp_rules)
qed

lemma wp_receive_message:
  assumes "\<And>res m r w'. \<lbrakk>\<And>F. holds F w \<Longrightarrow> holds F w'; sends (history w') = sends (history w);
      recvs (history w') = insert client_fd (recvs (history w)); length (script w') \<le> length (script w);
      res = 1 \<Longrightarrow> message_accepted (take MESSAGE_SIZE (r_data r)) \<and>
        m = decode_message (take MESSAGE_SIZE (r_data r));
      res = 1 \<Longrightarrow> (Recv client_fd MESSAGE_SIZE, r) \<in> set (history w');
      stopping w \<Longrightarrow> stopping w'; euid w' = euid w; environ w' = environ w\<rbrakk> \<Longrightarrow> Q (res, m) w'"
  shows "wp (ahe_broker_receive_message client_fd) Q w"
proof -
  let ?c = "Recv client_fd MESSAGE_SIZE"
  have "wp (sys_retry ?c interrupted_running) (\<lambda>r. wp (
     let received = recv_result MESSAGE_SIZE r;
         message = decode_message (take MESSAGE_SIZE (r_data r))
     in if received = 0 then ret (0, message)
        else if received \<noteq> int MESSAGE_SIZE
          \<or> m_magic message \<noteq> AHE_BROKER_PROTOCOL_MAGIC
          \<or> m_version message \<noteq> AHE_BROKER_PROTOCOL_VERSION
        then ret (-1, message)
        else ret (1, message)) Q) w"
  proof (rule wp_sys_retry)
    fix r w'
    assume p: "retry_post ?c interrupted_running w r w'"
    have h: "\<And>F. holds F w \<Longrightarrow> holds F w'" by (rule holds_retry_none [OF p]) simp_all
    have s: "sends (history w') = sends (history w)"
      "recvs (history w') = insert client_fd (recvs (history w))"
      using retry_post_sends [OF p] retry_post_recvs [OF p] by simp_all
    have l: "length (script w') \<le> length (script w)" and m: "(?c, r) \<in> set (history w')"
      and k: "stopping w \<Longrightarrow> stopping w'" "euid w' = euid w" "environ w' = environ w"
      using p by (auto simp: retry_post_def)
    show "wp (
     let received = recv_result MESSAGE_SIZE r;
         message = decode_message (take MESSAGE_SIZE (r_data r))
     in if received = 0 then ret (0, message)
        else if received \<noteq> int MESSAGE_SIZE
          \<or> m_magic message \<noteq> AHE_BROKER_PROTOCOL_MAGIC
          \<or> m_version message \<noteq> AHE_BROKER_PROTOCOL_VERSION
        then ret (-1, message)
        else ret (1, message)) Q w'"
      unfolding Let_def wp_rules
      by (auto intro!: assms [where r = r] h s l m k
        simp: message_accepted_def recv_result_def split: if_splits)
  qed simp
  then show ?thesis by (simp add: ahe_broker_receive_message_def wp_rules)
qed

lemma extending_send_message [extends_intros]:
  "extending (ahe_broker_send_message client_fd message fds)"
  by (auto simp: ahe_broker_send_message_def intro!: extends_intros)

lemma extending_receive_message [extends_intros]: "extending (ahe_broker_receive_message client_fd)"
  by (auto simp: ahe_broker_receive_message_def Let_def intro!: extends_intros)

end
