(* ===== verification/Generation.thy ===== *)
theory Generation imports Broker_Io begin

text \<open>
  The broker's cache generation (\<open>ahe_generation\<close> of \<^verbatim>\<open>src/ahe_broker.c\<close>): its state,
  the operations that create, reset and match it, the descriptors it owns and its
  well-formedness.
\<close>

section \<open>State\<close>

datatype ahe_generation_state =
    AHE_GENERATION_EMPTY
  | AHE_GENERATION_INITIALIZING
  | AHE_GENERATION_READY

text \<open>The enumeration's values are ordered as C numbers them: a generation's progress.\<close>

primrec state_value :: "ahe_generation_state \<Rightarrow> nat" where
  "state_value AHE_GENERATION_EMPTY = 0"
| "state_value AHE_GENERATION_INITIALIZING = 1"
| "state_value AHE_GENERATION_READY = 2"

lemma state_value_inj: "state_value x = state_value y \<Longrightarrow> x = y"
  by (cases x; cases y) simp_all

instantiation ahe_generation_state :: linorder
begin

definition less_eq_ahe_generation_state :: "ahe_generation_state \<Rightarrow> ahe_generation_state \<Rightarrow> bool" where
  "less_eq_ahe_generation_state x y \<longleftrightarrow> state_value x \<le> state_value y"

definition less_ahe_generation_state :: "ahe_generation_state \<Rightarrow> ahe_generation_state \<Rightarrow> bool" where
  "less_ahe_generation_state x y \<longleftrightarrow> state_value x < state_value y"

instance
  by standard (auto simp: less_eq_ahe_generation_state_def less_ahe_generation_state_def intro: state_value_inj)

end

record ahe_generation =
  g_state :: ahe_generation_state
  g_cache_fd :: fd
  g_lock_fd :: fd
  g_creator_fd :: fd
  g_mapping_size :: u64
  g_mapping_base :: u64
  g_shared_globals_offset :: u64
  g_cache_key :: "char list"

definition ahe_generation_init :: ahe_generation where
  "ahe_generation_init = \<lparr>g_state = AHE_GENERATION_EMPTY, g_cache_fd = -1, g_lock_fd = -1,
     g_creator_fd = -1, g_mapping_size = 0, g_mapping_base = 0, g_shared_globals_offset = 0,
     g_cache_key = zeroed AHE_BROKER_CACHE_KEY_SIZE\<rparr>"

section \<open>Operations\<close>

definition ahe_generation_reset :: "ahe_generation \<Rightarrow> (world, ahe_generation) state" where
  "ahe_generation_reset generation = do {
     _ \<leftarrow> (if g_cache_fd generation \<ge> 0 then close_fd (g_cache_fd generation) else ret ());
     _ \<leftarrow> (if g_lock_fd generation \<ge> 0 then close_fd (g_lock_fd generation) else ret ());
     ret ahe_generation_init
   }"

abbreviation MFD_CLOEXEC :: u32 where "MFD_CLOEXEC \<equiv> 1"

text \<open>\<open>MFD_CLOEXEC | MFD_EXEC\<close>; the headers the program is built with define \<open>MFD_EXEC\<close>.\<close>

abbreviation MFD_CLOEXEC_EXEC :: u32 where "MFD_CLOEXEC_EXEC \<equiv> 0x11"

definition ahe_cache_memfd_create :: "(world, fd) state" where
  "ahe_cache_memfd_create = do {
     r \<leftarrow> sys (Memfd_create ''ahe-opcache'' MFD_CLOEXEC_EXEC);
     e \<leftarrow> get_errno;
     if r_ret r < 0 \<and> e = EINVAL
     then do {r2 \<leftarrow> sys (Memfd_create ''ahe-opcache'' MFD_CLOEXEC); ret (r_ret r2)}
     else ret (r_ret r)
   }"

definition acquire_request_valid :: "ahe_broker_message \<Rightarrow> bool" where
  "acquire_request_valid request \<longleftrightarrow> \<not> (m_mapping_size request = 0
     \<or> m_mapping_size request > SIZE_MAX \<or> m_mapping_size request > INT64_MAX
     \<or> \<not> has_nul (m_cache_key request) \<or> hd (m_cache_key request) = NUL)"

definition ahe_generation_create ::
  "ahe_generation \<Rightarrow> fd \<Rightarrow> ahe_broker_message \<Rightarrow> (world, int \<times> ahe_generation) state" where
  "ahe_generation_create generation client_fd request =
     (if \<not> acquire_request_valid request
      then do {set_errno EINVAL; ret (-1, generation)}
      else do {
        cache_fd \<leftarrow> ahe_cache_memfd_create;
        let generation = generation\<lparr>g_cache_fd := cache_fd\<rparr>;
        truncated \<leftarrow> (if cache_fd < 0 then ret False
          else do {r \<leftarrow> sys (Ftruncate cache_fd (m_mapping_size request)); ret (r_ret r \<ge> 0)});
        if \<not> truncated
        then do {generation \<leftarrow> ahe_generation_reset generation; ret (-1, generation)}
        else do {
          r \<leftarrow> sys (Memfd_create ''ahe-opcache-lock'' MFD_CLOEXEC);
          let lock_fd = r_ret r;
          let generation = generation\<lparr>g_lock_fd := lock_fd\<rparr>;
          truncated \<leftarrow> (if lock_fd < 0 then ret False
            else do {r \<leftarrow> sys (Ftruncate lock_fd 1); ret (r_ret r \<ge> 0)});
          if \<not> truncated
          then do {generation \<leftarrow> ahe_generation_reset generation; ret (-1, generation)}
          else ret (0, generation\<lparr>g_state := AHE_GENERATION_INITIALIZING,
            g_creator_fd := client_fd,
            g_mapping_size := m_mapping_size request,
            g_cache_key := m_cache_key request\<rparr>)
        }
      })"

text \<open>\<open>memchr\<close> guards \<open>strcmp\<close>: the request's key is compared only when it is terminated.\<close>

definition ahe_generation_matches :: "ahe_generation \<Rightarrow> ahe_broker_message \<Rightarrow> bool" where
  "ahe_generation_matches generation request \<longleftrightarrow>
     m_mapping_size request = g_mapping_size generation
     \<and> has_nul (m_cache_key request)
     \<and> cstr (m_cache_key request) = cstr (g_cache_key generation)"

section \<open>Well-formedness and owned descriptors\<close>

definition gen_fds :: "ahe_generation \<Rightarrow> fd multiset" where
  "gen_fds g = fd_mset (g_cache_fd g) + fd_mset (g_lock_fd g)"

text \<open>
  An empty generation owns nothing and records nothing. One that exists has both
  descriptors, a nonempty terminated key (so \<open>strcmp\<close> stays inside it) and a size that
  fits \<open>off_t\<close>. While it is being initialised it has a creator and no mapping yet; once
  ready it has no creator, a mapping base and shared globals inside the mapping.
\<close>

definition gen_wf :: "ahe_generation \<Rightarrow> bool" where
  "gen_wf g \<longleftrightarrow> (case g_state g of
     AHE_GENERATION_EMPTY \<Rightarrow> g = ahe_generation_init
   | AHE_GENERATION_INITIALIZING \<Rightarrow> g_cache_fd g \<ge> 0 \<and> g_lock_fd g \<ge> 0 \<and>
       has_nul (g_cache_key g) \<and> hd (g_cache_key g) \<noteq> NUL \<and>
       g_mapping_size g \<noteq> 0 \<and> g_mapping_size g \<le> INT64_MAX \<and>
       g_mapping_base g = 0 \<and> g_shared_globals_offset g = 0
   | AHE_GENERATION_READY \<Rightarrow> g_cache_fd g \<ge> 0 \<and> g_lock_fd g \<ge> 0 \<and>
       has_nul (g_cache_key g) \<and> hd (g_cache_key g) \<noteq> NUL \<and>
       g_mapping_size g \<noteq> 0 \<and> g_mapping_size g \<le> INT64_MAX \<and> g_creator_fd g = -1 \<and>
       g_mapping_base g \<noteq> 0 \<and> g_shared_globals_offset g < g_mapping_size g)"

lemma init_simps [simp]:
  "g_state ahe_generation_init = AHE_GENERATION_EMPTY"
  "g_cache_fd ahe_generation_init = -1" "g_lock_fd ahe_generation_init = -1"
  "g_creator_fd ahe_generation_init = -1"
  by (simp_all add: ahe_generation_init_def)

lemma gen_wf_init [simp]: "gen_wf ahe_generation_init"
  by (simp add: gen_wf_def)

lemma gen_fds_init [simp]: "gen_fds ahe_generation_init = {#}"
  by (simp add: gen_fds_def fd_mset_neg)

lemma gen_wf_empty: "gen_wf g \<Longrightarrow> g_state g = AHE_GENERATION_EMPTY \<Longrightarrow> g = ahe_generation_init"
  by (simp add: gen_wf_def)

lemma gen_wf_key: "gen_wf g \<Longrightarrow> g_state g \<noteq> AHE_GENERATION_EMPTY \<Longrightarrow> has_nul (g_cache_key g)"
  by (auto simp: gen_wf_def split: ahe_generation_state.splits)

lemma gen_wf_fds: "gen_wf g \<Longrightarrow> g_state g \<noteq> AHE_GENERATION_EMPTY \<Longrightarrow>
  gen_fds g = {#g_cache_fd g, g_lock_fd g#}"
  by (auto simp: gen_wf_def gen_fds_def fd_mset_nonneg split: ahe_generation_state.splits)

section \<open>What the operations do\<close>

text \<open>
  \<open>quiet w w'\<close>: a part of the run that sends and receives nothing and keeps the process's identity.
\<close>

definition quiet :: "world \<Rightarrow> world \<Rightarrow> bool" where
  "quiet w w' \<longleftrightarrow> sends (history w') = sends (history w) \<and> recvs (history w') = recvs (history w) \<and>
     length (script w') \<le> length (script w) \<and> (stopping w \<longrightarrow> stopping w') \<and>
     euid w' = euid w \<and> environ w' = environ w"

lemma quiet_refl [simp]: "quiet w w"
  by (simp add: quiet_def)

lemma quiet_trans: "quiet w w' \<Longrightarrow> quiet w' w'' \<Longrightarrow> quiet w w''"
  by (auto simp: quiet_def)

lemma quiet_answered: "sent_of (c, r) = [] \<Longrightarrow> received_from (c, r) = {} \<Longrightarrow> quiet w w' \<Longrightarrow> quiet w (answered c r w')"
  by (auto simp: quiet_def)

lemma quiet_noted: "sent_of (c, returned 0) = [] \<Longrightarrow> received_from (c, returned 0) = {} \<Longrightarrow> quiet w w' \<Longrightarrow> quiet w (noted c w')"
  by (auto simp: quiet_def)

lemma quiet_errno: "quiet w w' \<Longrightarrow> quiet w (with_errno e w')"
  by (auto simp: quiet_def)

lemmas quiet_intros = quiet_answered quiet_noted quiet_errno

lemma wp_generation_reset:
  assumes "\<And>w'. \<lbrakk>\<And>F. holds (gen_fds g + F) w \<Longrightarrow> holds F w'; quiet w w'; script w' = script w;
      stopping w' = stopping w\<rbrakk> \<Longrightarrow> Q ahe_generation_init w'"
  shows "wp (ahe_generation_reset g) Q w"
  unfolding ahe_generation_reset_def wp_rules
  by (auto intro!: assms quiet_intros holds_noted_close simp: gen_fds_def not_le ac_simps fd_mset_neg)

lemma wp_cache_memfd_create:
  assumes "\<And>f w'. \<lbrakk>\<And>F. holds F w \<Longrightarrow> holds (fd_mset f + F) w'; quiet w w'\<rbrakk> \<Longrightarrow> Q f w'"
  shows "wp ahe_cache_memfd_create Q w"
proof -
  have step: "holds (fd_mset (r_ret r) + F) (answered (Memfd_create n k) r w)"
    if "holds F w" for n k r F w
    using that by (rule holds_answered_one) simp
  show ?thesis
    unfolding ahe_cache_memfd_create_def wp_rules
    by (auto intro!: assms quiet_intros step intro: holds_answered_failed)
qed

text \<open>
  Creation: on success the generation is being initialised by the caller for the request
  and owns two new descriptors; on failure nothing is left open and it is empty again.
\<close>

lemma wp_generation_create:
  assumes g: "g = ahe_generation_init"
    and ok: "\<And>g' w'. \<lbrakk>acquire_request_valid request; gen_wf g';
      g_state g' = AHE_GENERATION_INITIALIZING; g_creator_fd g' = client_fd;
      g_mapping_size g' = m_mapping_size request; g_cache_key g' = m_cache_key request;
      \<And>F. holds F w \<Longrightarrow> holds (gen_fds g' + F) w'; quiet w w'\<rbrakk> \<Longrightarrow> Q (0, g') w'"
    and err: "\<And>w'. \<lbrakk>\<And>F. holds F w \<Longrightarrow> holds F w'; quiet w w'\<rbrakk>
      \<Longrightarrow> Q (-1, ahe_generation_init) w'"
  shows "wp (ahe_generation_create g client_fd request) Q w"
proof (cases "acquire_request_valid request")
  case False
  then show ?thesis
    by (auto simp: ahe_generation_create_def wp_rules g intro!: err quiet_intros)
next
  case True
  let ?g1 = "\<lambda>c. ahe_generation_init\<lparr>g_cache_fd := c\<rparr>"
  let ?g2 = "\<lambda>c l. ahe_generation_init\<lparr>g_cache_fd := c, g_lock_fd := l\<rparr>"
  let ?g3 = "\<lambda>c l. (?g2 c l)\<lparr>g_state := AHE_GENERATION_INITIALIZING, g_creator_fd := client_fd,
    g_mapping_size := m_mapping_size request, g_cache_key := m_cache_key request\<rparr>"
  have reset: "wp (ahe_generation_reset g') (\<lambda>g''. Q (-1, g'')) w1"
    if "\<And>F. holds F w \<Longrightarrow> holds (gen_fds g' + F) w1" "quiet w w1" for g' w1
    by (rule wp_generation_reset, rule err) (use that in \<open>auto intro: quiet_trans\<close>)
  have wf3: "gen_wf (?g3 c l)" if "c \<ge> 0" "l \<ge> 0" for c l
    using that True by (auto simp: gen_wf_def acquire_request_valid_def ahe_generation_init_def)
  have fds: "gen_fds (?g3 c l) = fd_mset c + fd_mset l" "gen_fds (?g2 c l) = fd_mset c + fd_mset l"
    "gen_fds (?g1 c) = fd_mset c" for c l
    by (simp_all add: gen_fds_def fd_mset_neg)
  have none: "holds F (answered (Ftruncate f n) r w1)" if "holds F w1" for F f n r w1
    using that by (rule holds_answered_none) simp
  have one: "holds (fd_mset c + fd_mset (r_ret r) + F) (answered (Memfd_create n k) r w1)"
    if "holds (fd_mset c + F) w1" for F c n k r w1
    using holds_answered_one [OF that, of "Memfd_create n k" r] by (simp add: ac_simps)
  show ?thesis
    unfolding ahe_generation_create_def g using True
    by (auto simp: wp_rules Let_def fds not_le
      intro!: wp_cache_memfd_create reset ok wf3 none one quiet_intros)
qed

lemma extending_generation_reset [extends_intros]: "extending (ahe_generation_reset g)"
  by (auto simp: ahe_generation_reset_def intro!: extends_intros)

lemma extending_cache_memfd_create [extends_intros]: "extending ahe_cache_memfd_create"
  by (auto simp: ahe_cache_memfd_create_def intro!: extends_intros)

lemma extending_generation_create [extends_intros]:
  "extending (ahe_generation_create g client_fd request)"
  by (auto simp: ahe_generation_create_def Let_def intro!: extends_intros)

end
