(* ===== verification/Broker_Handlers.thy ===== *)
theory Broker_Handlers imports Generation begin

text \<open>
  How the broker answers one client message: \<open>ahe_broker_handle_acquire\<close>,
  \<open>ahe_broker_handle_ready\<close> and \<open>ahe_broker_handle_client_message\<close> of
  \<^verbatim>\<open>src/ahe_broker.c\<close>. \<open>handler_post\<close> is the contract every handler is shown to keep:
  the generation stays well formed and moves only as the protocol allows, descriptors
  are neither lost nor invented, and what is sent goes to the requesting client, with
  descriptors only as a grant of the generation.
\<close>

section \<open>Connections and handlers\<close>

record ahe_broker_client_connection =
  c_fd :: fd
  c_handled_message :: bool

text \<open>The answer to a granted request: \<open>CREATE\<close> to the creator, \<open>ATTACH\<close> once ready.\<close>

definition grant_message :: "ahe_generation \<Rightarrow> ahe_broker_message" where
  "grant_message g = (ahe_broker_message_init
       (if g_state g = AHE_GENERATION_READY then AHE_BROKER_ATTACH else AHE_BROKER_CREATE))
     \<lparr>m_mapping_size := g_mapping_size g, m_mapping_base := g_mapping_base g,
      m_shared_globals_offset := g_shared_globals_offset g\<rparr>"

definition ahe_broker_handle_acquire ::
  "fd \<Rightarrow> ahe_generation \<Rightarrow> ahe_broker_message \<Rightarrow> (world, int \<times> ahe_generation) state" where
  "ahe_broker_handle_acquire client_fd generation request = do {
     (created, generation) \<leftarrow> (if g_state generation = AHE_GENERATION_EMPTY
       then ahe_generation_create generation client_fd request
       else ret (0, generation));
     if created < 0
     then do {
       sent \<leftarrow> ahe_broker_send_message client_fd (ahe_broker_message_init AHE_BROKER_ERROR) [];
       ret (sent, generation)
     }
     else if \<not> ahe_generation_matches generation request
       \<or> (g_state generation = AHE_GENERATION_INITIALIZING \<and> g_creator_fd generation \<noteq> client_fd)
     then do {
       sent \<leftarrow> ahe_broker_send_message client_fd (ahe_broker_message_init AHE_BROKER_DECLINE) [];
       ret (sent, generation)
     }
     else do {
       sent \<leftarrow> ahe_broker_send_message client_fd (grant_message generation)
         [g_cache_fd generation, g_lock_fd generation];
       ret (sent, generation)
     }
   }"

definition ready_request_invalid :: "fd \<Rightarrow> ahe_generation \<Rightarrow> ahe_broker_message \<Rightarrow> bool" where
  "ready_request_invalid client_fd generation request \<longleftrightarrow>
     g_state generation \<noteq> AHE_GENERATION_INITIALIZING
     \<or> g_creator_fd generation \<noteq> client_fd
     \<or> m_mapping_size request \<noteq> g_mapping_size generation
     \<or> m_mapping_base request = 0
     \<or> m_shared_globals_offset request \<ge> m_mapping_size request"

definition published_by :: "ahe_generation \<Rightarrow> ahe_broker_message \<Rightarrow> ahe_generation" where
  "published_by generation request = generation\<lparr>
     g_mapping_base := m_mapping_base request,
     g_shared_globals_offset := m_shared_globals_offset request,
     g_state := AHE_GENERATION_READY,
     g_creator_fd := -1\<rparr>"

definition ahe_broker_handle_ready ::
  "fd \<Rightarrow> ahe_generation \<Rightarrow> ahe_broker_message \<Rightarrow> (world, int \<times> ahe_generation) state" where
  "ahe_broker_handle_ready client_fd generation request =
     (if ready_request_invalid client_fd generation request
      then do {
        sent \<leftarrow> ahe_broker_send_message client_fd (ahe_broker_message_init AHE_BROKER_ERROR) [];
        ret (sent, generation)
      }
      else do {
        sent \<leftarrow> ahe_broker_send_message client_fd (ahe_broker_message_init AHE_BROKER_ACK) [];
        if sent < 0 then ret (-1, generation)
        else ret (0, published_by generation request)
      })"

definition reset_if_creator :: "fd \<Rightarrow> ahe_generation \<Rightarrow> (world, ahe_generation) state" where
  "reset_if_creator client_fd generation =
     (if g_state generation = AHE_GENERATION_INITIALIZING \<and> g_creator_fd generation = client_fd
      then ahe_generation_reset generation else ret generation)"

text \<open>The \<open>switch\<close> on the request's type; the result says whether to keep the connection.\<close>

definition ahe_broker_dispatch ::
  "fd \<Rightarrow> ahe_generation \<Rightarrow> ahe_broker_message \<Rightarrow> (world, bool \<times> ahe_generation) state" where
  "ahe_broker_dispatch client_fd generation request =
     (if m_type request = AHE_BROKER_ACQUIRE then do {
        (res, generation) \<leftarrow> ahe_broker_handle_acquire client_fd generation request;
        ret (res = 0, generation)
      }
      else if m_type request = AHE_BROKER_READY then do {
        (res, generation) \<leftarrow> ahe_broker_handle_ready client_fd generation request;
        ret (res = 0, generation)
      }
      else if m_type request = AHE_BROKER_ABORT then do {
        generation \<leftarrow> reset_if_creator client_fd generation;
        sent \<leftarrow> ahe_broker_send_message client_fd (ahe_broker_message_init AHE_BROKER_ACK) [];
        ret (sent = 0, generation)
      }
      else if m_type request = AHE_BROKER_DETACH then do {
        _ \<leftarrow> ahe_broker_send_message client_fd (ahe_broker_message_init AHE_BROKER_ACK) [];
        ret (False, generation)
      }
      else do {
        _ \<leftarrow> ahe_broker_send_message client_fd (ahe_broker_message_init AHE_BROKER_ERROR) [];
        ret (False, generation)
      })"

definition ahe_broker_handle_client_message ::
  "ahe_broker_client_connection \<Rightarrow> ahe_generation
     \<Rightarrow> (world, bool \<times> ahe_broker_client_connection \<times> ahe_generation) state" where
  "ahe_broker_handle_client_message client generation = do {
     (received, request) \<leftarrow> ahe_broker_receive_message (c_fd client);
     if received \<le> 0 then ret (False, client, generation)
     else do {
       (keep, generation) \<leftarrow> ahe_broker_dispatch (c_fd client) generation request;
       ret (keep, client\<lparr>c_handled_message := True\<rparr>, generation)
     }
   }"

section \<open>The handlers' contract\<close>

text \<open>
  The moves a message or the loss of client \<open>f\<close> can make: begin a generation with \<open>f\<close> as its
  creator, discard or publish the one \<open>f\<close> is creating, or nothing.
\<close>

definition gen_move :: "fd \<Rightarrow> ahe_generation \<Rightarrow> ahe_generation \<Rightarrow> bool" where
  "gen_move f g g' \<longleftrightarrow> g' = g
     \<or> g_state g = AHE_GENERATION_EMPTY \<and> g_state g' = AHE_GENERATION_INITIALIZING
         \<and> g_creator_fd g' = f
     \<or> g_state g = AHE_GENERATION_INITIALIZING \<and> g_creator_fd g = f \<and>
         (g' = ahe_generation_init \<or>
          (\<exists>request. \<not> ready_request_invalid f g request \<and> g' = published_by g request))"

lemma gen_move_refl [simp]: "gen_move f g g"
  by (simp add: gen_move_def)

text \<open>A generation's state only ever advances, or the generation is discarded.\<close>

lemma gen_move_advances: "gen_move f g g' \<Longrightarrow> g_state g \<le> g_state g' \<or> g' = ahe_generation_init"
  by (auto simp: gen_move_def less_eq_ahe_generation_state_def published_by_def)

lemma gen_move_ready: "gen_move f g g' \<Longrightarrow> g_state g = AHE_GENERATION_READY \<Longrightarrow> g' = g"
  by (auto simp: gen_move_def)

text \<open>A send to client \<open>f\<close>: without descriptors and no grant, or the grant of \<open>g\<close>.\<close>

definition send_allowed :: "fd \<Rightarrow> ahe_generation \<Rightarrow> fd \<times> char list \<times> fd list \<Rightarrow> bool" where
  "send_allowed f g s \<longleftrightarrow>
     (\<exists>ty \<in> {AHE_BROKER_ACK, AHE_BROKER_ERROR, AHE_BROKER_DECLINE}.
        s = (f, encode_message (ahe_broker_message_init ty), [])) \<or>
     s = (f, encode_message (grant_message g), [g_cache_fd g, g_lock_fd g]) \<and>
       (g_state g = AHE_GENERATION_READY
        \<or> g_state g = AHE_GENERATION_INITIALIZING \<and> g_creator_fd g = f)"

definition handler_post ::
  "fd \<Rightarrow> ahe_generation \<Rightarrow> world \<Rightarrow> ahe_generation \<Rightarrow> world \<Rightarrow> bool" where
  "handler_post f g w g' w' \<longleftrightarrow> gen_wf g' \<and> gen_move f g g' \<and>
     (\<forall>F. holds (gen_fds g + F) w \<longrightarrow> holds (gen_fds g' + F) w') \<and>
     (\<forall>s \<in> sends (history w'). s \<in> sends (history w) \<or> send_allowed f g' s) \<and>
     recvs (history w') \<subseteq> insert f (recvs (history w)) \<and>
     length (script w') \<le> length (script w) \<and> (stopping w \<longrightarrow> stopping w') \<and>
     euid w' = euid w \<and> environ w' = environ w"

lemma handler_post_quiet:
  "\<lbrakk>gen_wf g'; gen_move f g g'; quiet w w'; \<And>F. holds (gen_fds g + F) w \<Longrightarrow> holds (gen_fds g' + F) w'\<rbrakk>
   \<Longrightarrow> handler_post f g w g' w'"
  by (auto simp: handler_post_def quiet_def)

lemma gen_fds_published [simp]: "gen_fds (published_by g request) = gen_fds g"
  by (simp add: gen_fds_def published_by_def)

lemma gen_wf_published:
  "gen_wf g \<Longrightarrow> \<not> ready_request_invalid f g request \<Longrightarrow> gen_wf (published_by g request)"
  by (auto simp: gen_wf_def ready_request_invalid_def published_by_def not_le)

text \<open>
  Answering after the generation has its final shape: one allowed send completes the
  contract.
\<close>

lemma wp_answer:
  assumes "handler_post f g w g1 w1"
    and "length fds \<le> AHE_BROKER_DESCRIPTOR_COUNT"
    and "send_allowed f g1 (f, encode_message message, fds)"
    and "\<And>sent w'. \<lbrakk>sent = 0 \<or> sent = -1; handler_post f g w g1 w'\<rbrakk> \<Longrightarrow> Q sent w'"
  shows "wp (ahe_broker_send_message f message fds) Q w1"
  by (rule wp_send_message [OF assms(2)], rule assms(4))
    (use assms(1,3) in \<open>auto simp: handler_post_def\<close>)

lemma send_allowed_plain [simp]:
  "send_allowed f g (f, encode_message (ahe_broker_message_init AHE_BROKER_ACK), [])"
  "send_allowed f g (f, encode_message (ahe_broker_message_init AHE_BROKER_ERROR), [])"
  "send_allowed f g (f, encode_message (ahe_broker_message_init AHE_BROKER_DECLINE), [])"
  by (auto simp: send_allowed_def)

lemma handler_post_refl: "gen_wf g \<Longrightarrow> handler_post f g w g w"
  by (rule handler_post_quiet) simp_all

lemma handler_post_sent:
  "\<lbrakk>gen_wf g; \<And>F. holds F w \<Longrightarrow> holds F w';
    sends (history w') = insert (f, encode_message (ahe_broker_message_init ty), []) (sends (history w));
    ty \<in> {AHE_BROKER_ACK, AHE_BROKER_ERROR, AHE_BROKER_DECLINE};
    recvs (history w') = recvs (history w); length (script w') \<le> length (script w); stopping w \<Longrightarrow> stopping w'; euid w' = euid w;
    environ w' = environ w\<rbrakk> \<Longrightarrow> handler_post f g w g w'"
  by (auto simp: handler_post_def)

lemma wp_handle_acquire:
  assumes wf: "gen_wf g"
    and post: "\<And>res g' w'. handler_post f g w g' w' \<Longrightarrow> Q (res, g') w'"
  shows "wp (ahe_broker_handle_acquire f g request) Q w"
proof -
  have answer: "wp (if \<not> ahe_generation_matches g1 request \<or>
        g_state g1 = AHE_GENERATION_INITIALIZING \<and> g_creator_fd g1 \<noteq> f
      then do {
        sent \<leftarrow> ahe_broker_send_message f (ahe_broker_message_init AHE_BROKER_DECLINE) [];
        ret (sent, g1)
      }
      else do {
        sent \<leftarrow> ahe_broker_send_message f (grant_message g1) [g_cache_fd g1, g_lock_fd g1];
        ret (sent, g1)
      }) Q w1"
    if "handler_post f g w g1 w1" and "g_state g1 \<noteq> AHE_GENERATION_EMPTY" for g1 w1
  proof (cases "\<not> ahe_generation_matches g1 request \<or>
      g_state g1 = AHE_GENERATION_INITIALIZING \<and> g_creator_fd g1 \<noteq> f")
    case True
    then show ?thesis by (simp add: wp_rules) (rule wp_answer [OF that(1)]; simp add: post)
  next
    case False
    with that(2) have "send_allowed f g1
        (f, encode_message (grant_message g1), [g_cache_fd g1, g_lock_fd g1])"
      by (cases "g_state g1") (auto simp: send_allowed_def)
    then show ?thesis unfolding if_not_P [OF False] wp_rules
      by (intro wp_answer [OF that(1)] post) simp_all
  qed
  show ?thesis
  proof (cases "g_state g = AHE_GENERATION_EMPTY")
    case True
    with wf have g: "g = ahe_generation_init" by (rule gen_wf_empty)
    have "wp (ahe_generation_create g f request) (\<lambda>r. wp (case r of (created, g1) \<Rightarrow>
        if created < 0
        then do {
          sent \<leftarrow> ahe_broker_send_message f (ahe_broker_message_init AHE_BROKER_ERROR) [];
          ret (sent, g1)
        }
        else if \<not> ahe_generation_matches g1 request \<or>
          g_state g1 = AHE_GENERATION_INITIALIZING \<and> g_creator_fd g1 \<noteq> f
        then do {
          sent \<leftarrow> ahe_broker_send_message f (ahe_broker_message_init AHE_BROKER_DECLINE) [];
          ret (sent, g1)
        }
        else do {
          sent \<leftarrow> ahe_broker_send_message f (grant_message g1) [g_cache_fd g1, g_lock_fd g1];
          ret (sent, g1)
        }) Q) w"
    proof (rule wp_generation_create [OF g], goal_cases created failed)
      case (created g1 w1)
      then have "handler_post f g w g1 w1"
        by (auto simp: g gen_move_def intro!: handler_post_quiet)
      from answer [OF this] created(3) show ?case by simp
    next
      case (failed w1)
      then have "handler_post f g w ahe_generation_init w1"
        by (auto simp: g intro!: handler_post_quiet)
      then show ?case by (auto simp: wp_rules intro!: wp_answer [OF \<open>handler_post _ _ _ _ w1\<close>] post)
    qed
    with True show ?thesis by (simp add: ahe_broker_handle_acquire_def wp_rules)
  next
    case False
    with answer [OF handler_post_refl [OF wf]] show ?thesis
      by (simp add: ahe_broker_handle_acquire_def wp_rules)
  qed
qed

lemma wp_handle_ready:
  assumes wf: "gen_wf g"
    and post: "\<And>res g' w'. handler_post f g w g' w' \<Longrightarrow> Q (res, g') w'"
  shows "wp (ahe_broker_handle_ready f g request) Q w"
proof -
  have publish: "handler_post f g w (published_by g request) w'"
    if valid: "\<not> ready_request_invalid f g request"
      and k: "\<And>F. holds F w \<Longrightarrow> holds F w'"
        "sends (history w') =
          insert (f, encode_message (ahe_broker_message_init AHE_BROKER_ACK), []) (sends (history w))"
        "recvs (history w') = recvs (history w)" "length (script w') \<le> length (script w)" "stopping w \<Longrightarrow> stopping w'"
        "euid w' = euid w" "environ w' = environ w" for w'
  proof -
    have m: "gen_move f g (published_by g request)"
      using valid unfolding gen_move_def ready_request_invalid_def by blast
    show ?thesis using k m gen_wf_published [OF wf valid]
      by (auto simp: handler_post_def)
  qed
  show ?thesis
  proof (cases "ready_request_invalid f g request")
    case True
    then show ?thesis
      by (auto simp: ahe_broker_handle_ready_def wp_rules
        intro!: wp_answer [OF handler_post_refl [OF wf]] post)
  next
    case False
    have "wp (ahe_broker_send_message f (ahe_broker_message_init AHE_BROKER_ACK) [])
      (\<lambda>sent. wp (if sent < 0 then ret (-1, g) else ret (0, published_by g request)) Q) w"
      by (rule wp_send_message)
        (auto simp: wp_rules intro!: post publish [OF False] intro: handler_post_sent [OF wf])
    with False show ?thesis by (simp add: ahe_broker_handle_ready_def wp_rules)
  qed
qed

lemma wp_reset_if_creator:
  assumes wf: "gen_wf g"
    and post: "\<And>g' w'. handler_post f g w g' w' \<Longrightarrow> quiet w w' \<Longrightarrow>
      \<not> (g_state g' = AHE_GENERATION_INITIALIZING \<and> g_creator_fd g' = f) \<Longrightarrow> Q g' w'"
  shows "wp (reset_if_creator f g) Q w"
proof (cases "g_state g = AHE_GENERATION_INITIALIZING \<and> g_creator_fd g = f")
  case True
  have "wp (ahe_generation_reset g) Q w"
    by (rule wp_generation_reset, rule post)
      (use True in \<open>auto simp: gen_move_def intro!: handler_post_quiet\<close>)
  with True show ?thesis by (simp add: reset_if_creator_def)
next
  case False
  with post [OF handler_post_refl [OF wf]] show ?thesis
    by (auto simp: reset_if_creator_def wp_rules)
qed

lemma wp_dispatch:
  assumes wf: "gen_wf g"
    and post: "\<And>keep g' w'. handler_post f g w g' w' \<Longrightarrow> Q (keep, g') w'"
  shows "wp (ahe_broker_dispatch f g request) Q w"
proof -
  have acquire: "wp (ahe_broker_handle_acquire f g request)
      (\<lambda>r. wp (case r of (res, g') \<Rightarrow> ret (res = 0, g')) Q) w"
    by (rule wp_handle_acquire [OF wf]) (simp add: wp_rules post)
  have ready: "wp (ahe_broker_handle_ready f g request)
      (\<lambda>r. wp (case r of (res, g') \<Rightarrow> ret (res = 0, g')) Q) w"
    by (rule wp_handle_ready [OF wf]) (simp add: wp_rules post)
  have abort: "wp (reset_if_creator f g) (\<lambda>g'. wp (do {
      sent \<leftarrow> ahe_broker_send_message f (ahe_broker_message_init AHE_BROKER_ACK) [];
      ret (sent = 0, g')
    }) Q) w"
    by (rule wp_reset_if_creator [OF wf])
      (auto simp: wp_rules intro!: wp_answer post)
  have plain: "wp (do {
      _ \<leftarrow> ahe_broker_send_message f (ahe_broker_message_init ty) [];
      ret (False, g)
    }) Q w" if "ty = AHE_BROKER_ACK \<or> ty = AHE_BROKER_ERROR" for ty
    using that by (auto simp: wp_rules intro!: wp_answer [OF handler_post_refl [OF wf]] post)
  show ?thesis
    using acquire ready abort plain by (simp add: ahe_broker_dispatch_def wp_rules)
qed

text \<open>
  One whole message: either nothing usable arrived and nothing changed, or the message was
  dispatched and the connection is marked as having been heard.
\<close>

lemma wp_handle_client_message:
  assumes wf: "gen_wf g"
    and post: "\<And>keep client' g' w'. \<lbrakk>handler_post (c_fd client) g w g' w'; c_fd client' = c_fd client;
      client' = client \<and> \<not> keep \<and> g' = g \<or> c_handled_message client'\<rbrakk> \<Longrightarrow> Q (keep, client', g') w'"
  shows "wp (ahe_broker_handle_client_message client g) Q w"
proof -
  let ?f = "c_fd client"
  have "wp (ahe_broker_receive_message ?f) (\<lambda>r. wp (case r of (received, request) \<Rightarrow>
      if received \<le> 0 then ret (False, client, g)
      else do {
        (keep, g') \<leftarrow> ahe_broker_dispatch ?f g request;
        ret (keep, client\<lparr>c_handled_message := True\<rparr>, g')
      }) Q) w"
  proof (rule wp_receive_message, goal_cases)
    case (1 received request r w1)
    have k: "handler_post ?f g w g w1"
      using 1 wf by (auto simp: handler_post_def)
    show ?case
    proof (cases "received \<le> 0")
      case True
      with post [OF k] show ?thesis by (simp add: wp_rules)
    next
      case False
      have "wp (ahe_broker_dispatch ?f g request)
        (\<lambda>r. wp (case r of (keep, g') \<Rightarrow> ret (keep, client\<lparr>c_handled_message := True\<rparr>, g')) Q) w1"
      proof (rule wp_dispatch [OF wf])
        fix keep g' w'
        assume d: "handler_post ?f g w1 g' w'"
        have "handler_post ?f g w g' w'" using d k 1 by (auto simp: handler_post_def)
        then show "wp (case (keep, g') of (keep, g') \<Rightarrow>
            ret (keep, client\<lparr>c_handled_message := True\<rparr>, g')) Q w'"
          by (simp add: wp_rules post)
      qed
      with False show ?thesis by (simp add: wp_rules)
    qed
  qed
  then show ?thesis by (simp add: ahe_broker_handle_client_message_def wp_rules)
qed

lemma extending_handle_acquire [extends_intros]:
  "extending (ahe_broker_handle_acquire client_fd g request)"
  by (auto simp: ahe_broker_handle_acquire_def intro!: extends_intros)

lemma extending_handle_ready [extends_intros]:
  "extending (ahe_broker_handle_ready client_fd g request)"
  by (auto simp: ahe_broker_handle_ready_def intro!: extends_intros)

lemma extending_reset_if_creator [extends_intros]: "extending (reset_if_creator client_fd g)"
  by (auto simp: reset_if_creator_def intro!: extends_intros)

lemma extending_dispatch [extends_intros]: "extending (ahe_broker_dispatch client_fd g request)"
  by (auto simp: ahe_broker_dispatch_def intro!: extends_intros)

lemma extending_handle_client_message [extends_intros]:
  "extending (ahe_broker_handle_client_message client g)"
  by (auto simp: ahe_broker_handle_client_message_def intro!: extends_intros)

end
