(* ===== verification/Broker_Clients.thy ===== *)
theory Broker_Clients imports Broker_Handlers begin

text \<open>
  The broker's table of connections: \<open>ahe_broker_close_client\<close> and
  \<open>ahe_broker_add_client\<close> of \<^verbatim>\<open>src/ahe_broker.c\<close>. The table is the list of the
  connections in use (\<open>client_count\<close> is its length) beside the allocated capacity; a
  connection is removed by moving the last one into its place.
\<close>

section \<open>Operations\<close>

definition swap_remove :: "'a list \<Rightarrow> nat \<Rightarrow> 'a list" where
  "swap_remove xs i = butlast (xs[i := xs ! (length xs - 1)])"

definition ahe_broker_close_client ::
  "ahe_broker_client_connection list \<Rightarrow> nat \<Rightarrow> ahe_generation
     \<Rightarrow> (world, ahe_broker_client_connection list \<times> ahe_generation) state" where
  "ahe_broker_close_client clients client_index generation = do {
     generation \<leftarrow> reset_if_creator (c_fd (clients ! client_index)) generation;
     _ \<leftarrow> close_fd (c_fd (clients ! client_index));
     ret (swap_remove clients client_index, generation)
   }"

text \<open>\<open>sizeof(ahe_broker_client_connection)\<close>: an \<open>int\<close> and a padded \<open>bool\<close>.\<close>

abbreviation CONNECTION_SIZE :: usize where "CONNECTION_SIZE \<equiv> 8"

definition grown_capacity :: "usize \<Rightarrow> usize" where
  "grown_capacity capacity = (if capacity \<noteq> 0 then capacity * 2 else 8)"

definition ahe_broker_add_client ::
  "ahe_broker_client_connection list \<Rightarrow> usize \<Rightarrow> fd
     \<Rightarrow> (world, int \<times> ahe_broker_client_connection list \<times> usize) state" where
  "ahe_broker_add_client clients capacity client_fd =
     (let connection = \<lparr>c_fd = client_fd, c_handled_message = False\<rparr> in
      if of_nat (length clients) = capacity
      then
        if capacity > SIZE_MAX div 2
        then do {set_errno ENOMEM; ret (-1, clients, capacity)}
        else if grown_capacity capacity > SIZE_MAX div CONNECTION_SIZE
        then do {set_errno ENOMEM; ret (-1, clients, capacity)}
        else do {
          r \<leftarrow> sys (Realloc (unat (grown_capacity capacity * CONNECTION_SIZE)));
          if r_addr r = 0 then ret (-1, clients, capacity)
          else ret (0, clients @ [connection], grown_capacity capacity)
        }
      else ret (0, clients @ [connection], capacity))"

section \<open>The table\<close>

lemma length_swap_remove [simp]: "length (swap_remove xs i) = length xs - 1"
  by (simp add: swap_remove_def)

lemma nth_swap_remove: "i < length xs \<Longrightarrow> j < i \<Longrightarrow> swap_remove xs i ! j = xs ! j"
  by (simp add: swap_remove_def nth_butlast)

lemma nth_swap_remove_eq:
  "i < length xs \<Longrightarrow> j < length xs - 1 \<Longrightarrow>
   swap_remove xs i ! j = (if j = i then xs ! (length xs - 1) else xs ! j)"
  by (simp add: swap_remove_def nth_butlast nth_list_update)

lemma mset_swap_remove:
  assumes "i < length xs"
  shows "add_mset (xs ! i) (mset (swap_remove xs i)) = mset xs"
proof -
  define ys y where "ys = butlast xs" and "y = last xs"
  have "xs \<noteq> []" using assms by auto
  then have xs: "xs = ys @ [y]" by (simp add: ys_def y_def)
  show ?thesis
  proof (cases "i < length ys")
    case True
    then have "swap_remove xs i = ys[i := y]"
      by (simp add: xs swap_remove_def list_update_append butlast_append)
    with True show ?thesis by (simp add: xs nth_append mset_update)
  next
    case False
    with assms have "i = length ys" by (simp add: xs)
    then show ?thesis by (simp add: xs swap_remove_def nth_append)
  qed
qed

lemma set_swap_remove: "i < length xs \<Longrightarrow> set xs = insert (xs ! i) (set (swap_remove xs i))"
  using mset_swap_remove [of i xs] by (metis set_mset_add_mset_insert set_mset_mset)

definition client_fds :: "ahe_broker_client_connection list \<Rightarrow> fd multiset" where
  "client_fds clients = image_mset c_fd (mset clients)"

lemma client_fds_simps [simp]:
  "client_fds [] = {#}"
  "client_fds (xs @ ys) = client_fds xs + client_fds ys"
  "client_fds [c] = {#c_fd c#}"
  by (simp_all add: client_fds_def)

lemma client_fds_remove:
  assumes "i < length xs"
  shows "client_fds xs = add_mset (c_fd (xs ! i)) (client_fds (swap_remove xs i))"
  using mset_swap_remove [OF assms] by (metis client_fds_def image_mset_add_mset)

lemma client_fds_update:
  "i < length xs \<Longrightarrow> c_fd c = c_fd (xs ! i) \<Longrightarrow> client_fds (xs[i := c]) = client_fds xs"
  by (simp add: client_fds_def mset_update image_mset_Diff multiset.map_comp comp_def
    flip: add_mset_add_single)

section \<open>What the operations do\<close>

text \<open>The creator of a generation that is being initialised is one of the connections.\<close>

definition creator_connected :: "ahe_generation \<Rightarrow> ahe_broker_client_connection list \<Rightarrow> bool" where
  "creator_connected g clients \<longleftrightarrow>
     (g_state g = AHE_GENERATION_INITIALIZING \<longrightarrow> g_creator_fd g \<in> c_fd ` set clients)"

lemma creator_connected_append: "creator_connected g xs \<Longrightarrow> creator_connected g (xs @ ys)"
  by (auto simp: creator_connected_def)

lemma creator_connected_init [simp]: "creator_connected ahe_generation_init clients"
  by (simp add: creator_connected_def)

lemma gen_move_creator_connected:
  assumes "creator_connected g clients" and "gen_move f g g'" and "f \<in> c_fd ` set clients"
  shows "creator_connected g' clients"
  using assms by (auto simp: creator_connected_def gen_move_def published_by_def)

text \<open>
  Closing a connection: if it was creating a generation that generation is discarded, its
  descriptor is closed, the connections below it stay where they are.
\<close>

lemma wp_close_client:
  assumes i: "i < length clients" and wf: "gen_wf g" and cc: "creator_connected g clients"
    and post: "\<And>g' w'. \<lbrakk>gen_wf g'; gen_move (c_fd (clients ! i)) g g'; quiet w w';
      creator_connected g' (swap_remove clients i);
      \<And>F. holds (client_fds clients + (gen_fds g + F)) w \<Longrightarrow>
        holds (client_fds (swap_remove clients i) + (gen_fds g' + F)) w'\<rbrakk>
      \<Longrightarrow> Q (swap_remove clients i, g') w'"
  shows "wp (ahe_broker_close_client clients i g) Q w"
proof -
  let ?f = "c_fd (clients ! i)" and ?cs = "swap_remove clients i"
  have "Q (?cs, g') (noted (Close ?f) w1)"
    if p: "handler_post ?f g w g' w1" and q: "quiet w w1"
      and nc: "\<not> (g_state g' = AHE_GENERATION_INITIALIZING \<and> g_creator_fd g' = ?f)" for g' w1
  proof (rule post)
    show "gen_wf g'" and m: "gen_move ?f g g'" using p by (simp_all add: handler_post_def)
    show "quiet w (noted (Close ?f) w1)" using q by (auto intro: quiet_intros)
    have "?f \<in> c_fd ` set clients" using i by simp
    with cc m have "creator_connected g' clients" by (rule gen_move_creator_connected)
    with nc show "creator_connected g' ?cs"
      using set_swap_remove [OF i] by (auto simp: creator_connected_def)
    fix F
    assume "holds (client_fds clients + (gen_fds g + F)) w"
    then have "holds (gen_fds g + (client_fds clients + F)) w" by (simp add: ac_simps)
    with p have "holds (gen_fds g' + (client_fds clients + F)) w1" by (simp add: handler_post_def)
    then have "holds (add_mset ?f (client_fds ?cs + (gen_fds g' + F))) w1"
      by (simp add: client_fds_remove [OF i] ac_simps)
    then show "holds (client_fds ?cs + (gen_fds g' + F)) (noted (Close ?f) w1)"
      by (rule holds_close) simp
  qed
  then show ?thesis
    unfolding ahe_broker_close_client_def wp_bind wp_return
    by (intro wp_reset_if_creator [OF wf]) (simp add: wp_rules)
qed

text \<open>
  Adding a connection: the table keeps room for all of them, and neither the doubling nor
  the size of the new allocation wraps around.
\<close>

definition table_fits :: "'a list \<Rightarrow> usize \<Rightarrow> bool" where
  "table_fits clients capacity \<longleftrightarrow> length clients \<le> unat capacity"

lemma grown_capacity_exact:
  assumes "\<not> capacity > SIZE_MAX div 2"
  shows "unat (grown_capacity capacity) = (if capacity = 0 then 8 else 2 * unat capacity)"
proof -
  have "unat capacity \<le> unat (SIZE_MAX div 2)" using assms by (simp add: word_le_nat_alt not_less)
  then show ?thesis by (auto simp: grown_capacity_def unat_word_ariths)
qed

lemma wp_add_client:
  assumes fits: "table_fits clients capacity"
    and fail: "\<And>w'. \<lbrakk>quiet w w'; \<And>F. holds F w \<Longrightarrow> holds F w'\<rbrakk> \<Longrightarrow> Q (-1, clients, capacity) w'"
    and added: "\<And>cap w'. \<lbrakk>quiet w w'; \<And>F. holds F w \<Longrightarrow> holds F w';
      table_fits (clients @ [\<lparr>c_fd = f, c_handled_message = False\<rparr>]) cap;
      cap = capacity \<or> cap = grown_capacity capacity \<and>
        unat (cap * CONNECTION_SIZE) = unat cap * 8 \<and>
        unat cap = (if capacity = 0 then 8 else 2 * unat capacity)\<rbrakk>
      \<Longrightarrow> Q (0, clients @ [\<lparr>c_fd = f, c_handled_message = False\<rparr>], cap) w'"
  shows "wp (ahe_broker_add_client clients capacity f) Q w"
proof (cases "of_nat (length clients) = capacity")
  case False
  have "length clients \<noteq> unat capacity"
    using False by auto
  with fits have "length clients < unat capacity" by (simp add: table_fits_def)
  then have "Q (0, clients @ [\<lparr>c_fd = f, c_handled_message = False\<rparr>], capacity) w"
    by (intro added) (auto simp: table_fits_def)
  with False show ?thesis by (simp add: ahe_broker_add_client_def wp_rules Let_def)
next
  case True
  have room: "table_fits (clients @ [\<lparr>c_fd = f, c_handled_message = False\<rparr>]) (grown_capacity capacity)"
    if "\<not> capacity > SIZE_MAX div 2"
    using fits grown_capacity_exact [OF that] unat_gt_0 [of capacity] by (auto simp: table_fits_def)
  have size: "unat (grown_capacity capacity * CONNECTION_SIZE) = unat (grown_capacity capacity) * 8"
    if "\<not> grown_capacity capacity > SIZE_MAX div CONNECTION_SIZE"
  proof -
    have "unat (grown_capacity capacity) \<le> unat (SIZE_MAX div CONNECTION_SIZE)"
      using that by (simp add: word_le_nat_alt not_less)
    then show ?thesis by (simp add: unat_word_ariths)
  qed
  show ?thesis
    unfolding ahe_broker_add_client_def Let_def if_P [OF True] wp_rules
    by (auto intro!: fail added room size grown_capacity_exact quiet_intros)
qed

lemma extending_close_client [extends_intros]: "extending (ahe_broker_close_client clients i g)"
  by (auto simp: ahe_broker_close_client_def intro!: extends_intros)

lemma extending_add_client [extends_intros]: "extending (ahe_broker_add_client clients capacity f)"
  by (auto simp: ahe_broker_add_client_def Let_def intro!: extends_intros)

end
