(* ===== verification/Broker_Loop.thy ===== *)
theory Broker_Loop imports Broker_Clients begin

unbundle bit_operations_syntax

text \<open>
  The event loop of \<open>main\<close> in \<^verbatim>\<open>src/ahe_broker.c\<close>: one definition per stretch of
  its body, composed in the body's order by \<open>ahe_broker_iteration\<close>, and the loop itself.
  A stretch ends in \<open>Continue\<close> or, where the body breaks out of the loop, \<open>Break\<close>.

  Every iteration polls, and a poll uses up one of the kernel's answers, so the loop's
  recursion is on the number of answers left.
\<close>

section \<open>State\<close>

record ahe_broker =
  b_listener_fd :: fd
  b_clients :: "ahe_broker_client_connection list"
  b_client_capacity :: usize
  b_poll_capacity :: usize
  b_generation :: ahe_generation
  b_max_clients :: u64
  b_handled_clients :: u64
  b_exit_status :: int

text \<open>The variables of \<open>main\<close> when the loop is entered.\<close>

definition broker_initial :: "fd \<Rightarrow> u64 \<Rightarrow> ahe_broker" where
  "broker_initial listener_fd max_clients = \<lparr>b_listener_fd = listener_fd, b_clients = [],
     b_client_capacity = 0, b_poll_capacity = 0, b_generation = ahe_generation_init,
     b_max_clients = max_clients, b_handled_clients = 0, b_exit_status = 0\<rparr>"

datatype loop_flow = Continue ahe_broker | Break ahe_broker

abbreviation EXIT_SUCCESS :: int where "EXIT_SUCCESS \<equiv> 0"

abbreviation EXIT_FAILURE :: int where "EXIT_FAILURE \<equiv> 1"

abbreviation POLLIN :: u16 where "POLLIN \<equiv> 1"

text \<open>\<open>POLLERR | POLLHUP | POLLNVAL\<close>.\<close>

abbreviation POLL_FAILURE :: u16 where "POLL_FAILURE \<equiv> 8 OR 16 OR 32"

definition limit_reached :: "ahe_broker \<Rightarrow> bool" where
  "limit_reached b \<longleftrightarrow> b_max_clients b \<noteq> 0 \<and> b_handled_clients b \<ge> b_max_clients b"

definition failing :: "string \<Rightarrow> ahe_broker \<Rightarrow> (world, loop_flow) state" where
  "failing message b = do {
     _ \<leftarrow> note_call (Message message);
     ret (Break (b\<lparr>b_exit_status := EXIT_FAILURE\<rparr>))
   }"

definition close_at :: "nat \<Rightarrow> ahe_broker \<Rightarrow> (world, ahe_broker) state" where
  "close_at index b = do {
     (clients, generation) \<leftarrow> ahe_broker_close_client (b_clients b) index (b_generation b);
     ret (b\<lparr>b_clients := clients, b_generation := generation\<rparr>)
   }"

section \<open>The body\<close>

text \<open>Once the limit is reached: stop listening and drop connections never heard from.\<close>

primrec close_unhandled :: "nat \<Rightarrow> ahe_broker \<Rightarrow> (world, ahe_broker) state" where
  "close_unhandled 0 b = ret b"
| "close_unhandled (Suc index) b = do {
     b \<leftarrow> (if \<not> c_handled_message (b_clients b ! index) then close_at index b else ret b);
     close_unhandled index b
   }"

definition close_listener :: "ahe_broker \<Rightarrow> (world, ahe_broker) state" where
  "close_listener b =
     (if b_listener_fd b \<ge> 0
      then do {_ \<leftarrow> close_fd (b_listener_fd b); ret (b\<lparr>b_listener_fd := -1\<rparr>)}
      else ret b)"

definition enforce_limit :: "ahe_broker \<Rightarrow> (world, loop_flow) state" where
  "enforce_limit b =
     (if limit_reached b
      then do {
        b \<leftarrow> close_listener b;
        b \<leftarrow> close_unhandled (length (b_clients b)) b;
        ret (if b_clients b = [] then Break b else Continue b)
      }
      else ret (Continue b))"

text \<open>\<open>sizeof(struct pollfd)\<close>.\<close>

abbreviation POLLFD_SIZE :: usize where "POLLFD_SIZE \<equiv> 8"

definition grow_poll_array :: "ahe_broker \<Rightarrow> (world, loop_flow) state" where
  "grow_poll_array b =
     (let client_count = of_nat (length (b_clients b)); poll_fd_count = client_count + 1 in
      if client_count = SIZE_MAX
      then do {set_errno ENOMEM; failing ''ahe-broker: poll allocation'' b}
      else if poll_fd_count > b_poll_capacity b
      then
        if poll_fd_count > SIZE_MAX div POLLFD_SIZE
        then do {set_errno ENOMEM; failing ''ahe-broker: poll allocation'' b}
        else do {
          r \<leftarrow> sys (Realloc (unat (poll_fd_count * POLLFD_SIZE)));
          if r_addr r = 0 then failing ''ahe-broker: poll allocation'' b
          else ret (Continue (b\<lparr>b_poll_capacity := poll_fd_count\<rparr>))
        }
      else ret (Continue b))"

text \<open>
  The descriptors polled: the listener, then every connection. The kernel fills in
  \<open>revents\<close>; entries it does not write keep the 0 they were prepared with.
\<close>

definition poll_fds :: "ahe_broker \<Rightarrow> fd list" where
  "poll_fds b = b_listener_fd b # map c_fd (b_clients b)"

definition revents_at :: "u16 list \<Rightarrow> nat \<Rightarrow> u16" where
  "revents_at revents i = (if i < length revents then revents ! i else 0)"

definition handle_readable :: "nat \<Rightarrow> ahe_broker \<Rightarrow> (world, bool \<times> ahe_broker) state" where
  "handle_readable index b = do {
     let handled_before = c_handled_message (b_clients b ! index);
     (keep_open, client, generation) \<leftarrow>
       ahe_broker_handle_client_message (b_clients b ! index) (b_generation b);
     let b = b\<lparr>b_clients := (b_clients b)[index := client], b_generation := generation\<rparr>;
     let b = (if \<not> handled_before \<and> c_handled_message client \<and> b_handled_clients b < ULONG_MAX
       then b\<lparr>b_handled_clients := b_handled_clients b + 1\<rparr> else b);
     ret (keep_open, b)
   }"

definition serve_client :: "nat \<Rightarrow> u16 \<Rightarrow> ahe_broker \<Rightarrow> (world, ahe_broker) state" where
  "serve_client index events b =
     (if events = 0 then ret b
      else do {
        (keep_open, b) \<leftarrow>
          (if limit_reached b \<and> \<not> c_handled_message (b_clients b ! index) then ret (False, b)
           else if events AND POLLIN \<noteq> 0 then handle_readable index b
           else ret (True, b));
        if \<not> keep_open \<or> events AND POLL_FAILURE \<noteq> 0 then close_at index b else ret b
      })"

primrec serve_clients :: "nat \<Rightarrow> u16 list \<Rightarrow> ahe_broker \<Rightarrow> (world, ahe_broker) state" where
  "serve_clients 0 revents b = ret b"
| "serve_clients (Suc index) revents b = do {
     b \<leftarrow> serve_client index (revents_at revents (index + 1)) b;
     serve_clients index revents b
   }"

text \<open>\<open>sizeof(struct ucred)\<close>; a peer is trusted when it is a live process of the same user.\<close>

abbreviation UCRED_SIZE :: nat where "UCRED_SIZE \<equiv> 12"

definition peer_rejected :: "u32 \<Rightarrow> reply \<Rightarrow> bool" where
  "peer_rejected uid r \<longleftrightarrow> r_ret r < 0 \<or> r_optlen r \<noteq> UCRED_SIZE
     \<or> cr_pid (r_cred r) \<le> 0 \<or> cr_uid (r_cred r) \<noteq> uid"

definition accept_client :: "ahe_broker \<Rightarrow> (world, loop_flow) state" where
  "accept_client b = do {
     r \<leftarrow> sys (Accept4 (b_listener_fd b));
     e \<leftarrow> get_errno;
     let client_fd = r_ret r;
     if client_fd < 0
     then if e = EINTR \<or> e = EAGAIN then ret (Continue b) else failing ''ahe-broker: accept'' b
     else do {
       credentials \<leftarrow> sys (Getsockopt_peercred client_fd);
       uid \<leftarrow> geteuid;
       if peer_rejected uid credentials
       then do {_ \<leftarrow> close_fd client_fd; ret (Continue b)}
       else do {
         (added, clients, capacity) \<leftarrow>
           ahe_broker_add_client (b_clients b) (b_client_capacity b) client_fd;
         if added < 0
         then do {
           _ \<leftarrow> note_call (Message ''ahe-broker: client allocation'');
           _ \<leftarrow> close_fd client_fd;
           ret (Break (b\<lparr>b_exit_status := EXIT_FAILURE\<rparr>))
         }
         else ret (Continue (b\<lparr>b_clients := clients, b_client_capacity := capacity\<rparr>))
       }
     }
   }"

definition poll_and_serve :: "ahe_broker \<Rightarrow> (world, loop_flow) state" where
  "poll_and_serve b = do {
     polled \<leftarrow> sys (Poll (poll_fds b));
     e \<leftarrow> get_errno;
     if r_ret polled < 0
     then if e = EINTR then ret (Continue b) else failing ''ahe-broker: poll'' b
     else do {
       b \<leftarrow> serve_clients (length (b_clients b)) (r_revents polled) b;
       let listener_events = revents_at (r_revents polled) 0;
       if limit_reached b \<or> listener_events AND POLLIN = 0
       then if listener_events AND POLL_FAILURE \<noteq> 0
         then failing ''ahe-broker: listener poll failure'' b
         else ret (Continue b)
       else accept_client b
     }
   }"

definition ahe_broker_iteration :: "ahe_broker \<Rightarrow> (world, loop_flow) state" where
  "ahe_broker_iteration b = do {
     limited \<leftarrow> enforce_limit b;
     case limited of Break b \<Rightarrow> ret (Break b)
     | Continue b \<Rightarrow> do {
         grown \<leftarrow> grow_poll_array b;
         case grown of Break b \<Rightarrow> ret (Break b) | Continue b \<Rightarrow> poll_and_serve b
       }
   }"

section \<open>Invariants\<close>

text \<open>
  Every \<open>ATTACH\<close> answer in the history is the grant of the generation that is ready now:
  the same descriptors, base and offset for every participant.
\<close>

definition attach_uniform :: "ahe_generation \<Rightarrow> world \<Rightarrow> bool" where
  "attach_uniform g w \<longleftrightarrow> (\<forall>f bs fds. (f, bs, fds) \<in> sends (history w) \<longrightarrow>
     m_type (decode_message bs) = AHE_BROKER_ATTACH \<longrightarrow>
     g_state g = AHE_GENERATION_READY \<and> bs = encode_message (grant_message g) \<and>
     fds = [g_cache_fd g, g_lock_fd g])"

definition any_move :: "ahe_generation \<Rightarrow> ahe_generation \<Rightarrow> bool" where
  "any_move g g' \<longleftrightarrow> gen_wf g' \<and> (\<exists>f. gen_move f g g')"

text \<open>How generation and world evolve over any stretch of the broker's run.\<close>

definition evolves :: "ahe_generation \<Rightarrow> world \<Rightarrow> ahe_generation \<Rightarrow> world \<Rightarrow> bool" where
  "evolves g w g' w' \<longleftrightarrow> gen_wf g' \<and> reaches any_move g g' \<and>
     (attach_uniform g w \<longrightarrow> attach_uniform g' w') \<and>
     length (script w') \<le> length (script w) \<and> (stopping w \<longrightarrow> stopping w') \<and>
     euid w' = euid w \<and> environ w' = environ w"

lemma evolves_trans: "evolves g w g1 w1 \<Longrightarrow> evolves g1 w1 g' w' \<Longrightarrow> evolves g w g' w'"
  by (auto simp: evolves_def intro: reaches_trans)

lemma send_allowed_attach:
  assumes "send_allowed f g (f', bs, fds)" and "m_type (decode_message bs) = AHE_BROKER_ATTACH"
  shows "g_state g = AHE_GENERATION_READY \<and> bs = encode_message (grant_message g) \<and>
    fds = [g_cache_fd g, g_lock_fd g]"
  using assms
  by (auto simp: send_allowed_def decode_encode_message grant_message_def wf_message_def
    split: if_splits)

lemma handler_post_evolves:
  assumes "handler_post f g w g' w'"
  shows "evolves g w g' w'"
proof -
  have "attach_uniform g' w'" if u: "attach_uniform g w"
    unfolding attach_uniform_def
  proof (intro allI impI)
    fix f' bs fds
    assume s: "(f', bs, fds) \<in> sends (history w')"
      and t: "m_type (decode_message bs) = AHE_BROKER_ATTACH"
    consider "(f', bs, fds) \<in> sends (history w)" | "send_allowed f g' (f', bs, fds)"
      using assms s by (auto simp: handler_post_def)
    then show "g_state g' = AHE_GENERATION_READY \<and> bs = encode_message (grant_message g') \<and>
      fds = [g_cache_fd g', g_lock_fd g']"
    proof cases
      case 1
      with u t have r: "g_state g = AHE_GENERATION_READY \<and> bs = encode_message (grant_message g) \<and>
        fds = [g_cache_fd g, g_lock_fd g]" by (auto simp: attach_uniform_def)
      with assms have "g' = g" by (auto simp: handler_post_def dest: gen_move_ready)
      with r show ?thesis by simp
    next
      case 2
      have "f' = f" using 2 by (auto simp: send_allowed_def)
      with 2 t show ?thesis by (blast dest: send_allowed_attach)
    qed
  qed
  then show ?thesis using assms
    by (auto simp: evolves_def handler_post_def any_move_def intro!: reaches_one)
qed

lemma quiet_evolves:
  assumes "gen_wf g'" and "gen_move f g g'" and "quiet w w'"
  shows "evolves g w g' w'"
proof -
  have "attach_uniform g' w'" if "attach_uniform g w"
    unfolding attach_uniform_def
  proof (intro allI impI)
    fix f' bs fds
    assume "(f', bs, fds) \<in> sends (history w')" "m_type (decode_message bs) = AHE_BROKER_ATTACH"
    with that assms(3) have r: "g_state g = AHE_GENERATION_READY \<and>
        bs = encode_message (grant_message g) \<and> fds = [g_cache_fd g, g_lock_fd g]"
      by (auto simp: attach_uniform_def quiet_def)
    with assms(2) have "g' = g" by (blast dest: gen_move_ready)
    with r show "g_state g' = AHE_GENERATION_READY \<and> bs = encode_message (grant_message g') \<and>
      fds = [g_cache_fd g', g_lock_fd g']" by simp
  qed
  then show ?thesis using assms
    by (auto simp: evolves_def quiet_def any_move_def intro!: reaches_one)
qed

text \<open>The descriptors a process has received from or sent to.\<close>

definition talks :: "event list \<Rightarrow> fd set" where
  "talks h = recvs h \<union> fst ` sends h"

lemma quiet_talks: "quiet w w' \<Longrightarrow> talks (history w') = talks (history w)"
  by (simp add: quiet_def talks_def)

lemma handler_post_talks: "handler_post f g w g' w' \<Longrightarrow> talks (history w') \<subseteq> insert f (talks (history w))"
  by (fastforce simp: handler_post_def talks_def send_allowed_def)

lemma evolves_refl: "gen_wf g \<Longrightarrow> evolves g w g w"
  by (rule quiet_evolves [where f = 0]) simp_all

text \<open>The broker's own invariant and the descriptors it owns.\<close>

definition broker_ok :: "ahe_broker \<Rightarrow> bool" where
  "broker_ok b \<longleftrightarrow> gen_wf (b_generation b) \<and>
     creator_connected (b_generation b) (b_clients b) \<and>
     table_fits (b_clients b) (b_client_capacity b) \<and>
     (b_max_clients b \<noteq> 0 \<longrightarrow> b_handled_clients b \<le> b_max_clients b)"

definition owned_fds :: "ahe_broker \<Rightarrow> fd multiset" where
  "owned_fds b = client_fds (b_clients b) + (gen_fds (b_generation b) + fd_mset (b_listener_fd b))"

lemma broker_ok_initial [simp]: "broker_ok (broker_initial listener_fd max_clients)"
  by (simp add: broker_ok_def broker_initial_def table_fits_def)

lemma owned_fds_initial [simp]: "owned_fds (broker_initial listener_fd max_clients) = fd_mset listener_fd"
  by (simp add: owned_fds_def broker_initial_def)

definition loop_post :: "ahe_broker \<Rightarrow> world \<Rightarrow> ahe_broker \<Rightarrow> world \<Rightarrow> bool" where
  "loop_post b w b' w' \<longleftrightarrow> broker_ok b' \<and> evolves (b_generation b) w (b_generation b') w' \<and>
     (\<forall>F. holds (owned_fds b + F) w \<longrightarrow> holds (owned_fds b' + F) w') \<and>
     b_max_clients b' = b_max_clients b \<and> b_handled_clients b \<le> b_handled_clients b'"

lemma loop_post_trans: "loop_post b w b1 w1 \<Longrightarrow> loop_post b1 w1 b' w' \<Longrightarrow> loop_post b w b' w'"
  by (auto simp: loop_post_def intro: evolves_trans)

lemma loop_post_refl: "broker_ok b \<Longrightarrow> loop_post b w b w"
  by (simp add: loop_post_def broker_ok_def evolves_refl)

lemma loop_post_ok: "loop_post b w b' w' \<Longrightarrow> broker_ok b'"
  by (simp add: loop_post_def)

text \<open>A stretch that leaves the broker's tables alone and neither sends nor receives.\<close>

lemma loop_post_quiet:
  assumes "broker_ok b" and "quiet w w'" and "\<And>F. holds F w \<Longrightarrow> holds F w'"
    and "b_clients b' = b_clients b" "b_generation b' = b_generation b"
    "b_listener_fd b' = b_listener_fd b" "b_client_capacity b' = b_client_capacity b"
    "b_max_clients b' = b_max_clients b" "b_handled_clients b' = b_handled_clients b"
  shows "loop_post b w b' w'"
  using assms
  by (auto simp: loop_post_def broker_ok_def owned_fds_def
    intro: quiet_evolves [where f = 0 and g = "b_generation b"])

section \<open>The body keeps the invariants\<close>

lemma wp_close_at:
  assumes ok: "broker_ok b" and i: "i < length (b_clients b)"
  shows "wp (close_at i b) (\<lambda>b' w'. loop_post b w b' w' \<and> quiet w w' \<and>
    b_clients b' = swap_remove (b_clients b) i \<and> b_listener_fd b' = b_listener_fd b) w"
proof -
  have *: "loop_post b w (b\<lparr>b_clients := swap_remove (b_clients b) i, b_generation := g'\<rparr>) w'"
    if "gen_wf g'" "gen_move f (b_generation b) g'" "quiet w w'"
      "creator_connected g' (swap_remove (b_clients b) i)"
      and h: "\<And>F. holds (client_fds (b_clients b) + (gen_fds (b_generation b) + F)) w \<Longrightarrow>
        holds (client_fds (swap_remove (b_clients b) i) + (gen_fds g' + F)) w'" for f g' w'
    using that ok h [of "fd_mset (b_listener_fd b) + F" for F]
    by (auto simp: loop_post_def broker_ok_def owned_fds_def table_fits_def ac_simps
      intro: quiet_evolves)
  show ?thesis
    unfolding close_at_def wp_bind
    by (rule wp_close_client [OF i])
      (use ok in \<open>auto simp: broker_ok_def wp_rules intro: *\<close>)
qed

lemma handled_step:
  fixes h m :: u64
  assumes "m \<noteq> 0 \<longrightarrow> h < m" and "h < ULONG_MAX"
  shows "h \<le> h + 1" and "m \<noteq> 0 \<longrightarrow> h + 1 \<le> m"
proof -
  have "unat h < 2 ^ 64 - 1" using assms(2) by (simp add: word_less_nat_alt)
  then have u: "unat (h + 1) = unat h + 1" by (simp add: unat_word_ariths)
  then show "h \<le> h + 1" by (simp add: word_le_nat_alt)
  show "m \<noteq> 0 \<longrightarrow> h + 1 \<le> m" using assms(1) u by (auto simp: word_le_nat_alt word_less_nat_alt)
qed

text \<open>
  \<open>sweep_frame n\<close>: what serving slot \<open>n\<close> and above leaves to the slots below, which are
  served next. Whatever is closed, they still hold the connections that were polled there.
\<close>

definition sweep_frame :: "nat \<Rightarrow> ahe_broker \<Rightarrow> ahe_broker \<Rightarrow> bool" where
  "sweep_frame n b b' \<longleftrightarrow> n \<le> length (b_clients b') \<and> b_listener_fd b' = b_listener_fd b \<and>
     (\<forall>j < n. b_clients b' ! j = b_clients b ! j)"

lemma wp_handle_readable:
  assumes ok: "broker_ok b" and i: "i < length (b_clients b)"
    and limit: "limit_reached b \<Longrightarrow> c_handled_message (b_clients b ! i)"
  shows "wp (handle_readable i b) (\<lambda>(keep, b') w'. loop_post b w b' w' \<and>
    sweep_frame i b b' \<and> length (b_clients b') = length (b_clients b) \<and>
    talks (history w') \<subseteq> insert (c_fd (b_clients b ! i)) (talks (history w))) w"
proof -
  let ?c = "b_clients b ! i" and ?g = "b_generation b"
  have step: "loop_post b w (b\<lparr>b_clients := (b_clients b)[i := c'], b_generation := g',
      b_handled_clients := h'\<rparr>) w'"
    if p: "handler_post (c_fd ?c) ?g w g' w'" and c: "c_fd c' = c_fd ?c"
      and h: "b_handled_clients b \<le> h'" "b_max_clients b \<noteq> 0 \<longrightarrow> h' \<le> b_max_clients b"
    for c' g' h' w'
  proof -
    have fds: "c_fd ` set ((b_clients b)[i := c']) = c_fd ` set (b_clients b)"
      using client_fds_update [OF i c] by (simp add: client_fds_def flip: set_image_mset)
        (metis image_set mset_map set_mset_mset)
    have "c_fd ?c \<in> c_fd ` set (b_clients b)" using i by simp
    then have "creator_connected g' (b_clients b)"
      using ok p gen_move_creator_connected by (auto simp: broker_ok_def handler_post_def)
    then have cc: "creator_connected g' ((b_clients b)[i := c'])"
      by (simp add: creator_connected_def fds)
    have "holds (client_fds (b_clients b) + (gen_fds g' + (fd_mset (b_listener_fd b) + F))) w'"
      if "holds (client_fds (b_clients b) + (gen_fds ?g + (fd_mset (b_listener_fd b) + F))) w" for F
    proof -
      from that have "holds (gen_fds ?g + (client_fds (b_clients b) + (fd_mset (b_listener_fd b) + F))) w"
        by (simp add: ac_simps)
      with p have "holds (gen_fds g' + (client_fds (b_clients b) + (fd_mset (b_listener_fd b) + F))) w'"
        by (simp add: handler_post_def)
      then show ?thesis by (simp add: ac_simps)
    qed
    then show ?thesis
      using ok p cc h client_fds_update [OF i c] handler_post_evolves [OF p]
      by (simp add: loop_post_def broker_ok_def owned_fds_def table_fits_def handler_post_def add.assoc)
  qed
  have step': "loop_post b w (b\<lparr>b_clients := (b_clients b)[i := c'], b_generation := g'\<rparr>) w'"
    if "handler_post (c_fd ?c) ?g w g' w'" and "c_fd c' = c_fd ?c" for c' g' w'
    using step [OF that, of "b_handled_clients b"] ok by (simp add: broker_ok_def)
  have bound: "b_max_clients b \<noteq> 0 \<longrightarrow> b_handled_clients b < b_max_clients b"
    if "\<not> c_handled_message ?c"
  proof -
    have "\<not> limit_reached b" using limit that by blast
    then show ?thesis by (auto simp: limit_reached_def not_le)
  qed
  have counted: "loop_post b w (b\<lparr>b_clients := (b_clients b)[i := c'], b_generation := g',
      b_handled_clients := b_handled_clients b + 1\<rparr>) w'"
    if "handler_post (c_fd ?c) ?g w g' w'" "c_fd c' = c_fd ?c"
      "\<not> c_handled_message ?c" "b_handled_clients b < ULONG_MAX" for c' g' w'
    using that handled_step [OF bound [OF that(3)] that(4)] by (intro step) simp_all
  have r: "talks (history w') \<subseteq> insert (c_fd ?c) (talks (history w))"
    if "handler_post (c_fd ?c) ?g w g' w'" for g' w'
    using that by (rule handler_post_talks)
  have wf: "gen_wf ?g" using ok by (simp add: broker_ok_def)
  show ?thesis
    unfolding handle_readable_def Let_def wp_bind
  proof (rule wp_handle_client_message [OF wf], goal_cases)
    case (1 keep c' g' w')
    then show ?case
      using i r [OF 1(1)] step' [OF 1(1,2)] counted [OF 1(1,2)]
      by (auto simp: wp_rules sweep_frame_def)
  qed
qed

lemma sweep_frame_refl: "n \<le> length (b_clients b) \<Longrightarrow> sweep_frame n b b"
  by (simp add: sweep_frame_def)

lemma sweep_frame_close:
  assumes "sweep_frame i b b1" and "i < length (b_clients b1)"
    and "b_clients b' = swap_remove (b_clients b1) i" and "b_listener_fd b' = b_listener_fd b1"
  shows "sweep_frame i b b'"
  using assms by (auto simp: sweep_frame_def nth_swap_remove)

lemma wp_serve_client:
  assumes ok: "broker_ok b" and i: "i < length (b_clients b)"
  shows "wp (serve_client i events b) (\<lambda>b' w'. loop_post b w b' w' \<and> sweep_frame i b b' \<and>
    talks (history w') \<subseteq> talks (history w) \<union>
      (if events AND POLLIN \<noteq> 0 then {c_fd (b_clients b ! i)} else {})) w"
proof (cases "events = 0")
  case True
  with ok i show ?thesis
    by (simp add: serve_client_def wp_rules loop_post_refl sweep_frame_refl)
next
  case False
  let ?R = "talks (history w) \<union> (if events AND POLLIN \<noteq> 0 then {c_fd (b_clients b ! i)} else {})"
  let ?P = "\<lambda>b1 w1. loop_post b w b1 w1 \<and> sweep_frame i b b1 \<and> talks (history w1) \<subseteq> ?R"
  have finish: "wp (if \<not> keep \<or> events AND POLL_FAILURE \<noteq> 0 then close_at i b1 else ret b1) ?P w1"
    if p: "?P b1 w1" and l: "i < length (b_clients b1)" for keep b1 w1
  proof -
    have "wp (close_at i b1) ?P w1"
      by (rule wp_mono [OF wp_close_at [OF loop_post_ok l]])
        (use p l in \<open>auto simp: quiet_talks intro: loop_post_trans sweep_frame_close\<close>)
    with p show ?thesis by (simp add: wp_rules)
  qed
  have read: "wp (handle_readable i b)
      (\<lambda>(keep, b1) w1. ?P b1 w1 \<and> i < length (b_clients b1)) w"
    if "events AND POLLIN \<noteq> 0" "\<not> (limit_reached b \<and> \<not> c_handled_message (b_clients b ! i))"
    by (rule wp_mono [OF wp_handle_readable [OF ok i]])
      (use that i in \<open>auto split: prod.splits\<close>)
  have "wp (if limit_reached b \<and> \<not> c_handled_message (b_clients b ! i) then ret (False, b)
      else if events AND POLLIN \<noteq> 0 then handle_readable i b else ret (True, b))
      (\<lambda>(keep, b1) w1. ?P b1 w1 \<and> i < length (b_clients b1)) w"
    using ok i read by (simp add: wp_rules loop_post_refl sweep_frame_refl)
  then have "wp (do {
        (keep_open, b) \<leftarrow>
          (if limit_reached b \<and> \<not> c_handled_message (b_clients b ! i) then ret (False, b)
           else if events AND POLLIN \<noteq> 0 then handle_readable i b
           else ret (True, b));
        if \<not> keep_open \<or> events AND POLL_FAILURE \<noteq> 0 then close_at i b else ret b
      }) ?P w"
  proof (rule wp_seq, goal_cases)
    case (1 r t)
    then show ?case by (cases r) (simp only: prod.case, rule finish; blast)
  qed
  with False show ?thesis by (simp add: serve_client_def)
qed

text \<open>
  The whole sweep, from the last slot to the first: the broker receives only from,
  and answers only, connections that the poll reported readable in their own slot.
\<close>

definition readable_fds :: "ahe_broker \<Rightarrow> u16 list \<Rightarrow> nat \<Rightarrow> fd set" where
  "readable_fds b revents n =
     {poll_fds b ! (i + 1) | i. i < n \<and> revents_at revents (i + 1) AND POLLIN \<noteq> 0}"

lemma readable_fds_Suc:
  assumes "n < length (b_clients b)"
  shows "readable_fds b revents (Suc n) = readable_fds b revents n \<union>
    (if revents_at revents (n + 1) AND POLLIN \<noteq> 0 then {c_fd (b_clients b ! n)} else {})"
proof -
  let ?P = "\<lambda>i. revents_at revents (i + 1) AND POLLIN \<noteq> 0"
  have "{i. i < Suc n \<and> ?P i} = {i. i < n \<and> ?P i} \<union> (if ?P n then {n} else {})"
    by (auto simp: less_Suc_eq)
  moreover have "poll_fds b ! (n + 1) = c_fd (b_clients b ! n)"
    using assms by (simp add: poll_fds_def)
  ultimately show ?thesis
    unfolding readable_fds_def setcompr_eq_image by (simp add: image_Un)
qed

lemma readable_fds_frame:
  assumes "sweep_frame n b b'" and "n \<le> length (b_clients b)"
  shows "readable_fds b' revents n = readable_fds b revents n"
proof -
  have "poll_fds b' ! (i + 1) = poll_fds b ! (i + 1)" if "i < n" for i
    using assms that by (auto simp: sweep_frame_def poll_fds_def)
  then show ?thesis by (force simp: readable_fds_def)
qed

lemma wp_serve_clients:
  "broker_ok b \<Longrightarrow> n \<le> length (b_clients b) \<Longrightarrow>
   wp (serve_clients n revents b) (\<lambda>b' w'. loop_post b w b' w' \<and>
     b_listener_fd b' = b_listener_fd b \<and>
     talks (history w') \<subseteq> talks (history w) \<union> readable_fds b revents n) w"
proof (induction n arbitrary: b w)
  case 0
  then show ?case by (simp add: wp_rules loop_post_refl)
next
  case (Suc n)
  then have n: "n < length (b_clients b)" by simp
  show ?case
    unfolding serve_clients.simps
  proof (rule wp_seq [OF wp_serve_client [OF Suc.prems(1) n]], elim conjE)
    fix b1 w1
    assume p: "loop_post b w b1 w1" and f: "sweep_frame n b b1"
      and r: "talks (history w1) \<subseteq> talks (history w) \<union>
        (if revents_at revents (n + 1) AND POLLIN \<noteq> 0 then {c_fd (b_clients b ! n)} else {})"
    have l: "n \<le> length (b_clients b1)" using f by (simp add: sweep_frame_def)
    have e: "readable_fds b1 revents n = readable_fds b revents n"
      using n by (intro readable_fds_frame [OF f]) simp
    show "wp (serve_clients n revents b1) (\<lambda>b' w'. loop_post b w b' w' \<and>
        b_listener_fd b' = b_listener_fd b \<and>
        talks (history w') \<subseteq> talks (history w) \<union> readable_fds b revents (Suc n)) w1"
      by (rule wp_mono [OF Suc.IH [OF loop_post_ok [OF p] l]])
        (use p f r in \<open>auto simp: readable_fds_Suc [OF n] e sweep_frame_def
          split: if_splits intro: loop_post_trans\<close>)
  qed
qed

lemma wp_failing:
  "broker_ok b \<Longrightarrow> wp (failing message b) (\<lambda>r w'. \<exists>b'. r = Break b' \<and> loop_post b w b' w') w"
  by (auto simp: failing_def wp_rules intro!: loop_post_quiet quiet_intros)

lemma wp_close_unhandled:
  "\<lbrakk>broker_ok b; n \<le> length (b_clients b);
    \<forall>i < length (b_clients b). n \<le> i \<longrightarrow> c_handled_message (b_clients b ! i)\<rbrakk> \<Longrightarrow>
   wp (close_unhandled n b) (\<lambda>b' w'. loop_post b w b' w' \<and> talks (history w') = talks (history w) \<and>
     b_listener_fd b' = b_listener_fd b \<and> (\<forall>c \<in> set (b_clients b'). c_handled_message c)) w"
proof (induction n arbitrary: b w)
  case 0
  then show ?case by (auto simp: wp_rules loop_post_refl in_set_conv_nth)
next
  case (Suc n)
  let ?c = "b_clients b ! n"
  let ?P = "\<lambda>b1 w1. loop_post b w b1 w1 \<and> talks (history w1) = talks (history w) \<and>
    b_listener_fd b1 = b_listener_fd b \<and> n \<le> length (b_clients b1) \<and>
    (\<forall>i < length (b_clients b1). n \<le> i \<longrightarrow> c_handled_message (b_clients b1 ! i))"
  from Suc.prems have n: "n < length (b_clients b)" by simp
  have "wp (if \<not> c_handled_message ?c then close_at n b else ret b) ?P w"
  proof (cases "c_handled_message ?c")
    case True
    have "c_handled_message (b_clients b ! i)" if "i < length (b_clients b)" "n \<le> i" for i
      using Suc.prems(3) that True by (cases "i = n") auto
    with True Suc.prems(1) n show ?thesis by (simp add: wp_rules loop_post_refl)
  next
    case False
    have "c_handled_message (swap_remove (b_clients b) n ! i)"
      if "i < length (b_clients b) - 1" "n \<le> i" for i
      using Suc.prems(3) that n by (auto simp: nth_swap_remove_eq)
    then have "wp (close_at n b) ?P w"
      by (intro wp_mono [OF wp_close_at [OF Suc.prems(1) n]]) (use n in \<open>auto simp: quiet_talks\<close>)
    with False show ?thesis by simp
  qed
  then show ?case
    unfolding close_unhandled.simps
  proof (rule wp_seq, elim conjE)
    fix b1 w1
    assume p: "loop_post b w b1 w1" and r: "talks (history w1) = talks (history w)"
      and fd: "b_listener_fd b1 = b_listener_fd b" and l: "n \<le> length (b_clients b1)"
      and a: "\<forall>i < length (b_clients b1). n \<le> i \<longrightarrow> c_handled_message (b_clients b1 ! i)"
    show "wp (close_unhandled n b1) (\<lambda>b' w'. loop_post b w b' w' \<and>
        talks (history w') = talks (history w) \<and> b_listener_fd b' = b_listener_fd b \<and>
        (\<forall>c \<in> set (b_clients b'). c_handled_message c)) w1"
      by (rule wp_mono [OF Suc.IH [OF loop_post_ok [OF p] l a]])
        (use p r fd in \<open>auto intro: loop_post_trans\<close>)
  qed
qed

text \<open>What a stretch of the body guarantees, whether the loop goes on or not.\<close>

fun flow_broker :: "loop_flow \<Rightarrow> ahe_broker" where
  "flow_broker (Continue b) = b"
| "flow_broker (Break b) = b"

lemma wp_close_listener:
  assumes "broker_ok b"
  shows "wp (close_listener b) (\<lambda>b' w'. loop_post b w b' w' \<and> b_clients b' = b_clients b \<and>
    b_listener_fd b' < 0) w"
proof (cases "b_listener_fd b \<ge> 0")
  case True
  have "holds (client_fds (b_clients b) + (gen_fds (b_generation b) + F))
      (noted (Close (b_listener_fd b)) w)" if "holds (owned_fds b + F) w" for F
    by (rule holds_noted_close [OF _ True]) (use that in \<open>simp add: owned_fds_def ac_simps\<close>)
  then have "loop_post b w (b\<lparr>b_listener_fd := -1\<rparr>) (noted (Close (b_listener_fd b)) w)"
    using assms
    by (auto simp: loop_post_def broker_ok_def owned_fds_def fd_mset_neg ac_simps
      intro!: quiet_evolves [where f = 0] quiet_intros)
  with True show ?thesis by (simp add: close_listener_def wp_rules)
next
  case False
  with assms show ?thesis by (simp add: close_listener_def wp_rules loop_post_refl)
qed

text \<open>
  When the limit is reached the loop goes on only with connections that were heard from,
  and ends at once when none is left.
\<close>

lemma wp_enforce_limit:
  assumes ok: "broker_ok b"
  shows "wp (enforce_limit b) (\<lambda>r w'. loop_post b w (flow_broker r) w' \<and>
    (limit_reached b \<longrightarrow> b_listener_fd (flow_broker r) < 0 \<and>
      (\<forall>c \<in> set (b_clients (flow_broker r)). c_handled_message c) \<and>
      (b_clients (flow_broker r) = [] \<longrightarrow> (\<exists>b'. r = Break b')))) w"
proof (cases "limit_reached b")
  case True
  let ?P = "\<lambda>r w'. loop_post b w (flow_broker r) w' \<and>
    (limit_reached b \<longrightarrow> b_listener_fd (flow_broker r) < 0 \<and>
      (\<forall>c \<in> set (b_clients (flow_broker r)). c_handled_message c) \<and>
      (b_clients (flow_broker r) = [] \<longrightarrow> (\<exists>b'. r = Break b')))"
  have "wp (do {
      b \<leftarrow> close_listener b;
      b \<leftarrow> close_unhandled (length (b_clients b)) b;
      ret (if b_clients b = [] then Break b else Continue b)
    }) ?P w"
  proof (rule wp_seq [OF wp_close_listener [OF ok]], elim conjE)
    fix b1 w1
    assume p: "loop_post b w b1 w1" and fd: "b_listener_fd b1 < 0"
    show "wp (do {
        b \<leftarrow> close_unhandled (length (b_clients b1)) b1;
        ret (if b_clients b = [] then Break b else Continue b)
      }) ?P w1"
      by (rule wp_seq [OF wp_close_unhandled [OF loop_post_ok [OF p]]])
        (use p fd in \<open>auto simp: wp_rules intro: loop_post_trans\<close>)
  qed
  with True show ?thesis by (simp add: enforce_limit_def)
next
  case False
  with ok show ?thesis by (simp add: enforce_limit_def wp_rules loop_post_refl)
qed

lemma wp_grow_poll_array:
  assumes "broker_ok b"
  shows "wp (grow_poll_array b) (\<lambda>r w'. loop_post b w (flow_broker r) w') w"
proof -
  have keep: "loop_post b w b' w'" if "quiet w w'" "\<And>F. holds F w \<Longrightarrow> holds F w'"
      "b' = b \<or> b' = b\<lparr>b_exit_status := EXIT_FAILURE\<rparr> \<or> (\<exists>n. b' = b\<lparr>b_poll_capacity := n\<rparr>)" for b' w'
    by (rule loop_post_quiet [OF assms that(1,2)]) (use that(3) in auto)
  show ?thesis
    unfolding grow_poll_array_def failing_def Let_def wp_rules
    by (auto intro!: keep quiet_intros holds_none_intros)
qed

text \<open>
  Accepting: a peer that is not a live process of the same user is dropped at once; a
  trusted one joins the table, unheard; either way no descriptor is lost.
\<close>

lemma wp_accept_client:
  assumes ok: "broker_ok b"
  shows "wp (accept_client b) (\<lambda>r w'. loop_post b w (flow_broker r) w') w"
proof -
  let ?R = "next_reply w"
  let ?w1 = "answered (Accept4 (b_listener_fd b)) ?R w"
  let ?w2 = "answered (Getsockopt_peercred (r_ret ?R)) (next_reply ?w1) ?w1"
  have same: "loop_post b w b' w'" if "quiet w w'" "\<And>F. holds F w \<Longrightarrow> holds F w'"
      "b' = b \<or> b' = b\<lparr>b_exit_status := EXIT_FAILURE\<rparr>" for b' w'
    by (rule loop_post_quiet [OF ok that(1,2)]) (use that(3) in auto)
  have fail: "holds F ?w1" if "r_ret ?R < 0" "holds F w" for F
    using holds_answered_failed [OF that(2,1)] by simp
  have new: "holds (fd_mset (r_ret ?R) + F) ?w2" if "holds F w" for F
    by (intro holds_answered_none holds_answered_one that) simp_all
  have drop: "holds F (noted (Close (r_ret ?R)) ?w2)" if "0 \<le> r_ret ?R" "holds F w" for F
    using holds_noted_close [OF new [OF that(2)] that(1)] .
  have fits: "table_fits (b_clients b) (b_client_capacity b)" using ok by (simp add: broker_ok_def)
  have add: "wp (ahe_broker_add_client (b_clients b) (b_client_capacity b) (r_ret ?R))
      (\<lambda>r. wp (case r of (added, clients, capacity) \<Rightarrow>
         if added < 0
         then do {
           _ \<leftarrow> note_call (Message ''ahe-broker: client allocation'');
           _ \<leftarrow> close_fd (r_ret ?R);
           ret (Break (b\<lparr>b_exit_status := EXIT_FAILURE\<rparr>))
         }
         else ret (Continue (b\<lparr>b_clients := clients, b_client_capacity := capacity\<rparr>)))
       (\<lambda>r w'. loop_post b w (flow_broker r) w')) ?w2"
    if nn: "0 \<le> r_ret ?R"
  proof (rule wp_add_client [OF fits], goal_cases fail added)
    case (fail w3)
    have "quiet w w3" by (rule quiet_trans [OF _ fail(1)]) (auto intro!: quiet_intros)
    moreover have "holds F (noted (Close (r_ret ?R))
        (noted (Message ''ahe-broker: client allocation'') w3))" if "holds F w" for F
      by (rule holds_noted_close [OF _ nn], rule holds_noted_none [OF fail(2) [OF new [OF that]]]) simp
    ultimately show ?case by (auto simp: wp_rules intro!: same quiet_intros)
  next
    case (added cap w3)
    let ?b = "b\<lparr>b_clients := b_clients b @ [\<lparr>c_fd = r_ret ?R, c_handled_message = False\<rparr>],
      b_client_capacity := cap\<rparr>"
    have q: "quiet w w3" by (rule quiet_trans [OF _ added(1)]) (auto intro!: quiet_intros)
    have h: "holds (owned_fds ?b + F) w3" if "holds (owned_fds b + F) w" for F
      using added(2) [OF new [OF that]] nn by (simp add: owned_fds_def fd_mset_nonneg ac_simps)
    have "loop_post b w ?b w3"
      using ok added(3) q h
      by (auto simp: loop_post_def broker_ok_def creator_connected_append
        intro!: quiet_evolves [where f = 0])
    then show ?case by (simp add: wp_rules)
  qed
  show ?thesis
    unfolding accept_client_def Let_def wp_bind
    using add by (auto simp: wp_rules failing_def not_less
      intro!: same quiet_intros holds_none_intros fail drop)
qed

lemma wp_poll_and_serve:
  assumes ok: "broker_ok b"
  shows "wp (poll_and_serve b) (\<lambda>r w'. loop_post b w (flow_broker r) w') w"
proof -
  let ?R = "next_reply w" and ?w1 = "answered (Poll (poll_fds b)) (next_reply w) w"
  let ?P = "\<lambda>r w'. loop_post b w (flow_broker r) w'"
  have p1: "loop_post b w b ?w1"
    by (rule loop_post_quiet [OF ok]) (auto intro!: quiet_intros holds_none_intros)
  have fail: "wp (failing message b1) ?P w1" if "loop_post b w b1 w1" for message b1 w1
    by (rule wp_mono [OF wp_failing [OF loop_post_ok [OF that]]])
      (use that in \<open>auto intro: loop_post_trans\<close>)
  have serve: "wp (do {
      b \<leftarrow> serve_clients (length (b_clients b)) (r_revents ?R) b;
      let listener_events = revents_at (r_revents ?R) 0;
      if limit_reached b \<or> listener_events AND POLLIN = 0
      then if listener_events AND POLL_FAILURE \<noteq> 0
        then failing ''ahe-broker: listener poll failure'' b
        else ret (Continue b)
      else accept_client b
    }) ?P ?w1"
  proof (rule wp_seq [OF wp_serve_clients [OF ok order_refl]], elim conjE)
    fix b1 w2
    assume p: "loop_post b ?w1 b1 w2"
    have p2: "loop_post b w b1 w2" using p1 p by (rule loop_post_trans)
    have a: "wp (accept_client b1) ?P w2"
      by (rule wp_mono [OF wp_accept_client [OF loop_post_ok [OF p2]]])
        (use p2 in \<open>auto intro: loop_post_trans\<close>)
    show "wp (let listener_events = revents_at (r_revents ?R) 0
        in if limit_reached b1 \<or> listener_events AND POLLIN = 0
           then if listener_events AND POLL_FAILURE \<noteq> 0
             then failing ''ahe-broker: listener poll failure'' b1
             else ret (Continue b1)
           else accept_client b1) ?P w2"
      using fail [OF p2] a p2 by (simp add: Let_def wp_rules)
  qed
  show ?thesis
    using serve fail [OF p1] p1
    by (simp add: poll_and_serve_def wp_sys wp_get_errno wp_return wp_bind Let_def)
qed

lemma wp_iteration:
  assumes ok: "broker_ok b"
  shows "wp (ahe_broker_iteration b) (\<lambda>r w'. loop_post b w (flow_broker r) w') w"
  unfolding ahe_broker_iteration_def
proof (rule wp_seq [OF wp_enforce_limit [OF ok]], elim conjE)
  fix r1 w1
  assume p1: "loop_post b w (flow_broker r1) w1"
  show "wp (case r1 of Continue b \<Rightarrow> do {
           grown \<leftarrow> grow_poll_array b;
           case grown of Continue b \<Rightarrow> poll_and_serve b | Break b \<Rightarrow> ret (Break b)
         } | Break b \<Rightarrow> ret (Break b)) (\<lambda>r w'. loop_post b w (flow_broker r) w') w1"
  proof (cases r1)
    case (Break b1)
    with p1 show ?thesis by (simp add: wp_rules)
  next
    case (Continue b1)
    have "wp (do {
           grown \<leftarrow> grow_poll_array b1;
           case grown of Continue b \<Rightarrow> poll_and_serve b | Break b \<Rightarrow> ret (Break b)
         }) (\<lambda>r w'. loop_post b1 w1 (flow_broker r) w') w1"
    proof (rule wp_seq)
      have ok1: "broker_ok b1" using loop_post_ok [OF p1] Continue by simp
      show "wp (grow_poll_array b1) (\<lambda>r w'. loop_post b1 w1 (flow_broker r) w') w1"
        by (rule wp_grow_poll_array [OF ok1])
      fix r2 w2
      assume p2: "loop_post b1 w1 (flow_broker r2) w2"
      show "wp (case r2 of Continue b \<Rightarrow> poll_and_serve b | Break b \<Rightarrow> ret (Break b))
          (\<lambda>r w'. loop_post b1 w1 (flow_broker r) w') w2"
      proof (cases r2)
        case (Continue b2)
        with p2 have p: "loop_post b1 w1 b2 w2" by simp
        show ?thesis unfolding Continue loop_flow.case
          by (rule wp_mono [OF wp_poll_and_serve [OF loop_post_ok [OF p]]])
            (rule loop_post_trans [OF p])
      next
        case (Break b2)
        with p2 show ?thesis by (simp add: wp_rules)
      qed
    qed
    moreover have "loop_post b w b1 w1" using p1 Continue by simp
    ultimately show ?thesis unfolding Continue loop_flow.case
      by (blast intro: wp_mono loop_post_trans)
  qed
qed

section \<open>The loop\<close>

lemma extending_case_flow [extends_intros]:
  "(\<And>b. extending (f b)) \<Longrightarrow> (\<And>b. extending (g b)) \<Longrightarrow>
   extending (case r of Continue b \<Rightarrow> f b | Break b \<Rightarrow> g b)"
  by (cases r) simp_all

lemma extending_failing [extends_intros]: "extending (failing message b)"
  by (auto simp: failing_def intro!: extends_intros)

lemma extending_close_at [extends_intros]: "extending (close_at i b)"
  by (auto simp: close_at_def intro!: extends_intros)

lemma extending_close_unhandled [extends_intros]: "extending (close_unhandled n b)"
  by (induction n arbitrary: b) (auto intro!: extends_intros)

lemma extending_enforce_limit [extends_intros]: "extending (enforce_limit b)"
  by (auto simp: enforce_limit_def close_listener_def intro!: extends_intros)

lemma extending_grow_poll_array [extends_intros]: "extending (grow_poll_array b)"
  by (auto simp: grow_poll_array_def Let_def intro!: extends_intros)

lemma extending_serve_client [extends_intros]: "extending (serve_client i events b)"
  by (auto simp: serve_client_def handle_readable_def Let_def intro!: extends_intros)

lemma extending_serve_clients [extends_intros]: "extending (serve_clients n revents b)"
  by (induction n arbitrary: b) (auto intro!: extends_intros)

lemma extending_accept_client [extends_intros]: "extending (accept_client b)"
  by (auto simp: accept_client_def Let_def intro!: extends_intros)

lemma extending_poll_and_serve [extends_intros]: "extending (poll_and_serve b)"
  by (auto simp: poll_and_serve_def Let_def intro!: extends_intros)

text \<open>An iteration that lets the loop go on has used up at least one answer.\<close>

lemma poll_and_serve_progress:
  assumes "run_state (poll_and_serve b) w = (Continue b', w')"
  shows "length (script w') < length (script w)"
proof (cases "script w")
  case Nil
  with assms show ?thesis
    by (simp add: poll_and_serve_def sys_def next_reply_def failed_def get_errno_def failing_def
      note_call_def answered_def)
next
  case (Cons r rs)
  let ?m = "do {
      b \<leftarrow> serve_clients (length (b_clients b)) (r_revents r) b;
      let listener_events = revents_at (r_revents r) 0;
      if limit_reached b \<or> listener_events AND POLLIN = 0
      then if listener_events AND POLL_FAILURE \<noteq> 0
        then failing ''ahe-broker: listener poll failure'' b
        else ret (Continue b)
      else accept_client b
    }"
  let ?w1 = "answered (Poll (poll_fds b)) r w"
  let ?n = "if r_ret r < 0
      then if w_errno ?w1 = EINTR then ret (Continue b) else failing ''ahe-broker: poll'' b
      else ?m"
  have "run_state (poll_and_serve b) w = run_state ?n ?w1"
    using Cons by (simp add: poll_and_serve_def sys_def next_reply_def get_errno_def)
  then have "run_state ?n ?w1 = (Continue b', w')" using assms by (rule trans [OF sym])
  moreover have "extending ?n" unfolding Let_def by (intro extends_intros)
  ultimately have "extends ?w1 w'" by (rule extendingD [rotated])
  with Cons show ?thesis by (simp add: extends_def answered_def)
qed

lemma iteration_progress:
  assumes "run_state (ahe_broker_iteration b) w = (Continue b', w')"
  shows "length (script w') < length (script w)"
proof -
  obtain r1 w1 where 1: "run_state (enforce_limit b) w = (r1, w1)" by fastforce
  then obtain b1 where r1: "r1 = Continue b1"
    using assms by (cases r1) (simp_all add: ahe_broker_iteration_def)
  obtain r2 w2 where 2: "run_state (grow_poll_array b1) w1 = (r2, w2)" by fastforce
  then obtain b2 where r2: "r2 = Continue b2"
    using assms 1 r1 by (cases r2) (simp_all add: ahe_broker_iteration_def)
  have "run_state (poll_and_serve b2) w2 = (Continue b', w')"
    using assms 1 2 r1 r2 by (simp add: ahe_broker_iteration_def)
  then have "length (script w') < length (script w2)" by (rule poll_and_serve_progress)
  moreover have "extends w w2"
    using 1 2 by (blast intro: extends_trans extendingD extends_intros)
  ultimately show ?thesis by (simp add: extends_def)
qed

text \<open>\<open>while (!stopping)\<close>.\<close>

function broker_loop :: "ahe_broker \<Rightarrow> world \<Rightarrow> ahe_broker \<times> world" where
  "broker_loop b w =
     (if stopping w then (b, w)
      else case run_state (ahe_broker_iteration b) w of
        (Continue b, w) \<Rightarrow> broker_loop b w
      | (Break b, w) \<Rightarrow> (b, w))"
  by pat_completeness auto
termination
proof (relation "measure (\<lambda>(b, w). length (script w))", goal_cases)
  case (2 b w r w' b')
  then show ?case by (simp add: iteration_progress [OF sym])
qed simp

declare broker_loop.simps [simp del]

lemma broker_loop_post:
  "broker_ok b \<Longrightarrow> broker_loop b w = (b', w') \<Longrightarrow> loop_post b w b' w'"
proof (induction b w arbitrary: b' w' rule: broker_loop.induct)
  case (1 b w)
  show ?case
  proof (cases "stopping w")
    case True
    with 1 show ?thesis by (simp add: broker_loop.simps loop_post_refl)
  next
    case False
    obtain r w1 where r: "run_state (ahe_broker_iteration b) w = (r, w1)" by fastforce
    have p: "loop_post b w (flow_broker r) w1"
      using wp_runD [OF wp_iteration [OF 1(2)] r] .
    show ?thesis
    proof (cases r)
      case (Continue b1)
      with r False 1(3) have "broker_loop b1 w1 = (b', w')" by (simp add: broker_loop.simps)
      with 1(1) [OF False r [symmetric] Continue] p Continue show ?thesis
        by (auto intro: loop_post_trans loop_post_ok)
    next
      case (Break b1)
      with r False 1(3) p show ?thesis by (simp add: broker_loop.simps)
    qed
  qed
qed

end
