(* ===== verification/Generation_Spec.thy ===== *)
theory Generation_Spec imports Broker_Loop begin

text \<open>
  What the broker promises its clients, without descriptors tables, buffers or system
  calls: there is no generation, or one that a client is building, or a published one. The
  step relations \<open>protocol_step\<close> and \<open>served\<close> are that contract; the theorems show that
  the handlers of \<^verbatim>\<open>src/ahe_broker.c\<close> answer as \<open>served\<close> says, and that every
  iteration of the broker's loop is a sequence of \<open>protocol_step\<close>s.
\<close>

section \<open>The abstract machine\<close>

datatype phase =
    No_generation
  | Building fd "fd \<times> fd" string u64
  | Published "fd \<times> fd" string u64 u64 u64

definition key_ok :: "string \<Rightarrow> bool" where
  "key_ok key \<longleftrightarrow> key \<noteq> [] \<and> NUL \<notin> set key"

definition size_ok :: "u64 \<Rightarrow> bool" where
  "size_ok sz \<longleftrightarrow> sz \<noteq> 0 \<and> sz \<le> INT64_MAX"

text \<open>A step labelled with the client that causes it.\<close>

inductive protocol_step :: "fd \<Rightarrow> phase \<Rightarrow> phase \<Rightarrow> bool" where
  begin_building: "key_ok key \<Longrightarrow> size_ok sz \<Longrightarrow>
    protocol_step f No_generation (Building f segments key sz)"
| discard: "protocol_step f (Building f segments key sz) No_generation"
| publish: "base \<noteq> 0 \<Longrightarrow> offset < sz \<Longrightarrow>
    protocol_step f (Building f segments key sz) (Published segments key sz base offset)"

inductive_cases published_stepE: "protocol_step f (Published segments key sz base offset) p"
inductive_cases building_stepE: "protocol_step f (Building c segments key sz) p"
inductive_simps protocol_step_simps: "protocol_step f p (Published segments key sz base offset)"

definition any_step :: "phase \<Rightarrow> phase \<Rightarrow> bool" where
  "any_step p q \<longleftrightarrow> (\<exists>f. protocol_step f p q)"

lemma published_final: "reaches any_step p q \<Longrightarrow> p = Published segments key sz base offset \<Longrightarrow> q = p"
  by (induction rule: reaches.induct) (auto simp: any_step_def elim: published_stepE)

text \<open>The phase a generation of the broker is in.\<close>

definition phase_of :: "ahe_generation \<Rightarrow> phase" where
  "phase_of g = (case g_state g of
     AHE_GENERATION_EMPTY \<Rightarrow> No_generation
   | AHE_GENERATION_INITIALIZING \<Rightarrow> Building (g_creator_fd g) (g_cache_fd g, g_lock_fd g)
       (cstr (g_cache_key g)) (g_mapping_size g)
   | AHE_GENERATION_READY \<Rightarrow> Published (g_cache_fd g, g_lock_fd g) (cstr (g_cache_key g))
       (g_mapping_size g) (g_mapping_base g) (g_shared_globals_offset g))"

lemma phase_of_init [simp]: "phase_of ahe_generation_init = No_generation"
  by (simp add: phase_of_def)

lemma gen_wf_key_ok:
  assumes "gen_wf g" and "g_state g \<noteq> AHE_GENERATION_EMPTY"
  shows "key_ok (cstr (g_cache_key g))" and "size_ok (g_mapping_size g)"
proof -
  have "has_nul (g_cache_key g)" and "hd (g_cache_key g) \<noteq> NUL"
    using assms by (auto simp: gen_wf_def split: ahe_generation_state.splits)
  then show "key_ok (cstr (g_cache_key g))"
    by (simp add: key_ok_def cstr_empty_iff cstr_no_nul)
  show "size_ok (g_mapping_size g)"
    using assms by (auto simp: gen_wf_def size_ok_def split: ahe_generation_state.splits)
qed

text \<open>Every move the handlers can make is a step of the abstract machine, or none.\<close>

lemma gen_move_step:
  assumes "gen_wf g" and "gen_wf g'" and "gen_move f g g'"
  shows "phase_of g' = phase_of g \<or> protocol_step f (phase_of g) (phase_of g')"
proof -
  consider (same) "g' = g"
    | (build) "g_state g = AHE_GENERATION_EMPTY" "g_state g' = AHE_GENERATION_INITIALIZING"
        "g_creator_fd g' = f"
    | (drop) "g_state g = AHE_GENERATION_INITIALIZING" "g_creator_fd g = f"
        "g' = ahe_generation_init"
    | (ready) request where "g_state g = AHE_GENERATION_INITIALIZING" "g_creator_fd g = f"
        "\<not> ready_request_invalid f g request" "g' = published_by g request"
    using assms(3) by (auto simp: gen_move_def)
  then show ?thesis
  proof cases
    case build
    then show ?thesis using gen_wf_key_ok [OF assms(2)]
      by (simp add: phase_of_def protocol_step.intros)
  next
    case ready
    then show ?thesis
      by (auto simp: phase_of_def published_by_def ready_request_invalid_def not_le
        intro: protocol_step.intros)
  qed (simp_all add: phase_of_def protocol_step.intros)
qed

section \<open>Serving one request\<close>

datatype answer =
    Granted_create u64 "fd \<times> fd"
  | Granted_attach u64 u64 u64 "fd \<times> fd"
  | Declined
  | Acknowledged
  | Refused

fun answer_message :: "answer \<Rightarrow> ahe_broker_message" where
  "answer_message (Granted_create sz segments) =
     (ahe_broker_message_init AHE_BROKER_CREATE)\<lparr>m_mapping_size := sz\<rparr>"
| "answer_message (Granted_attach sz base offset segments) =
     (ahe_broker_message_init AHE_BROKER_ATTACH)
       \<lparr>m_mapping_size := sz, m_mapping_base := base, m_shared_globals_offset := offset\<rparr>"
| "answer_message Declined = ahe_broker_message_init AHE_BROKER_DECLINE"
| "answer_message Acknowledged = ahe_broker_message_init AHE_BROKER_ACK"
| "answer_message Refused = ahe_broker_message_init AHE_BROKER_ERROR"

fun answer_fds :: "answer \<Rightarrow> fd list" where
  "answer_fds (Granted_create sz (c, l)) = [c, l]"
| "answer_fds (Granted_attach sz base offset (c, l)) = [c, l]"
| "answer_fds a = []"

definition same_request :: "ahe_broker_message \<Rightarrow> string \<Rightarrow> u64 \<Rightarrow> bool" where
  "same_request m key sz \<longleftrightarrow>
     m_mapping_size m = sz \<and> has_nul (m_cache_key m) \<and> cstr (m_cache_key m) = key"

text \<open>
  \<open>served f m p a q d\<close>: client \<open>f\<close>'s request \<open>m\<close> in phase \<open>p\<close> is answered by \<open>a\<close> and leaves
  phase \<open>q\<close>; \<open>d\<close> says whether the answer was delivered: publishing takes effect only then.
\<close>

inductive served ::
  "fd \<Rightarrow> ahe_broker_message \<Rightarrow> phase \<Rightarrow> answer \<Rightarrow> phase \<Rightarrow> bool \<Rightarrow> bool" for f m where
  create: "m_type m = AHE_BROKER_ACQUIRE \<Longrightarrow> acquire_request_valid m \<Longrightarrow>
    same_request m key sz \<Longrightarrow>
    served f m No_generation (Granted_create sz segments) (Building f segments key sz) d"
| not_created: "m_type m = AHE_BROKER_ACQUIRE \<Longrightarrow>
    served f m No_generation Refused No_generation d"
| create_again: "m_type m = AHE_BROKER_ACQUIRE \<Longrightarrow> same_request m key sz \<Longrightarrow>
    served f m (Building f segments key sz) (Granted_create sz segments)
      (Building f segments key sz) d"
| busy: "m_type m = AHE_BROKER_ACQUIRE \<Longrightarrow> c \<noteq> f \<or> \<not> same_request m key sz \<Longrightarrow>
    served f m (Building c segments key sz) Declined (Building c segments key sz) d"
| attach: "m_type m = AHE_BROKER_ACQUIRE \<Longrightarrow> same_request m key sz \<Longrightarrow>
    served f m (Published segments key sz base offset)
      (Granted_attach sz base offset segments) (Published segments key sz base offset) d"
| other: "m_type m = AHE_BROKER_ACQUIRE \<Longrightarrow> \<not> same_request m key sz \<Longrightarrow>
    served f m (Published segments key sz base offset) Declined
      (Published segments key sz base offset) d"
| published: "m_type m = AHE_BROKER_READY \<Longrightarrow> m_mapping_size m = sz \<Longrightarrow>
    m_mapping_base m \<noteq> 0 \<Longrightarrow> m_shared_globals_offset m < sz \<Longrightarrow>
    served f m (Building f segments key sz) Acknowledged
      (Published segments key sz (m_mapping_base m) (m_shared_globals_offset m)) True"
| unpublished: "m_type m = AHE_BROKER_READY \<Longrightarrow> m_mapping_size m = sz \<Longrightarrow>
    m_mapping_base m \<noteq> 0 \<Longrightarrow> m_shared_globals_offset m < sz \<Longrightarrow>
    served f m (Building f segments key sz) Acknowledged (Building f segments key sz) False"
| not_ready: "m_type m = AHE_BROKER_READY \<Longrightarrow>
    \<not> (\<exists>segments key. p = Building f segments key (m_mapping_size m)) \<or>
      m_mapping_base m = 0 \<or> m_mapping_size m \<le> m_shared_globals_offset m \<Longrightarrow>
    served f m p Refused p d"
| abandoned: "m_type m = AHE_BROKER_ABORT \<Longrightarrow>
    served f m (Building f segments key sz) Acknowledged No_generation d"
| not_creator: "m_type m = AHE_BROKER_ABORT \<Longrightarrow> \<nexists>segments key sz. p = Building f segments key sz \<Longrightarrow>
    served f m p Acknowledged p d"
| detached: "m_type m = AHE_BROKER_DETACH \<Longrightarrow> served f m p Acknowledged p d"
| unknown: "m_type m \<notin> {AHE_BROKER_ACQUIRE, AHE_BROKER_READY, AHE_BROKER_ABORT, AHE_BROKER_DETACH} \<Longrightarrow>
    served f m p Refused p d"

section \<open>The handlers serve as specified\<close>

lemma matches_same_request:
  "ahe_generation_matches g m \<longleftrightarrow> same_request m (cstr (g_cache_key g)) (g_mapping_size g)"
  by (simp add: ahe_generation_matches_def same_request_def)

lemma grant_message_building:
  "gen_wf g \<Longrightarrow> g_state g = AHE_GENERATION_INITIALIZING \<Longrightarrow>
   grant_message g = answer_message (Granted_create (g_mapping_size g) (g_cache_fd g, g_lock_fd g))"
  by (simp add: gen_wf_def grant_message_def ahe_broker_message_init_def)

lemma grant_message_published:
  "g_state g = AHE_GENERATION_READY \<Longrightarrow> grant_message g = answer_message
     (Granted_attach (g_mapping_size g) (g_mapping_base g) (g_shared_globals_offset g)
       (g_cache_fd g, g_lock_fd g))"
  by (simp add: grant_message_def)

text \<open>\<open>sent_answer f a w w'\<close>: between \<open>w\<close> and \<open>w'\<close> exactly the answer \<open>a\<close> went out, to \<open>f\<close>.\<close>

definition sent_answer :: "fd \<Rightarrow> answer \<Rightarrow> world \<Rightarrow> world \<Rightarrow> bool" where
  "sent_answer f a w w' \<longleftrightarrow> sends (history w') =
     insert (f, encode_message (answer_message a), answer_fds a) (sends (history w))"

text \<open>\<open>delivered f a w'\<close>: the last call was the sending of \<open>a\<close> to \<open>f\<close>, and it took the whole message.\<close>

definition delivered :: "fd \<Rightarrow> answer \<Rightarrow> world \<Rightarrow> bool" where
  "delivered f a w' \<longleftrightarrow> sent_whole f (encode_message (answer_message a)) (answer_fds a) w'"

lemma wp_send_answer:
  assumes "message = answer_message a" and "fds = answer_fds a"
    and "sends (history w1) = sends (history w)"
    and "\<And>sent w'. \<lbrakk>sent = 0 \<or> sent = -1; sent_answer f a w w'; (sent = 0) = delivered f a w'\<rbrakk> \<Longrightarrow> Q sent w'"
  shows "wp (ahe_broker_send_message f message fds) Q w1"
proof (rule wp_send_message)
  show "length fds \<le> AHE_BROKER_DESCRIPTOR_COUNT" unfolding assms(2) by (cases a) auto
qed (use assms in \<open>auto simp: sent_answer_def delivered_def\<close>)

definition serve_post ::
  "fd \<Rightarrow> ahe_broker_message \<Rightarrow> ahe_generation \<Rightarrow> world \<Rightarrow> int \<times> ahe_generation \<Rightarrow> world \<Rightarrow> bool" where
  "serve_post f m g w r w' \<longleftrightarrow> (\<exists>a. served f m (phase_of g) a (phase_of (snd r)) (fst r = 0) \<and>
     sent_answer f a w w' \<and> (fst r = 0) = delivered f a w')"

lemma wp_answer_then:
  assumes "served f m (phase_of g) a (phase_of g') True" "served f m (phase_of g) a (phase_of g') False"
    and "message = answer_message a" "fds = answer_fds a" "sends (history w1) = sends (history w)"
  shows "wp (ahe_broker_send_message f message fds) (\<lambda>sent w'. serve_post f m g w (sent, g') w') w1"
  by (rule wp_send_answer [OF assms(3,4,5)]) (use assms(1,2) in \<open>auto simp: serve_post_def\<close>)

lemma acquire_served_existing:
  assumes wf: "gen_wf g" and ne: "g_state g \<noteq> AHE_GENERATION_EMPTY"
    and ty: "m_type m = AHE_BROKER_ACQUIRE"
  shows "wp (ahe_broker_handle_acquire f g m) (serve_post f m g w) w"
proof (cases "\<not> ahe_generation_matches g m \<or>
    g_state g = AHE_GENERATION_INITIALIZING \<and> g_creator_fd g \<noteq> f")
  case True
  have "served f m (phase_of g) Declined (phase_of g) d" for d
    using True ne ty by (cases "g_state g") (auto simp: phase_of_def matches_same_request
      intro: served.busy served.other)
  then show ?thesis
    using True ne by (auto simp: ahe_broker_handle_acquire_def wp_rules intro!: wp_answer_then)
next
  case False
  show ?thesis
  proof (cases "g_state g")
    case AHE_GENERATION_INITIALIZING
    have "served f m (phase_of g) (Granted_create (g_mapping_size g) (g_cache_fd g, g_lock_fd g))
        (phase_of g) d" for d
      using False AHE_GENERATION_INITIALIZING ty
      by (auto simp: phase_of_def matches_same_request intro: served.create_again)
    with False AHE_GENERATION_INITIALIZING show ?thesis
      unfolding ahe_broker_handle_acquire_def
      by (auto simp: wp_rules grant_message_building [OF wf] intro!: wp_answer_then)
  next
    case AHE_GENERATION_READY
    have "served f m (phase_of g) (Granted_attach (g_mapping_size g) (g_mapping_base g)
        (g_shared_globals_offset g) (g_cache_fd g, g_lock_fd g)) (phase_of g) d" for d
      using False AHE_GENERATION_READY ty
      by (auto simp: phase_of_def matches_same_request intro: served.attach)
    with False AHE_GENERATION_READY show ?thesis
      unfolding ahe_broker_handle_acquire_def
      by (auto simp: wp_rules grant_message_published intro!: wp_answer_then)
  qed (use ne in simp)
qed

lemma acquire_served_empty:
  assumes g: "g = ahe_generation_init" and ty: "m_type m = AHE_BROKER_ACQUIRE"
  shows "wp (ahe_broker_handle_acquire f g m) (serve_post f m g w) w"
proof -
  have "wp (ahe_generation_create g f m) (\<lambda>r. wp (case r of (created, g1) \<Rightarrow>
      if created < 0
      then do {
        sent \<leftarrow> ahe_broker_send_message f (ahe_broker_message_init AHE_BROKER_ERROR) [];
        ret (sent, g1)
      }
      else if \<not> ahe_generation_matches g1 m \<or>
        g_state g1 = AHE_GENERATION_INITIALIZING \<and> g_creator_fd g1 \<noteq> f
      then do {
        sent \<leftarrow> ahe_broker_send_message f (ahe_broker_message_init AHE_BROKER_DECLINE) [];
        ret (sent, g1)
      }
      else do {
        sent \<leftarrow> ahe_broker_send_message f (grant_message g1) [g_cache_fd g1, g_lock_fd g1];
        ret (sent, g1)
      }) (serve_post f m g w)) w"
  proof (rule wp_generation_create [OF g], goal_cases created failed)
    case (created g1 w1)
    then have n: "has_nul (m_cache_key m)" by (simp add: acquire_request_valid_def)
    then have mt: "ahe_generation_matches g1 m" using created by (simp add: ahe_generation_matches_def)
    then have "served f m (phase_of g) (Granted_create (g_mapping_size g1) (g_cache_fd g1, g_lock_fd g1))
        (phase_of g1) d" for d
      using created ty g
      by (auto simp: phase_of_def matches_same_request intro: served.create)
    with mt created show ?case
      by (auto simp: wp_rules quiet_def grant_message_building intro!: wp_answer_then)
  next
    case (failed w1)
    have "served f m (phase_of g) Refused (phase_of ahe_generation_init) d" for d
      using ty g by (simp add: served.not_created)
    with failed show ?case
      by (auto simp: wp_rules quiet_def intro!: wp_answer_then [where a = Refused])
  qed
  with g show ?thesis by (simp add: ahe_broker_handle_acquire_def wp_rules)
qed

lemma acquire_served:
  assumes "gen_wf g" and "m_type m = AHE_BROKER_ACQUIRE"
  shows "wp (ahe_broker_handle_acquire f g m) (serve_post f m g w) w"
  using assms acquire_served_existing acquire_served_empty gen_wf_empty by metis

lemma ready_served:
  assumes wf: "gen_wf g" and ty: "m_type m = AHE_BROKER_READY"
  shows "wp (ahe_broker_handle_ready f g m) (serve_post f m g w) w"
proof (cases "ready_request_invalid f g m")
  case True
  have "served f m (phase_of g) Refused (phase_of g) d" for d
    using True ty by (intro served.not_ready)
      (auto simp: ready_request_invalid_def phase_of_def split: ahe_generation_state.splits)
  with True show ?thesis
    by (auto simp: ahe_broker_handle_ready_def wp_rules intro!: wp_answer_then)
next
  case False
  then have v: "g_state g = AHE_GENERATION_INITIALIZING" "g_creator_fd g = f"
    "m_mapping_size m = g_mapping_size g" "m_mapping_base m \<noteq> 0"
    "m_shared_globals_offset m < g_mapping_size g" by (auto simp: ready_request_invalid_def)
  have yes: "served f m (phase_of g) Acknowledged (phase_of (published_by g m)) True"
    using v ty by (auto simp: phase_of_def published_by_def intro: served.published)
  have no: "served f m (phase_of g) Acknowledged (phase_of g) False"
    using v ty by (auto simp: phase_of_def intro: served.unpublished)
  have "wp (ahe_broker_send_message f (ahe_broker_message_init AHE_BROKER_ACK) [])
      (\<lambda>sent. wp (if sent < 0 then ret (-1, g) else ret (0, published_by g m)) (serve_post f m g w)) w"
    by (rule wp_send_answer [where a = Acknowledged])
      (use yes no in \<open>auto simp: wp_rules serve_post_def\<close>)
  with False show ?thesis by (simp add: ahe_broker_handle_ready_def wp_rules)
qed

definition kept_open :: "ahe_broker_message \<Rightarrow> bool \<Rightarrow> bool" where
  "kept_open m d \<longleftrightarrow> d \<and>
     m_type m \<in> {AHE_BROKER_ACQUIRE, AHE_BROKER_READY, AHE_BROKER_ABORT}"

definition dispatch_post ::
  "fd \<Rightarrow> ahe_broker_message \<Rightarrow> ahe_generation \<Rightarrow> world \<Rightarrow> bool \<times> ahe_generation \<Rightarrow> world \<Rightarrow> bool" where
  "dispatch_post f m g w r w' \<longleftrightarrow> (\<exists>a. served f m (phase_of g) a (phase_of (snd r)) (delivered f a w') \<and>
     sent_answer f a w w' \<and> fst r = kept_open m (delivered f a w'))"

lemma serve_dispatch_post:
  assumes "wp h (serve_post f m g w) w" and "m_type m \<in> {AHE_BROKER_ACQUIRE, AHE_BROKER_READY}"
  shows "wp h (\<lambda>r. wp (case r of (res, g') \<Rightarrow> ret (res = 0, g')) (dispatch_post f m g w)) w"
proof (rule wp_mono [OF assms(1)])
  fix r w'
  assume "serve_post f m g w r w'"
  then obtain a where s: "served f m (phase_of g) a (phase_of (snd r)) (fst r = 0)" "sent_answer f a w w'"
    and d: "(fst r = 0) = delivered f a w'" by (auto simp: serve_post_def)
  with assms(2) have "dispatch_post f m g w (fst r = 0, snd r) w'"
    unfolding dispatch_post_def by (intro exI [of _ a]) (auto simp: kept_open_def d)
  then show "wp (case r of (res, g') \<Rightarrow> ret (res = 0, g')) (dispatch_post f m g w) w'"
    by (cases r) (simp add: wp_return)
qed

lemma dispatch_served:
  assumes wf: "gen_wf g"
  shows "wp (ahe_broker_dispatch f g m) (dispatch_post f m g w) w"
proof -
  have last: "wp (do {
      _ \<leftarrow> ahe_broker_send_message f (answer_message a) [];
      ret (False, g)
    }) (dispatch_post f m g w) w"
    if "\<And>d. served f m (phase_of g) a (phase_of g) d" "answer_fds a = []"
      "m_type m \<notin> {AHE_BROKER_ACQUIRE, AHE_BROKER_READY, AHE_BROKER_ABORT}" for a
    unfolding wp_rules
    by (rule wp_send_answer [where a = a])
      (use that in \<open>auto simp: dispatch_post_def kept_open_def\<close>)
  have abort: "wp (reset_if_creator f g) (\<lambda>g'. wp (do {
      sent \<leftarrow> ahe_broker_send_message f (ahe_broker_message_init AHE_BROKER_ACK) [];
      ret (sent = 0, g')
    }) (dispatch_post f m g w)) w" if ty: "m_type m = AHE_BROKER_ABORT"
  proof -
    have reply: "wp (do {
        sent \<leftarrow> ahe_broker_send_message f (ahe_broker_message_init AHE_BROKER_ACK) [];
        ret (sent = 0, g')
      }) (dispatch_post f m g w) w1"
      if "quiet w w1" and "\<And>d. served f m (phase_of g) Acknowledged (phase_of g') d" for g' w1
      unfolding wp_rules
      by (rule wp_send_answer [where a = Acknowledged])
        (use that ty in \<open>auto simp: dispatch_post_def kept_open_def quiet_def\<close>)
    show ?thesis
    proof (cases "g_state g = AHE_GENERATION_INITIALIZING \<and> g_creator_fd g = f")
      case True
      with ty have "served f m (phase_of g) Acknowledged (phase_of ahe_generation_init) d" for d
        by (auto simp: phase_of_def intro: served.abandoned)
      then show ?thesis
        unfolding reset_if_creator_def if_P [OF True] by (intro wp_generation_reset reply)
    next
      case False
      with ty have "served f m (phase_of g) Acknowledged (phase_of g) d" for d
        by (intro served.not_creator) (auto simp: phase_of_def split: ahe_generation_state.splits)
      then have "wp (ret g) (\<lambda>g'. wp (do {
          sent \<leftarrow> ahe_broker_send_message f (ahe_broker_message_init AHE_BROKER_ACK) [];
          ret (sent = 0, g')
        }) (dispatch_post f m g w)) w"
        by (simp add: wp_return reply)
      then show ?thesis unfolding reset_if_creator_def if_not_P [OF False] .
    qed
  qed
  consider "m_type m = AHE_BROKER_ACQUIRE" | "m_type m = AHE_BROKER_READY"
    | "m_type m = AHE_BROKER_ABORT" | "m_type m = AHE_BROKER_DETACH"
    | "m_type m \<notin> {AHE_BROKER_ACQUIRE, AHE_BROKER_READY, AHE_BROKER_ABORT, AHE_BROKER_DETACH}"
    by blast
  then show ?thesis
  proof cases
    case 1
    with serve_dispatch_post [OF acquire_served [OF wf 1]] show ?thesis
      by (simp add: ahe_broker_dispatch_def wp_bind)
  next
    case 2
    with serve_dispatch_post [OF ready_served [OF wf 2]] show ?thesis
      by (simp add: ahe_broker_dispatch_def wp_bind)
  next
    case 3
    with abort show ?thesis by (simp add: ahe_broker_dispatch_def wp_bind)
  next
    case 4
    with last [of Acknowledged] show ?thesis
      by (simp add: ahe_broker_dispatch_def served.detached)
  next
    case 5
    with last [of Refused] show ?thesis
      by (simp add: ahe_broker_dispatch_def served.unknown)
  qed
qed

section \<open>The loop refines the abstract machine\<close>

text \<open>One more turn of the loop of \<open>main\<close>.\<close>

definition loop_step :: "ahe_broker \<times> world \<Rightarrow> ahe_broker \<times> world \<Rightarrow> bool" where
  "loop_step s t \<longleftrightarrow> \<not> stopping (snd s) \<and>
     run_state (ahe_broker_iteration (fst s)) (snd s) = (Continue (fst t), snd t)"

definition loop_start :: "ahe_broker \<times> world \<Rightarrow> bool" where
  "loop_start s \<longleftrightarrow> (\<exists>listener_fd max_clients. fst s = broker_initial listener_fd max_clients)"

definition broker_phase :: "ahe_broker \<times> world \<Rightarrow> phase" where
  "broker_phase s = phase_of (b_generation (fst s))"

lemma any_moves_steps:
  "reaches any_move g g' \<Longrightarrow> gen_wf g \<Longrightarrow> gen_wf g' \<and> reaches any_step (phase_of g) (phase_of g')"
proof (induction rule: reaches.induct)
  case (here g)
  then show ?case by (simp add: reaches.here)
next
  case (further g g1 g2)
  then obtain f where wf: "gen_wf g1" "gen_wf g2" and m: "gen_move f g1 g2"
    and r: "reaches any_step (phase_of g) (phase_of g1)" by (auto simp: any_move_def)
  have "phase_of g2 = phase_of g1 \<or> any_step (phase_of g1) (phase_of g2)"
    using gen_move_step [OF wf m] by (auto simp: any_step_def)
  with r have "reaches any_step (phase_of g) (phase_of g2)"
    using reaches.further [OF r] by auto
  with wf show ?case by simp
qed

lemma loop_post_steps:
  "broker_ok b \<Longrightarrow> loop_post b w b' w' \<Longrightarrow>
   reaches any_step (phase_of (b_generation b)) (phase_of (b_generation b'))"
  using any_moves_steps by (auto simp: loop_post_def broker_ok_def evolves_def)

lemma loop_step_post:
  "loop_step (b, w) (b', w') \<Longrightarrow> broker_ok b \<Longrightarrow> loop_post b w b' w'"
  using wp_runD [OF wp_iteration] by (fastforce simp: loop_step_def)

interpretation broker: simulation loop_start loop_step "\<lambda>s. broker_ok (fst s)" any_step broker_phase
proof (unfold_locales, goal_cases)
  case (1 s)
  then show ?case by (auto simp: loop_start_def)
next
  case (2 s t)
  then show ?case by (cases s; cases t) (auto dest: loop_step_post simp: loop_post_ok)
next
  case (3 s t)
  then show ?case by (cases s; cases t) (auto simp: broker_phase_def dest: loop_step_post loop_post_steps)
qed

interpretation protocol: invariant_machine "\<lambda>p. p = No_generation" any_step
  "\<lambda>p. case p of No_generation \<Rightarrow> True
    | Building f segments key sz \<Rightarrow> key_ok key \<and> size_ok sz
    | Published segments key sz base offset \<Rightarrow>
        key_ok key \<and> size_ok sz \<and> base \<noteq> 0 \<and> offset < sz"
  by unfold_locales (auto simp: any_step_def elim!: protocol_step.cases)

end
