(* ===== verification/Broker_Listener.thy ===== *)
theory Broker_Listener imports Generation begin

unbundle bit_operations_syntax

text \<open>
  How the broker gets its listening socket: \<open>ahe_broker_prepare_parent_directory\<close>,
  \<open>ahe_broker_remove_stale_socket\<close> and \<open>ahe_broker_create_listener\<close> of
  \<^verbatim>\<open>src/ahe_broker.c\<close>, with what each may do to the file system and to the process's
  descriptors.
\<close>

section \<open>Files\<close>

abbreviation SUN_PATH_SIZE :: nat where "SUN_PATH_SIZE \<equiv> 108"

text \<open>\<open>S_ISDIR\<close>, \<open>S_ISSOCK\<close> and \<open>mode & (S_IWGRP | S_IWOTH)\<close>.\<close>

definition is_directory :: "u32 \<Rightarrow> bool" where
  "is_directory mode \<longleftrightarrow> mode AND 0xF000 = 0x4000"

definition is_socket :: "u32 \<Rightarrow> bool" where
  "is_socket mode \<longleftrightarrow> mode AND 0xF000 = 0xC000"

definition writable_by_others :: "u32 \<Rightarrow> bool" where
  "writable_by_others mode \<longleftrightarrow> mode AND (0x10 OR 0x02) \<noteq> 0"

section \<open>The parent directory\<close>

text \<open>File modes are written in hexadecimal: 0x1C0 is 0700, 0x3F is 0077 and 0x180 is 0600.\<close>

text \<open>\<open>strrchr(path, '/')\<close>: the position of the last slash.\<close>

definition last_slash :: "string \<Rightarrow> nat option" where
  "last_slash path = (if CHR ''/'' \<in> set path
     then Some (length path - 1 - length (takeWhile (\<lambda>c. c \<noteq> CHR ''/'') (rev path)))
     else None)"

text \<open>The directory to prepare, or the error when the path names none or is too long.\<close>

definition parent_path :: "string \<Rightarrow> errno + string" where
  "parent_path socket_path = (case last_slash socket_path of
     None \<Rightarrow> Inr ''.''
   | Some i \<Rightarrow>
       if i + 1 = length socket_path then Inl EINVAL
       else if i = 0 then Inr ''/''
       else if i \<ge> SUN_PATH_SIZE then Inl ENAMETOOLONG
       else Inr (take i socket_path))"

definition ahe_broker_prepare_parent_directory :: "string \<Rightarrow> (world, int) state" where
  "ahe_broker_prepare_parent_directory socket_path = (case parent_path socket_path of
     Inl e \<Rightarrow> do {set_errno e; ret (-1)}
   | Inr parent \<Rightarrow> do {
       made \<leftarrow> sys (Mkdir parent 0x1C0);
       e \<leftarrow> get_errno;
       if r_ret made < 0 \<and> e \<noteq> EEXIST then ret (-1)
       else do {
         status \<leftarrow> sys (Lstat parent);
         uid \<leftarrow> geteuid;
         if r_ret status < 0
           \<or> \<not> is_directory (st_mode (r_stat status))
           \<or> st_uid (r_stat status) \<noteq> uid
           \<or> writable_by_others (st_mode (r_stat status))
         then do {set_errno EPERM; ret (-1)}
         else ret 0
       }
     })"

section \<open>A stale socket\<close>

definition own_socket :: "u32 \<Rightarrow> stat \<Rightarrow> bool" where
  "own_socket uid status \<longleftrightarrow> is_socket (st_mode status) \<and> st_uid status = uid"

definition same_file :: "stat \<Rightarrow> stat \<Rightarrow> bool" where
  "same_file a b \<longleftrightarrow> st_dev a = st_dev b \<and> st_ino a = st_ino b"

definition ahe_broker_remove_stale_socket :: "string \<Rightarrow> (world, int) state" where
  "ahe_broker_remove_stale_socket socket_path = do {
     initial \<leftarrow> sys (Lstat socket_path);
     e \<leftarrow> get_errno;
     uid \<leftarrow> geteuid;
     if r_ret initial < 0 then ret (if e = ENOENT then 0 else -1)
     else if \<not> own_socket uid (r_stat initial)
     then do {set_errno EPERM; ret (-1)}
     else do {
       probe \<leftarrow> sys (Socket True);
       let probe_fd = r_ret probe;
       if probe_fd < 0 then ret (-1)
       else do {
         connected \<leftarrow> sys (Connect probe_fd socket_path);
         connect_errno \<leftarrow> get_errno;
         close_fd probe_fd;
         if r_ret connected = 0 then do {set_errno EADDRINUSE; ret (-1)}
         else if connect_errno = EINPROGRESS \<or> connect_errno = EAGAIN \<or> connect_errno = EALREADY
         then do {set_errno EADDRINUSE; ret (-1)}
         else if connect_errno = ENOENT then ret 0
         else if connect_errno \<noteq> ECONNREFUSED then do {set_errno connect_errno; ret (-1)}
         else do {
           current \<leftarrow> sys (Lstat socket_path);
           e \<leftarrow> get_errno;
           if r_ret current < 0 then ret (if e = ENOENT then 0 else -1)
           else if \<not> own_socket uid (r_stat current)
             \<or> \<not> same_file (r_stat current) (r_stat initial)
           then do {set_errno EAGAIN; ret (-1)}
           else do {r \<leftarrow> sys (Unlink socket_path); ret (r_ret r)}
         }
       }
     }
   }"

section \<open>The listener\<close>

text \<open>
  \<open>ahe_broker_create_listener\<close> in its stretches: make the path free, then bind, protect
  and listen.
\<close>

definition clear_path :: "string \<Rightarrow> (world, bool) state" where
  "clear_path socket_path = do {
     prepared \<leftarrow> ahe_broker_prepare_parent_directory socket_path;
     if prepared < 0 then ret False
     else do {cleared \<leftarrow> ahe_broker_remove_stale_socket socket_path; ret (\<not> cleared < 0)}
   }"

definition bind_and_listen :: "fd \<Rightarrow> string \<Rightarrow> (world, fd) state" where
  "bind_and_listen listener_fd socket_path = do {
     bound \<leftarrow> sys (Bind listener_fd socket_path);
     if r_ret bound < 0 then do {close_fd listener_fd; ret (-1)}
     else do {
       changed \<leftarrow> sys (Chmod socket_path 0x180);
       listening \<leftarrow> (if r_ret changed < 0 then ret changed else sys (Listen listener_fd 16));
       if r_ret listening < 0
       then do {
         saved_errno \<leftarrow> get_errno;
         close_fd listener_fd;
         _ \<leftarrow> sys (Unlink socket_path);
         set_errno saved_errno;
         ret (-1)
       }
       else ret listener_fd
     }
   }"

definition ahe_broker_create_listener :: "string \<Rightarrow> (world, fd) state" where
  "ahe_broker_create_listener socket_path =
     (if socket_path = [] \<or> length socket_path \<ge> SUN_PATH_SIZE
      then do {set_errno ENAMETOOLONG; ret (-1)}
      else do {
        listener \<leftarrow> sys (Socket True);
        if r_ret listener < 0 then ret (-1)
        else do {
          note_call (Umask 0x3F);
          cleared \<leftarrow> clear_path socket_path;
          if \<not> cleared then do {close_fd (r_ret listener); ret (-1)}
          else bind_and_listen (r_ret listener) socket_path
        }
      })"

section \<open>What the operations do\<close>

lemma last_slash_append:
  assumes "CHR ''/'' \<notin> set name"
  shows "last_slash (dir @ CHR ''/'' # name) = Some (length dir)"
proof -
  have "takeWhile (\<lambda>c. c \<noteq> CHR ''/'') (rev name @ CHR ''/'' # rev dir) = rev name"
    using assms by (subst takeWhile_append2) auto
  then show ?thesis by (simp add: last_slash_def)
qed

lemma last_slash_split:
  assumes "last_slash path = Some i"
  shows "\<exists>name. path = take i path @ CHR ''/'' # name \<and> CHR ''/'' \<notin> set name \<and> i < length path"
proof -
  from assms have "CHR ''/'' \<in> set path" by (simp add: last_slash_def split: if_splits)
  then obtain dir name where p: "path = dir @ CHR ''/'' # name" and n: "CHR ''/'' \<notin> set name"
    using split_list_last by metis
  from last_slash_append [OF n] assms p have "i = length dir" by simp
  with p n show ?thesis by auto
qed

text \<open>
  The directory name never overruns its buffer, terminator included, and it is the path
  without its last component.
\<close>

lemma parent_path_fits:
  assumes "parent_path path = Inr parent"
  shows "length parent + 1 \<le> SUN_PATH_SIZE"
  using assms by (auto simp: parent_path_def split: option.splits if_splits)

lemma parent_path_of:
  assumes "CHR ''/'' \<notin> set name" and "name \<noteq> []" and "dir \<noteq> []" and "length dir < SUN_PATH_SIZE"
  shows "parent_path (dir @ CHR ''/'' # name) = Inr dir"
  using assms by (simp add: parent_path_def last_slash_append)

lemma parent_path_bare: "CHR ''/'' \<notin> set name \<Longrightarrow> parent_path name = Inr ''.''"
  by (simp add: parent_path_def last_slash_def)

lemma parent_path_root:
  "CHR ''/'' \<notin> set name \<Longrightarrow> name \<noteq> [] \<Longrightarrow> parent_path (CHR ''/'' # name) = Inr ''/''"
  using last_slash_append [of name "[]"] by (simp add: parent_path_def)

definition secure_directory :: "u32 \<Rightarrow> stat \<Rightarrow> bool" where
  "secure_directory uid status \<longleftrightarrow> is_directory (st_mode status) \<and> st_uid status = uid \<and>
     \<not> writable_by_others (st_mode status)"

lemma wp_prepare_parent_directory:
  assumes "\<And>res w'. \<lbrakk>quiet w w'; \<And>F. holds F w \<Longrightarrow> holds F w'; res = 0 \<or> res = -1;
      res = 0 \<Longrightarrow> \<exists>parent status h. parent_path path = Inr parent \<and> 0 \<le> r_ret status \<and>
        history w' = (Lstat parent, status) # h @ history w \<and> secure_directory (euid w) (r_stat status);
      only_calls (\<lambda>c. \<exists>p m. c = Mkdir p m \<or> c = Lstat p) w w'\<rbrakk>
    \<Longrightarrow> Q res w'"
  shows "wp (ahe_broker_prepare_parent_directory path) Q w"
proof (cases "parent_path path")
  case (Inl e)
  then show ?thesis
    by (auto simp: ahe_broker_prepare_parent_directory_def wp_rules intro!: assms quiet_intros only_calls_intros)
next
  case (Inr parent)
  then show ?thesis
    unfolding ahe_broker_prepare_parent_directory_def Inr sum.case wp_rules
    by (auto intro!: assms quiet_intros only_calls_intros holds_none_intros simp: secure_directory_def Inr)
qed

text \<open>
  The stale socket is unlinked only when it is this user's own socket, nobody accepted the
  probe, and it is still the same file as before the probe.
\<close>

definition stale_socket_removed :: "string \<Rightarrow> world \<Rightarrow> world \<Rightarrow> bool" where
  "stale_socket_removed path w w' \<longleftrightarrow> (\<exists>u s1 f c p s0.
     history w' = [(Unlink path, u), (Lstat path, s1), (Close f, returned 0), (Connect f path, c),
       (Socket True, p), (Lstat path, s0)] @ history w \<and>
     0 \<le> r_ret s0 \<and> 0 \<le> r_ret s1 \<and> own_socket (euid w) (r_stat s0) \<and> own_socket (euid w) (r_stat s1) \<and>
     same_file (r_stat s1) (r_stat s0) \<and> r_ret c \<noteq> 0 \<and> (r_ret c < 0 \<longrightarrow> r_errno c = ECONNREFUSED))"

lemma wp_remove_stale_socket:
  assumes "\<And>res w'. \<lbrakk>quiet w w'; \<And>F. holds F w \<Longrightarrow> holds F w';
      only_calls (\<lambda>c. \<forall>p. c \<noteq> Unlink p) w w' \<or> stale_socket_removed path w w'\<rbrakk>
    \<Longrightarrow> Q res w'"
  shows "wp (ahe_broker_remove_stale_socket path) Q w"
proof -
  have close: "holds F (noted (Close (r_ret r)) (answered (Connect (r_ret r) path) c (answered (Socket True) r w1)))"
    if "holds F w1" "\<not> r_ret r < 0" for F r c w1
  proof (rule holds_noted_close)
    show "holds (fd_mset (r_ret r) + F) (answered (Connect (r_ret r) path) c (answered (Socket True) r w1))"
      using that(1) by (intro holds_answered_none holds_answered_one) simp_all
  qed (use that in simp)
  have fail: "holds F (answered (Socket True) r w1)" if "holds F w1" "r_ret r < 0" for F r w1
    using that by (intro holds_answered_failed) simp_all
  let ?l = "answered (Lstat path)" and ?s = "answered (Socket True)"
  have neutral: "holds F (?l r w1)" if "holds F w1" for F r w1
    using that by (rule holds_answered_none) simp
  have unlinked: "holds F (answered (Unlink path) r w1)" if "holds F w1" for F r w1
    using that by (rule holds_answered_none) simp
  note worlds = neutral unlinked close fail
  note unchanged = assms [OF _ _ disjI1]
  show ?thesis
    unfolding ahe_broker_remove_stale_socket_def Let_def wp_rules
    apply (intro branchI)
    apply ((rule unchanged, (intro quiet_intros; simp), ((simp only: holds_with_errno)?, intro worlds; assumption), (intro only_calls_intros; (simp; fail)))+)
    apply (rule assms [OF _ _ disjI2], (intro quiet_intros; simp), (intro worlds; assumption))
    apply (unfold stale_socket_removed_def, intro exI conjI)
    apply (auto split: if_splits)
    done
qed

text \<open>What making the path free establishes, as far as the listener's security depends on it.\<close>

definition path_secured :: "string \<Rightarrow> u32 \<Rightarrow> event list \<Rightarrow> bool" where
  "path_secured path uid h \<longleftrightarrow> (\<exists>parent status. parent_path path = Inr parent \<and>
     (Lstat parent, status) \<in> set h \<and> 0 \<le> r_ret status \<and> secure_directory uid (r_stat status))"

lemma path_secured_mono: "path_secured path uid h \<Longrightarrow> set h \<subseteq> set h' \<Longrightarrow> path_secured path uid h'"
  by (auto simp: path_secured_def)

lemma wp_clear_path:
  assumes "\<And>res w'. \<lbrakk>quiet w w'; \<And>F. holds F w \<Longrightarrow> holds F w';
      \<exists>h. history w' = h @ history w \<and> (res \<longrightarrow> path_secured path (euid w) h)\<rbrakk> \<Longrightarrow> Q res w'"
  shows "wp (clear_path path) Q w"
  unfolding clear_path_def wp_bind
proof (rule wp_prepare_parent_directory, goal_cases)
  case (1 prepared w1)
  obtain h where h: "history w1 = h @ history w" using 1(5) by (auto simp: only_calls_def)
  show ?case
  proof (cases "prepared < 0")
    case True
    with 1 h show ?thesis by (auto simp: wp_rules intro: assms)
  next
    case False
    with 1(3,4) h have p: "path_secured path (euid w) h" by (auto simp: path_secured_def)
    have "wp (ahe_broker_remove_stale_socket path) (\<lambda>cleared. wp (ret (\<not> cleared < 0)) Q) w1"
    proof (rule wp_remove_stale_socket, goal_cases)
      case (1 cleared w2)
      then obtain h' where h': "history w2 = h' @ history w1"
        by (auto simp: only_calls_def stale_socket_removed_def)
      show ?case unfolding wp_return
      proof (rule assms)
        show "\<exists>h. history w2 = h @ history w \<and> (\<not> cleared < 0 \<longrightarrow> path_secured path (euid w) h)"
          by (rule exI [of _ "h' @ h"]) (use h h' path_secured_mono [OF p, of "h' @ h"] in simp)
      qed (use 1 \<open>quiet w w1\<close> \<open>\<And>F. holds F w \<Longrightarrow> holds F w1\<close> in \<open>auto intro: quiet_trans\<close>)
    qed
    with False show ?thesis by (simp add: wp_bind)
  qed
qed

definition listener_opened :: "string \<Rightarrow> fd \<Rightarrow> event list \<Rightarrow> event list \<Rightarrow> bool" where
  "listener_opened path f h h' \<longleftrightarrow> (\<exists>l c b.
     h' = [(Listen f 16, l), (Chmod path 0x180, c), (Bind f path, b)] @ h \<and>
     0 \<le> r_ret l \<and> 0 \<le> r_ret c \<and> 0 \<le> r_ret b)"

lemma wp_bind_and_listen:
  assumes ok: "\<And>w'. \<lbrakk>quiet w w'; \<And>F. holds F w \<Longrightarrow> holds F w'; listener_opened path f (history w) (history w')\<rbrakk>
      \<Longrightarrow> Q f w'"
    and err: "\<And>w'. \<lbrakk>quiet w w'; \<And>F. holds (add_mset f F) w \<Longrightarrow> holds F w'\<rbrakk> \<Longrightarrow> Q (-1) w'"
  shows "wp (bind_and_listen f path) Q w"
proof -
  have neutral: "holds F (answered c r w1)" if "holds F w1" "opens_none c" for F c r w1
    using that by (rule holds_answered_none)
  have drop: "holds F (noted (Close f) w1)" if "holds (add_mset f F) w1" for F w1
    using that by (rule holds_close [where r = "returned 0"]) simp
  have undo: "holds F (answered (Unlink p) r (noted (Close f) w1))"
    if "holds (add_mset f F) w1" for F p r w1
    by (rule neutral [OF drop [OF that]]) simp
  show ?thesis
    unfolding bind_and_listen_def wp_rules
    by (intro branchI; (rule err ok);
        (intro quiet_intros; simp; fail
        | intro drop undo holds_with_errno [THEN iffD2] neutral; (assumption | simp; fail)
        | auto simp: listener_opened_def not_less))
qed

text \<open>
  A listener in hand means: its directory was found to be this user's and closed to others,
  the file mode creation mask was 0077 before it was bound, and its mode was set to 0600
  before anyone could connect. On every other path nothing is left open.
\<close>

definition listener_secured :: "string \<Rightarrow> fd \<Rightarrow> world \<Rightarrow> world \<Rightarrow> bool" where
  "listener_secured path f w w' \<longleftrightarrow> (\<exists>h. listener_opened path f (h @ history w) (history w') \<and>
     (Umask 0x3F, returned 0) \<in> set h \<and> path_secured path (euid w) h)"

lemma wp_create_listener:
  assumes ok: "\<And>f w'. \<lbrakk>0 \<le> f; quiet w w'; \<And>F. holds F w \<Longrightarrow> holds (add_mset f F) w';
      listener_secured path f w w'\<rbrakk> \<Longrightarrow> Q f w'"
    and err: "\<And>w'. \<lbrakk>quiet w w'; \<And>F. holds F w \<Longrightarrow> holds F w'\<rbrakk> \<Longrightarrow> Q (-1) w'"
  shows "wp (ahe_broker_create_listener path) Q w"
proof (cases "path = [] \<or> length path \<ge> SUN_PATH_SIZE")
  case True
  then show ?thesis
    by (auto simp: ahe_broker_create_listener_def wp_rules intro!: err quiet_intros)
next
  case False
  let ?w1 = "answered (Socket True) (next_reply w) w" and ?f = "r_ret (next_reply w)"
  let ?w2 = "noted (Umask 0x3F) ?w1"
  have q1: "quiet w ?w1" by (intro quiet_intros) simp_all
  show ?thesis
  proof (cases "?f < 0")
    case True
    have "holds F ?w1" if "holds F w" for F
      using that True by (rule holds_answered_failed) simp
    then have "Q (-1) ?w1" by (rule err [OF q1])
    with False True show ?thesis by (simp add: ahe_broker_create_listener_def wp_rules)
  next
    case nn: False
    have h2: "holds (add_mset ?f F) ?w2" if "holds F w" for F
      using holds_noted_none [OF holds_answered_one [OF that, of "Socket True" "next_reply w"], of "Umask 0x3F"] nn
      by (simp add: fd_mset_nonneg)
    have "wp (clear_path path) (\<lambda>cleared. wp (if \<not> cleared then do {close_fd ?f; ret (-1)}
        else bind_and_listen ?f path) Q) ?w2"
    proof (rule wp_clear_path, goal_cases)
      case (1 res w3)
      have q3: "quiet w w3" by (rule quiet_trans [OF quiet_noted [OF _ _ q1] 1(1)]) simp_all
      have h3: "holds (add_mset ?f F) w3" if "holds F w" for F using 1(2) h2 that by blast
      show ?case
      proof (cases res)
        case True
        with 1(3) obtain h where h: "history w3 = h @ history ?w2" "path_secured path (euid w) h" by auto
        have "listener_secured path ?f w w4"
          if "listener_opened path ?f (history w3) (history w4)" for w4
          unfolding listener_secured_def
          by (rule exI [of _ "h @ [(Umask 0x3F, returned 0), (Socket True, next_reply w)]"])
            (use that h in \<open>auto intro: path_secured_mono\<close>)
        with True nn q3 h3 show ?thesis
          by (auto intro!: wp_bind_and_listen ok err intro: quiet_trans)
      next
        case False
        have "holds F (noted (Close ?f) w3)" if "holds F w" for F
          by (rule holds_close [OF h3 [OF that]]) simp
        with False q3 show ?thesis by (auto simp: wp_rules intro!: err quiet_intros)
      qed
    qed
    with False nn show ?thesis
      by (simp add: ahe_broker_create_listener_def wp_sys wp_note_call wp_bind)
  qed
qed

end
