(* ===== verification/Client_Io.thy ===== *)
theory Client_Io imports Broker_Io Broker_Listener begin

unbundle bit_operations_syntax

text \<open>
  How the PHP extension talks to the broker: the message layer and
  \<open>ahe_broker_connect\<close> of \<^verbatim>\<open>src/ahe_broker_client.c\<close>. Calls block, are retried while
  interrupted, and time out after a second. A received message may carry descriptors; the
  theorems show that every one of them ends up with the caller or closed.
\<close>

section \<open>Sending\<close>

definition ahe_client_send_message :: "fd \<Rightarrow> ahe_broker_message \<Rightarrow> (world, int) state" where
  "ahe_client_send_message socket_fd message = do {
     r \<leftarrow> sys_retry (Sendmsg socket_fd (encode_message message) []) interrupted;
     ret (if r_ret r = int MESSAGE_SIZE then 0 else -1)
   }"

section \<open>Receiving\<close>

primrec close_all :: "fd list \<Rightarrow> (world, unit) state" where
  "close_all [] = ret ()"
| "close_all (f # fs) = do {_ \<leftarrow> close_fd f; close_all fs}"

text \<open>The entries that hold a descriptor; the caller's array is overwritten with \<open>-1\<close>.\<close>

definition ahe_broker_close_received_fds :: "fd list \<Rightarrow> (world, unit) state" where
  "ahe_broker_close_received_fds fds = close_all (filter (\<lambda>f. f \<ge> 0) fds)"

text \<open>\<open>CMSG_LEN(0)\<close> and \<open>sizeof(int)\<close>.\<close>

abbreviation CMSG_HEADER :: nat where "CMSG_HEADER \<equiv> 16"

abbreviation INT_SIZE :: nat where "INT_SIZE \<equiv> 4"

text \<open>
  The loop over the control messages: collects descriptors, or closes what it has seen and
  fails when a message is malformed or brings more than there is room for.
\<close>

primrec collect_fds :: "cmsg list \<Rightarrow> nat \<Rightarrow> fd list \<Rightarrow> (world, fd list option) state" where
  "collect_fds [] fd_capacity fds = ret (Some fds)"
| "collect_fds (m # ms) fd_capacity fds =
     (if cmsg_level m \<noteq> SOL_SOCKET \<or> cmsg_type m \<noteq> SCM_RIGHTS \<or> cmsg_len m < CMSG_HEADER
      then collect_fds ms fd_capacity fds
      else
        let payload_size = cmsg_len m - CMSG_HEADER;
            supplied_fds = take (payload_size div INT_SIZE) (cmsg_fds m)
        in if payload_size mod INT_SIZE \<noteq> 0
             \<or> length fds + payload_size div INT_SIZE > fd_capacity
           then do {
             _ \<leftarrow> close_all supplied_fds;
             _ \<leftarrow> ahe_broker_close_received_fds fds;
             _ \<leftarrow> set_errno EPROTO;
             ret None
           }
           else collect_fds ms fd_capacity (fds @ supplied_fds))"

text \<open>The size of the control buffer, \<open>CMSG_SPACE(sizeof(int) * 2)\<close>.\<close>

abbreviation CONTROL_SIZE :: nat where "CONTROL_SIZE \<equiv> 24"

definition ahe_client_receive_message ::
  "fd \<Rightarrow> nat \<Rightarrow> (world, int \<times> ahe_broker_message \<times> fd list) state" where
  "ahe_client_receive_message socket_fd fd_capacity = do {
     r \<leftarrow> sys_retry (Recvmsg socket_fd MESSAGE_SIZE CONTROL_SIZE) interrupted;
     let received = recv_result MESSAGE_SIZE r;
     let message = decode_message (memcpy_into (zeroed MESSAGE_SIZE) (take MESSAGE_SIZE (r_data r)));
     if received < 0 then ret (-1, message, [])
     else do {
       collected \<leftarrow> collect_fds (r_ctl r) fd_capacity [];
       case collected of
         None \<Rightarrow> ret (-1, message, [])
       | Some fds \<Rightarrow>
           if received \<noteq> int MESSAGE_SIZE \<or> r_trunc r
             \<or> m_magic message \<noteq> AHE_BROKER_PROTOCOL_MAGIC
             \<or> m_version message \<noteq> AHE_BROKER_PROTOCOL_VERSION
           then do {
             _ \<leftarrow> ahe_broker_close_received_fds fds;
             _ \<leftarrow> set_errno EPROTO;
             ret (-1, message, [])
           }
           else ret (0, message, fds)
     }
   }"

section \<open>Connecting\<close>

abbreviation AHE_BROKER_IO_TIMEOUT_SECONDS :: nat where "AHE_BROKER_IO_TIMEOUT_SECONDS \<equiv> 1"

text \<open>
  A broker is trusted when it is a live process of the same user and the socket at the path
  is this user's, with mode 0600 (0x180; the mask 0777 is 0x1FF).
\<close>

definition private_socket :: "u32 \<Rightarrow> stat \<Rightarrow> bool" where
  "private_socket uid status \<longleftrightarrow> is_socket (st_mode status) \<and> st_uid status = uid \<and>
     st_mode status AND 0x1FF = 0x180"

abbreviation CREDENTIALS_SIZE :: nat where "CREDENTIALS_SIZE \<equiv> 12"

definition broker_rejected :: "u32 \<Rightarrow> reply \<Rightarrow> bool" where
  "broker_rejected uid r \<longleftrightarrow> r_ret r < 0 \<or> r_optlen r \<noteq> CREDENTIALS_SIZE
     \<or> cr_pid (r_cred r) \<le> 0 \<or> cr_uid (r_cred r) \<noteq> uid"

definition set_timeouts :: "fd \<Rightarrow> (world, bool) state" where
  "set_timeouts socket_fd = do {
     r \<leftarrow> sys (Setsockopt_timeo socket_fd ''SO_RCVTIMEO'' AHE_BROKER_IO_TIMEOUT_SECONDS);
     if r_ret r < 0 then ret False
     else do {
       r \<leftarrow> sys (Setsockopt_timeo socket_fd ''SO_SNDTIMEO'' AHE_BROKER_IO_TIMEOUT_SECONDS);
       ret (\<not> r_ret r < 0)
     }
   }"

definition verify_broker :: "fd \<Rightarrow> string \<Rightarrow> (world, bool) state" where
  "verify_broker socket_fd socket_path = do {
     uid \<leftarrow> geteuid;
     credentials \<leftarrow> sys (Getsockopt_peercred socket_fd);
     if broker_rejected uid credentials then ret False
     else do {
       status \<leftarrow> sys (Lstat socket_path);
       ret (\<not> (r_ret status < 0 \<or> \<not> private_socket uid (r_stat status)))
     }
   }"

definition ahe_broker_connect :: "string \<Rightarrow> (world, fd) state" where
  "ahe_broker_connect socket_path =
     (if socket_path = [] \<or> length socket_path \<ge> SUN_PATH_SIZE
      then do {set_errno ENAMETOOLONG; ret (-1)}
      else do {
        r \<leftarrow> sys (Socket False);
        let socket_fd = r_ret r;
        if socket_fd < 0 then ret (-1)
        else do {
          limited \<leftarrow> set_timeouts socket_fd;
          if \<not> limited then do {close_fd socket_fd; ret (-1)}
          else do {
            r \<leftarrow> sys (Connect socket_fd socket_path);
            if r_ret r < 0 then do {close_fd socket_fd; ret (-1)}
            else do {
              trusted \<leftarrow> verify_broker socket_fd socket_path;
              if \<not> trusted then do {close_fd socket_fd; set_errno EPERM; ret (-1)}
              else ret socket_fd
            }
          }
        }
      })"

section \<open>No descriptor is lost in a message\<close>

lemma extending_close_all [extends_intros]: "extending (close_all fds)"
  by (induction fds) (auto intro!: extends_intros)

lemma extending_close_received_fds [extends_intros]: "extending (ahe_broker_close_received_fds fds)"
  by (simp add: ahe_broker_close_received_fds_def extending_close_all)

lemma extending_collect_fds [extends_intros]: "extending (collect_fds ms cap fds)"
  by (induction ms arbitrary: fds) (auto simp: Let_def intro!: extends_intros)

lemma wp_close_all:
  assumes "\<And>w'. \<lbrakk>quiet w w'; \<And>F. holds (mset fds + F) w \<Longrightarrow> holds F w'; w_errno w' = w_errno w\<rbrakk> \<Longrightarrow> Q () w'"
  shows "wp (close_all fds) Q w"
  using assms
proof (induction fds arbitrary: w)
  case Nil
  then show ?case by (simp add: wp_rules)
next
  case (Cons f fs)
  have "wp (close_all fs) Q (noted (Close f) w)"
  proof (rule Cons.IH, rule Cons.prems)
    fix w' assume q: "quiet (noted (Close f) w) w'"
      and h: "\<And>F. holds (mset fs + F) (noted (Close f) w) \<Longrightarrow> holds F w'"
      and e: "w_errno w' = w_errno (noted (Close f) w)"
    show "quiet w w'" by (rule quiet_trans [OF _ q]) (auto intro: quiet_intros)
    show "holds F w'" if "holds (mset (f # fs) + F) w" for F
      by (rule h, rule holds_close [where f = f and w = w and r = "returned 0"]) (use that in auto)
    show "w_errno w' = w_errno w" using e by simp
  qed
  then show ?case by (simp add: wp_rules)
qed

lemma holds_mset_nonneg:
  assumes "holds (mset fds + F) w" and "kernel_ok (history w)"
  shows "filter (\<lambda>f. f \<ge> 0) fds = fds"
proof -
  have "0 \<le> f" if f: "f \<in> set fds" for f
  proof -
    from f have "f \<in># mset fds" by simp
    then obtain M where "mset fds = add_mset f M" by (metis mset_add)
    with assms holds_nonneg [of f "M + F" w] show ?thesis by simp
  qed
  then show ?thesis by simp
qed

lemma wp_close_received_fds:
  assumes "\<And>w'. \<lbrakk>quiet w w'; \<And>F. holds (mset fds + F) w \<Longrightarrow> holds F w'; w_errno w' = w_errno w\<rbrakk> \<Longrightarrow> Q () w'"
  shows "wp (ahe_broker_close_received_fds fds) Q w"
proof -
  have "wp (close_all (filter (\<lambda>f. f \<ge> 0) fds))
    (\<lambda>_ w'. extends w w' \<and> (quiet w w' \<and> w_errno w' = w_errno w \<and>
      (\<forall>F. holds (mset (filter (\<lambda>f. f \<ge> 0) fds) + F) w \<longrightarrow> holds F w'))) w"
    by (rule wp_conjI [OF wp_extending [OF extending_close_all]], rule wp_close_all) blast
  then show ?thesis
    unfolding ahe_broker_close_received_fds_def
  proof (rule wp_mono, elim conjE)
    fix u :: unit and w'
    assume x: "extends w w'" and q: "quiet w w'" and e: "w_errno w' = w_errno w"
      and h: "\<forall>F. holds (mset (filter (\<lambda>f. f \<ge> 0) fds) + F) w \<longrightarrow> holds F w'"
    have "holds F w'" if "holds (mset fds + F) w" for F
    proof (cases "kernel_ok (history w)")
      case True
      with h that holds_mset_nonneg [OF that True] show ?thesis by metis
    next
      case False
      then show ?thesis using x by (rule holds_vacuous)
    qed
    with assms q e show "Q u w'" by simp
  qed
qed

text \<open>What the kernel guarantees of the control messages of one answer.\<close>

definition control_ok :: "cmsg list \<Rightarrow> bool" where
  "control_ok ms \<longleftrightarrow> length (filter is_rights ms) \<le> 1 \<and>
     (\<forall>m \<in> set ms. is_rights m \<longrightarrow> cmsg_len m = CMSG_HEADER + INT_SIZE * length (cmsg_fds m))"

lemma rights_fds_simps [simp]:
  "rights_fds [] = []"
  "rights_fds (m # ms) = (if is_rights m then cmsg_fds m @ rights_fds ms else rights_fds ms)"
  by (simp_all add: rights_fds_def)

lemma rights_fds_none: "filter is_rights ms = [] \<Longrightarrow> rights_fds ms = []"
  by (simp add: rights_fds_def)

lemma wp_collect_fds:
  assumes "control_ok ms"
    and "\<And>w'. \<lbrakk>quiet w w'; \<And>F. holds (mset fds + mset (rights_fds ms) + F) w \<Longrightarrow> holds F w';
      w_errno w' = EPROTO\<rbrakk> \<Longrightarrow> Q None w'"
    and "length (fds @ rights_fds ms) \<le> cap \<or> rights_fds ms = [] \<Longrightarrow> Q (Some (fds @ rights_fds ms)) w"
  shows "wp (collect_fds ms cap fds) Q w"
  using assms
proof (induction ms arbitrary: fds)
  case Nil
  then show ?case by (simp add: wp_rules)
next
  case (Cons m ms)
  show ?case
  proof (cases "is_rights m")
    case False
    then have "cmsg_level m \<noteq> SOL_SOCKET \<or> cmsg_type m \<noteq> SCM_RIGHTS" by (simp add: is_rights_def)
    moreover have "wp (collect_fds ms cap fds) Q w"
      by (rule Cons.IH) (use Cons.prems False in \<open>auto simp: control_ok_def\<close>)
    ultimately show ?thesis by (auto simp: wp_rules)
  next
    case True
    have len: "cmsg_len m = CMSG_HEADER + INT_SIZE * length (cmsg_fds m)"
      using Cons.prems(1) True by (simp add: control_ok_def)
    have one: "filter is_rights ms = []" using Cons.prems(1) True by (simp add: control_ok_def)
    have cont: "wp (collect_fds ms cap (fds @ cmsg_fds m)) Q w"
      if "length fds + length (cmsg_fds m) \<le> cap"
      by (rule Cons.IH) (use Cons.prems True one that in \<open>auto simp: control_ok_def rights_fds_none\<close>)
    have reject: "wp (do {
        _ \<leftarrow> close_all (cmsg_fds m);
        _ \<leftarrow> ahe_broker_close_received_fds fds;
        _ \<leftarrow> set_errno EPROTO;
        ret None
      }) Q w"
      unfolding wp_rules
    proof (rule wp_close_all, rule wp_close_received_fds)
      fix w1 w2
      assume "quiet w w1" "quiet w1 w2"
        and h1: "\<And>F. holds (mset (cmsg_fds m) + F) w \<Longrightarrow> holds F w1"
        and h2: "\<And>F. holds (mset fds + F) w1 \<Longrightarrow> holds F w2"
      then show "Q None (with_errno EPROTO w2)"
        using True one
        by (intro Cons.prems(2)) (auto simp: rights_fds_none ac_simps intro: quiet_trans quiet_errno)
    qed
    from True have "cmsg_level m = SOL_SOCKET" "cmsg_type m = SCM_RIGHTS" by (simp_all add: is_rights_def)
    with len cont reject show ?thesis by (auto simp: Let_def not_less)
  qed
qed

text \<open>The caller's array is never overrun, whatever the peer and the kernel supply.\<close>

definition fits_in :: "nat \<Rightarrow> fd list option \<Rightarrow> bool" where
  "fits_in cap c \<longleftrightarrow> (case c of None \<Rightarrow> True | Some fds \<Rightarrow> length fds \<le> cap)"

lemma wp_collect_fds_bounded:
  "length fds \<le> cap \<Longrightarrow> wp (collect_fds ms cap fds) (\<lambda>c w'. quiet w w' \<and> fits_in cap c) w"
proof (induction ms arbitrary: fds)
  case Nil
  then show ?case by (simp add: wp_rules fits_in_def)
next
  case (Cons m ms)
  let ?supplied = "take ((cmsg_len m - CMSG_HEADER) div INT_SIZE) (cmsg_fds m)"
  have reject: "wp (do {
      _ \<leftarrow> close_all ?supplied;
      _ \<leftarrow> ahe_broker_close_received_fds fds;
      _ \<leftarrow> set_errno EPROTO;
      ret None
    }) (\<lambda>c w'. quiet w w' \<and> fits_in cap c) w"
    unfolding wp_rules
    by (rule wp_close_all, rule wp_close_received_fds)
      (auto simp: fits_in_def intro: quiet_trans quiet_errno)
  have skip: "wp (collect_fds ms cap fds) (\<lambda>c w'. quiet w w' \<and> fits_in cap c) w"
    using Cons.prems by (rule Cons.IH)
  have more: "wp (collect_fds ms cap (fds @ ?supplied)) (\<lambda>c w'. quiet w w' \<and> fits_in cap c) w"
    if "length fds + (cmsg_len m - CMSG_HEADER) div INT_SIZE \<le> cap"
    using that by (intro Cons.IH) simp
  show ?case
    using reject skip more by (simp only: collect_fds.simps Let_def wp_if) (simp add: not_less)
qed

lemma wp_client_send_message:
  assumes "\<And>res w'. \<lbrakk>res = 0 \<or> res = -1; \<And>F. holds F w \<Longrightarrow> holds F w';
      sends (history w') = insert (f, encode_message message, []) (sends (history w));
      extends w w'\<rbrakk> \<Longrightarrow> Q res w'"
  shows "wp (ahe_client_send_message f message) Q w"
proof -
  let ?c = "Sendmsg f (encode_message message) []"
  have "wp (sys_retry ?c interrupted)
    (\<lambda>r w'. extends w w' \<and> Q (if r_ret r = int MESSAGE_SIZE then 0 else -1) w') w"
  proof (rule wp_conjI [OF wp_extending [OF extending_sys_retry], THEN wp_mono])
    show "wp (sys_retry ?c interrupted) (retry_post ?c interrupted w) w"
      by (rule wp_sys_retry) simp_all
  next
    fix r w'
    assume "extends w w' \<and> retry_post ?c interrupted w r w'"
    then have x: "extends w w'" and p: "retry_post ?c interrupted w r w'" by simp_all
    have "Q (if r_ret r = int MESSAGE_SIZE then 0 else -1) w'"
    proof (rule assms)
      show "holds F w'" if "holds F w" for F
        by (rule holds_retry_none [OF p that]) simp
      show "sends (history w') = insert (f, encode_message message, []) (sends (history w))"
        using retry_post_sends [OF p] by simp
    qed (use x in auto)
    with x show "extends w w' \<and> Q (if r_ret r = int MESSAGE_SIZE then 0 else -1) w'" by simp
  qed
  then show ?thesis
    unfolding ahe_client_send_message_def wp_rules by (rule wp_mono) simp
qed

text \<open>\<open>heard f m w w'\<close>: between \<open>w\<close> and \<open>w'\<close>, the acceptable message \<open>m\<close> came in on \<open>f\<close>.\<close>

definition heard :: "fd \<Rightarrow> ahe_broker_message \<Rightarrow> world \<Rightarrow> world \<Rightarrow> bool" where
  "heard f m w w' \<longleftrightarrow> (\<exists>r. (Recvmsg f MESSAGE_SIZE CONTROL_SIZE, r) \<in> since w w' \<and>
     message_accepted (take MESSAGE_SIZE (r_data r)) \<and>
     m = decode_message (take MESSAGE_SIZE (r_data r)))"

lemma heard_accepted: "heard f m w w' \<Longrightarrow> \<exists>bs. m = decode_message bs \<and> message_accepted bs"
  by (auto simp: heard_def)

lemma heard_extends: "heard f m w1 w2 \<Longrightarrow> extends w w1 \<Longrightarrow> extends w2 w' \<Longrightarrow> heard f m w w'"
  unfolding heard_def by (blast intro: since_extends)

text \<open>
  Receiving: the caller gets every descriptor that came with an acceptable message and
  none that came with another; nothing goes out.
\<close>

lemma wp_client_receive_message:
  assumes post: "\<And>res m fds w'. \<lbrakk>quiet w w'; \<And>F. holds F w \<Longrightarrow> holds (mset fds + F) w';
      length fds \<le> cap; res = 0 \<or> res = -1 \<and> fds = [];
      res = 0 \<Longrightarrow> heard f m w w'\<rbrakk> \<Longrightarrow> Q (res, m, fds) w'"
  shows "wp (ahe_client_receive_message f cap) Q w"
proof -
  let ?c = "Recvmsg f MESSAGE_SIZE CONTROL_SIZE"
  let ?m = "\<lambda>r. decode_message (memcpy_into (zeroed MESSAGE_SIZE) (take MESSAGE_SIZE (r_data r)))"
  let ?rest = "\<lambda>r c. case c of
       None \<Rightarrow> ret (-1, ?m r, [])
     | Some fds \<Rightarrow>
         if recv_result MESSAGE_SIZE r \<noteq> int MESSAGE_SIZE \<or> r_trunc r
           \<or> m_magic (?m r) \<noteq> AHE_BROKER_PROTOCOL_MAGIC
           \<or> m_version (?m r) \<noteq> AHE_BROKER_PROTOCOL_VERSION
         then do {
           _ \<leftarrow> ahe_broker_close_received_fds fds;
           _ \<leftarrow> set_errno EPROTO;
           ret (-1, ?m r, [])
         }
         else ret (0, ?m r, fds)"
  have collect: "wp (do {c \<leftarrow> collect_fds (r_ctl r) cap []; ?rest r c}) Q w1"
    if q1: "quiet w w1" and nn: "\<not> recv_result MESSAGE_SIZE r < 0"
      and h1: "\<And>F. holds F w \<Longrightarrow> holds (mset (rights_fds (r_ctl r)) + F) w1"
      and k1: "kernel_ok (history w1) \<Longrightarrow> control_ok (r_ctl r)"
      and in1: "history w1 = h @ history w" "(?c, r) \<in> set h" for r w1 h
  proof -
    have acc: "message_accepted (take MESSAGE_SIZE (r_data r)) \<and>
        ?m r = decode_message (take MESSAGE_SIZE (r_data r))"
      if "recv_result MESSAGE_SIZE r = int MESSAGE_SIZE" "m_magic (?m r) = AHE_BROKER_PROTOCOL_MAGIC"
        "m_version (?m r) = AHE_BROKER_PROTOCOL_VERSION"
      using that by (auto simp: message_accepted_def recv_result_def memcpy_into_def zeroed_def split: if_splits)
    let ?P = "\<lambda>c w2. extends w1 w2 \<and> quiet w w2 \<and> fits_in cap c \<and>
      (\<forall>F. holds F w \<longrightarrow> holds (mset (case c of None \<Rightarrow> [] | Some fds \<Rightarrow> fds) + F) w2)"
    let ?H = "\<lambda>c w2. \<forall>F. holds F w \<longrightarrow> holds (mset (case c of None \<Rightarrow> [] | Some fds \<Rightarrow> fds) + F) w2"
    have "wp (collect_fds (r_ctl r) cap []) ?H w1"
    proof (cases "control_ok (r_ctl r)")
      case True
      show ?thesis by (rule wp_collect_fds [OF True]) (use h1 in auto)
    next
      case False
      then have nk: "\<not> kernel_ok (history w1)" using k1 by blast
      show ?thesis
        by (rule wp_mono [OF wp_extending [OF extending_collect_fds]]) (use nk in \<open>auto intro: holds_vacuous\<close>)
    qed
    from wp_conjI [OF wp_extending [OF extending_collect_fds]
        wp_conjI [OF this wp_collect_fds_bounded [where fds = "[]"]]]
    have "wp (collect_fds (r_ctl r) cap []) ?P w1"
      by (rule wp_mono) (use q1 in \<open>auto intro: quiet_trans\<close>)
    then show ?thesis
    proof (rule wp_seq, elim conjE)
      fix c w2
      assume x2: "extends w1 w2" and q2: "quiet w w2" and l: "fits_in cap c" and h2: "?H c w2"
      show "wp (?rest r c) Q w2"
      proof (cases c)
        case None
        with q2 h2 show ?thesis by (auto simp: wp_rules intro!: post)
      next
        case (Some fds)
        have "wp (ahe_broker_close_received_fds fds)
            (\<lambda>_. wp (do {_ \<leftarrow> set_errno EPROTO; ret (-1, ?m r, [])}) Q) w2"
          by (rule wp_close_received_fds)
            (use q2 h2 Some in \<open>auto simp: wp_rules intro!: post quiet_errno intro: quiet_trans\<close>)
        moreover have "Q (0, ?m r, fds) w2"
          if "recv_result MESSAGE_SIZE r = int MESSAGE_SIZE" "m_magic (?m r) = AHE_BROKER_PROTOCOL_MAGIC"
            "m_version (?m r) = AHE_BROKER_PROTOCOL_VERSION"
        proof (rule post)
          from x2 in1 obtain h' where "history w2 = (h' @ h) @ history w" by (auto simp: extends_def)
          with in1(2) have "(?c, r) \<in> since w w2" by (simp add: since_append)
          with acc [OF that] show "heard f (?m r) w w2" by (auto simp: heard_def)
        qed (use q2 h2 l Some in \<open>auto simp: fits_in_def\<close>)
        ultimately show ?thesis by (simp add: Some wp_rules)
      qed
    qed
  qed
  have "wp (sys_retry ?c interrupted) (\<lambda>r. wp (
      if recv_result MESSAGE_SIZE r < 0 then ret (-1, ?m r, [])
      else do {c \<leftarrow> collect_fds (r_ctl r) cap []; ?rest r c}) Q) w"
  proof (rule wp_sys_retry)
    fix r w1
    assume p: "retry_post ?c interrupted w r w1"
    obtain h where in1: "history w1 = h @ history w" "(?c, r) \<in> set h"
      using p by (fastforce simp: retry_post_def)
    have q: "quiet w w1"
      using p retry_post_sends [OF p] retry_post_recvs [OF p] by (auto simp: quiet_def retry_post_def)
    have h: "holds (mset (opened (?c, r)) + F) w1" if "holds F w" for F
      by (rule holds_retry [OF p _ that]) simp_all
    have k: "control_ok (r_ctl r)" if "kernel_ok (history w1)"
      using retry_post_fds(3) [OF p _ that] by (auto simp: control_ok_def)
    show "wp (if recv_result MESSAGE_SIZE r < 0 then ret (-1, ?m r, [])
        else do {c \<leftarrow> collect_fds (r_ctl r) cap []; ?rest r c}) Q w1"
    proof (cases "r_ret r < 0")
      case True
      then show ?thesis using q h by (auto simp: wp_rules recv_result_def intro!: post)
    next
      case False
      have n: "\<not> recv_result MESSAGE_SIZE r < 0" using False by (simp add: recv_result_def)
      have hr: "holds (mset (rights_fds (r_ctl r)) + F) w1" if "holds F w" for F
        using h [OF that] False by simp
      show ?thesis unfolding if_not_P [OF n] by (rule collect [OF q n hr k in1])
    qed
  qed simp
  then show ?thesis
    unfolding ahe_client_receive_message_def Let_def wp_bind .
qed

text \<open>
  A connection in hand: the process at the other end and the socket's own file were both
  found to be this user's, before anything was sent.
\<close>

definition broker_trusted :: "string \<Rightarrow> fd \<Rightarrow> world \<Rightarrow> world \<Rightarrow> bool" where
  "broker_trusted path f w w' \<longleftrightarrow> (\<exists>c s.
     (Getsockopt_peercred f, c) \<in> since w w' \<and> \<not> broker_rejected (euid w) c \<and>
     (Lstat path, s) \<in> since w w' \<and> 0 \<le> r_ret s \<and> private_socket (euid w) (r_stat s))"

lemma broker_trusted_extends:
  "broker_trusted path f w1 w2 \<Longrightarrow> extends w w1 \<Longrightarrow> extends w2 w' \<Longrightarrow> broker_trusted path f w w'"
proof -
  assume t: "broker_trusted path f w1 w2" and x: "extends w w1" "extends w2 w'"
  have "euid w1 = euid w" using x(1) by (simp add: extends_def)
  with t x show "broker_trusted path f w w'"
    unfolding broker_trusted_def by (auto intro: since_extends)
qed

lemma extending_set_timeouts [extends_intros]: "extending (set_timeouts f)"
  unfolding set_timeouts_def by (intro extends_intros)

lemma wp_set_timeouts: "wp (set_timeouts f) (\<lambda>_ w'. quiet w w' \<and> (\<forall>F. holds F w \<longrightarrow> holds F w')) w"
  unfolding set_timeouts_def wp_rules by (auto intro!: quiet_intros holds_none_intros)

lemma wp_verify_broker:
  "wp (verify_broker f path) (\<lambda>ok w'. quiet w w' \<and> (\<forall>F. holds F w \<longrightarrow> holds F w') \<and>
     (ok \<longrightarrow> broker_trusted path f w w')) w"
proof -
  let ?c = "next_reply w" and ?w1 = "answered (Getsockopt_peercred f) (next_reply w) w"
  let ?w2 = "answered (Lstat path) (next_reply ?w1) ?w1"
  have "since w ?w2 = {(Lstat path, next_reply ?w1), (Getsockopt_peercred f, ?c)}"
    by (subst since_append [where h = "[(Lstat path, next_reply ?w1), (Getsockopt_peercred f, ?c)]"]) simp_all
  then have t: "broker_trusted path f w ?w2"
    if "\<not> broker_rejected (euid w) ?c" "\<not> r_ret (next_reply ?w1) < 0"
      "private_socket (euid w) (r_stat (next_reply ?w1))"
    unfolding broker_trusted_def
    by (intro exI [of _ ?c] exI [of _ "next_reply ?w1"]) (use that \<open>since w ?w2 = _\<close> in simp)
  have q: "quiet w ?w1" "quiet w ?w2" by (intro quiet_intros; simp)+
  have h: "holds F ?w1" "holds F ?w2" if "holds F w" for F
    using that by (auto intro!: holds_none_intros)
  show ?thesis
    unfolding verify_broker_def wp_rules using t q h by (auto simp del: answered_simps(5))
qed

lemma wp_connect:
  assumes ok: "\<And>f w'. \<lbrakk>0 \<le> f; quiet w w'; \<And>F. holds F w \<Longrightarrow> holds (add_mset f F) w';
      broker_trusted path f w w'\<rbrakk> \<Longrightarrow> Q f w'"
    and err: "\<And>w'. \<lbrakk>quiet w w'; \<And>F. holds F w \<Longrightarrow> holds F w'\<rbrakk> \<Longrightarrow> Q (-1) w'"
  shows "wp (ahe_broker_connect path) Q w"
proof (cases "path = [] \<or> length path \<ge> SUN_PATH_SIZE")
  case True
  then show ?thesis by (auto simp: ahe_broker_connect_def wp_rules intro!: err quiet_intros)
next
  case False
  let ?w1 = "answered (Socket False) (next_reply w) w" and ?f = "r_ret (next_reply w)"
  have q1: "quiet w ?w1" by (intro quiet_intros) simp_all
  show ?thesis
  proof (cases "?f < 0")
    case True
    have "holds F ?w1" if "holds F w" for F
      using that True by (rule holds_answered_failed) simp
    then have "Q (-1) ?w1" by (rule err [OF q1])
    with False True show ?thesis by (simp add: ahe_broker_connect_def wp_rules)
  next
    case nn: False
    have drop: "Q (-1) (noted (Close ?f) w2)" "Q (-1) (with_errno e (noted (Close ?f) w2))"
      if "quiet w w2" "\<And>F. holds F w \<Longrightarrow> holds (add_mset ?f F) w2" for w2 e
    proof -
      have h: "holds F (noted (Close ?f) w2)" if "holds F w" for F
        by (rule holds_close [OF \<open>\<And>F. holds F w \<Longrightarrow> holds (add_mset ?f F) w2\<close> [OF that]]) simp
      then show "Q (-1) (noted (Close ?f) w2)" "Q (-1) (with_errno e (noted (Close ?f) w2))"
        using that(1) by (auto intro!: err quiet_intros)
    qed
    have h1: "holds (add_mset ?f F) ?w1" if "holds F w" for F
      using holds_answered_one [OF that, of "Socket False" "next_reply w"] nn by (simp add: fd_mset_nonneg)
    have verify: "wp (do {
        r \<leftarrow> sys (Connect ?f path);
        if r_ret r < 0 then do {close_fd ?f; ret (-1)}
        else do {
          trusted \<leftarrow> verify_broker ?f path;
          if \<not> trusted then do {close_fd ?f; set_errno EPERM; ret (-1)} else ret ?f
        }
      }) Q w2" if x2: "extends w w2" and q2: "quiet w w2"
        and h2: "\<And>F. holds F w \<Longrightarrow> holds (add_mset ?f F) w2" for w2
    proof -
      let ?w3 = "answered (Connect ?f path) (next_reply w2) w2"
      have x3: "extends w ?w3" by (rule extends_answered [OF x2])
      have q3: "quiet w ?w3" using q2 by (intro quiet_intros) simp_all
      have h3: "holds (add_mset ?f F) ?w3" if "holds F w" for F
        by (rule holds_answered_none [OF h2 [OF that]]) simp
      have "wp (do {
          trusted \<leftarrow> verify_broker ?f path;
          if \<not> trusted then do {close_fd ?f; set_errno EPERM; ret (-1)} else ret ?f
        }) Q ?w3"
      proof (rule wp_seq [OF wp_verify_broker], elim conjE)
        fix trusted w4
        assume v: "quiet ?w3 w4" "\<forall>F. holds F ?w3 \<longrightarrow> holds F w4"
          "trusted \<longrightarrow> broker_trusted path ?f ?w3 w4"
        have q4: "quiet w w4" using q3 v(1) by (rule quiet_trans)
        show "wp (if \<not> trusted then do {close_fd ?f; set_errno EPERM; ret (-1)} else ret ?f) Q w4"
          using v h3 nn q4 drop(2) [OF q4] broker_trusted_extends [OF _ x3 extends_refl]
          by (auto simp: wp_rules intro!: ok)
      qed
      with drop(1) [OF q3 h3] show ?thesis by (simp add: wp_rules)
    qed
    have "wp (do {
        limited \<leftarrow> set_timeouts ?f;
        if \<not> limited then do {close_fd ?f; ret (-1)}
        else do {
          r \<leftarrow> sys (Connect ?f path);
          if r_ret r < 0 then do {close_fd ?f; ret (-1)}
          else do {
            trusted \<leftarrow> verify_broker ?f path;
            if \<not> trusted then do {close_fd ?f; set_errno EPERM; ret (-1)} else ret ?f
          }
        }
      }) Q ?w1"
    proof (rule wp_seq [OF wp_conjI [OF wp_extending [OF extending_set_timeouts] wp_set_timeouts]], elim conjE)
      fix limited w2
      assume x: "extends ?w1 w2" and s: "quiet ?w1 w2" "\<forall>F. holds F ?w1 \<longrightarrow> holds F w2"
      have x2: "extends w w2" by (rule extends_trans [OF extends_answered [OF extends_refl] x])
      have q2: "quiet w w2" using q1 s(1) by (rule quiet_trans)
      have h2: "holds (add_mset ?f F) w2" if "holds F w" for F using h1 [OF that] s(2) by blast
      show "wp (if \<not> limited then do {close_fd ?f; ret (-1)}
          else do {
            r \<leftarrow> sys (Connect ?f path);
            if r_ret r < 0 then do {close_fd ?f; ret (-1)}
            else do {
              trusted \<leftarrow> verify_broker ?f path;
              if \<not> trusted then do {close_fd ?f; set_errno EPERM; ret (-1)} else ret ?f
            }
          }) Q w2"
        using verify [OF x2 q2 h2] drop(1) [OF q2 h2] by (cases limited) (simp_all add: wp_rules)
    qed
    with False nn show ?thesis
      by (simp add: ahe_broker_connect_def wp_sys wp_bind Let_def)
  qed
qed

end
