(* ===== verification/Client_Ops.thy ===== *)
theory Client_Ops imports Client_Io begin

unbundle bit_operations_syntax

text \<open>
  The extension's side of the broker connection: \<open>ahe_broker_client\<close> of
  \<^verbatim>\<open>src/ahe_broker_client.c\<close>, from acquiring the cache to shutting down, one
  definition per function and per stretch of \<open>ahe_broker_client_acquire\<close>.
\<close>

section \<open>State and interface values\<close>

record ahe_broker_client =
  k_socket_fd :: fd
  k_cache_fd :: fd
  k_lock_fd :: fd
  k_mapping :: u64
  k_mapping_size :: usize
  k_segment_allocation :: u64
  k_creator :: bool
  k_reattached :: bool
  k_acquired :: bool
  k_ready :: bool
  k_timed_out :: bool

definition AHE_BROKER_CLIENT_INITIALIZER :: ahe_broker_client where
  "AHE_BROKER_CLIENT_INITIALIZER = \<lparr>k_socket_fd = -1, k_cache_fd = -1, k_lock_fd = -1,
     k_mapping = 0, k_mapping_size = 0, k_segment_allocation = 0, k_creator = False,
     k_reattached = False, k_acquired = False, k_ready = False, k_timed_out = False\<rparr>"

text \<open>The results OPcache's shared-memory provider interface defines.\<close>

abbreviation ZEND_OPCACHE_SHM_PROVIDER_SUCCESS :: int where
  "ZEND_OPCACHE_SHM_PROVIDER_SUCCESS \<equiv> 0"

abbreviation ZEND_OPCACHE_SHM_PROVIDER_FAILURE :: int where
  "ZEND_OPCACHE_SHM_PROVIDER_FAILURE \<equiv> -1"

abbreviation ZEND_OPCACHE_SHM_ALLOC_FAILURE :: int where
  "ZEND_OPCACHE_SHM_ALLOC_FAILURE \<equiv> 0"

abbreviation ZEND_OPCACHE_SHM_ALLOC_SUCCESS :: int where
  "ZEND_OPCACHE_SHM_ALLOC_SUCCESS \<equiv> 1"

abbreviation ZEND_OPCACHE_SHM_SUCCESSFULLY_REATTACHED :: int where
  "ZEND_OPCACHE_SHM_SUCCESSFULLY_REATTACHED \<equiv> 4"

record ahe_opcache_shm_segment =
  seg_size :: usize
  seg_end :: usize
  seg_pos :: usize
  seg_p :: u64

text \<open>
  What \<open>ahe_broker_client_acquire\<close> writes through its pointer arguments: the allocation that
  holds the segment array (0 when unset), the one segment in it, the count, the address of
  the shared globals (0 when unset) and the error.
\<close>

record segment_outputs =
  out_segments :: u64
  out_segment :: ahe_opcache_shm_segment
  out_count :: int
  out_globals :: u64
  out_error :: "string option"

section \<open>Releasing and exchanging\<close>

definition ahe_broker_client_close_descriptors ::
  "ahe_broker_client \<Rightarrow> (world, ahe_broker_client) state" where
  "ahe_broker_client_close_descriptors client = do {
     _ \<leftarrow> (if k_cache_fd client \<ge> 0 then close_fd (k_cache_fd client) else ret ());
     let client = (if k_cache_fd client \<ge> 0 then client\<lparr>k_cache_fd := -1\<rparr> else client);
     _ \<leftarrow> (if k_lock_fd client \<ge> 0 then close_fd (k_lock_fd client) else ret ());
     let client = (if k_lock_fd client \<ge> 0 then client\<lparr>k_lock_fd := -1\<rparr> else client);
     _ \<leftarrow> (if k_socket_fd client \<ge> 0 then close_fd (k_socket_fd client) else ret ());
     let client = (if k_socket_fd client \<ge> 0 then client\<lparr>k_socket_fd := -1\<rparr> else client);
     ret client
   }"

text \<open>\<open>ahe_broker_send_message(...) < 0 || ahe_broker_receive_message(...) < 0\<close>.\<close>

definition exchange ::
  "fd \<Rightarrow> ahe_broker_message \<Rightarrow> nat \<Rightarrow> (world, int \<times> ahe_broker_message \<times> fd list) state" where
  "exchange socket_fd request fd_capacity = do {
     sent \<leftarrow> ahe_client_send_message socket_fd request;
     if sent < 0 then ret (-1, request, [])
     else ahe_client_receive_message socket_fd fd_capacity
   }"

section \<open>Acquiring the cache\<close>

text \<open>\<open>sizeof(void *) + sizeof(ahe_opcache_shm_segment_v1)\<close>.\<close>

abbreviation SEGMENT_ALLOCATION_SIZE :: nat where "SEGMENT_ALLOCATION_SIZE \<equiv> 40"

definition ahe_broker_allocate_segment ::
  "ahe_broker_client \<Rightarrow> segment_outputs
     \<Rightarrow> (world, int \<times> ahe_broker_client \<times> segment_outputs) state" where
  "ahe_broker_allocate_segment client outputs = do {
     r \<leftarrow> sys (Calloc SEGMENT_ALLOCATION_SIZE);
     if r_addr r = 0 then ret (-1, client, outputs)
     else ret (0, client\<lparr>k_segment_allocation := r_addr r\<rparr>,
       outputs\<lparr>out_segments := r_addr r, out_count := 1,
         out_segment := \<lparr>seg_size = k_mapping_size client, seg_end = k_mapping_size client,
           seg_pos = 0, seg_p = k_mapping client\<rparr>\<rparr>)
   }"

definition acquire_failed ::
  "string \<Rightarrow> ahe_broker_client \<Rightarrow> segment_outputs
     \<Rightarrow> (world, int \<times> ahe_broker_client \<times> segment_outputs) state" where
  "acquire_failed error client outputs = do {
     client \<leftarrow> ahe_broker_client_close_descriptors client;
     ret (ZEND_OPCACHE_SHM_ALLOC_FAILURE, client, outputs\<lparr>out_error := Some error\<rparr>)
   }"

abbreviation MAP_SHARED :: u32 where "MAP_SHARED \<equiv> 0x01"

abbreviation MAP_FIXED_NOREPLACE :: u32 where "MAP_FIXED_NOREPLACE \<equiv> 0x100000"

abbreviation MAP_FAILED :: u64 where "MAP_FAILED \<equiv> 0xFFFFFFFFFFFFFFFF"

definition acquire_completed ::
  "ahe_broker_client \<Rightarrow> ahe_broker_message \<Rightarrow> segment_outputs \<Rightarrow> int \<times> ahe_broker_client \<times> segment_outputs"
where
  "acquire_completed client response outputs =
     (let client = client\<lparr>k_creator := m_type response = AHE_BROKER_CREATE,
            k_reattached := m_type response = AHE_BROKER_ATTACH, k_acquired := True\<rparr>
      in if k_reattached client
         then (ZEND_OPCACHE_SHM_SUCCESSFULLY_REATTACHED, client,
           outputs\<lparr>out_globals := k_mapping client + m_shared_globals_offset response\<rparr>)
         else (ZEND_OPCACHE_SHM_ALLOC_SUCCESS, client, outputs))"

text \<open>From the \<open>mmap\<close> on: \<open>requested_address\<close> is 0 for the creator.\<close>

definition map_cache ::
  "ahe_broker_client \<Rightarrow> ahe_broker_message \<Rightarrow> usize \<Rightarrow> u64 \<Rightarrow> u32 \<Rightarrow> segment_outputs
     \<Rightarrow> (world, int \<times> ahe_broker_client \<times> segment_outputs) state" where
  "map_cache client response requested_size requested_address mapping_flags outputs = do {
     mapped \<leftarrow> sys (Mmap requested_address requested_size mapping_flags (k_cache_fd client));
     let client = client\<lparr>k_mapping := r_addr mapped\<rparr>;
     if k_mapping client = MAP_FAILED
     then acquire_failed (if m_type response = AHE_BROKER_ATTACH
         then ''AHE cache address is unavailable'' else ''AHE cache mapping failed'')
       (client\<lparr>k_mapping := 0\<rparr>) outputs
     else if requested_address \<noteq> 0 \<and> k_mapping client \<noteq> requested_address
     then do {
       _ \<leftarrow> sys (Munmap (k_mapping client) requested_size);
       acquire_failed ''AHE cache mapped at the wrong address'' (client\<lparr>k_mapping := 0\<rparr>) outputs
     }
     else do {
       (allocated, client, outputs) \<leftarrow>
         ahe_broker_allocate_segment (client\<lparr>k_mapping_size := requested_size\<rparr>) outputs;
       if allocated < 0
       then do {
         _ \<leftarrow> sys (Munmap (k_mapping client) (k_mapping_size client));
         acquire_failed ''AHE segment allocation failed''
           (client\<lparr>k_mapping := 0, k_mapping_size := 0\<rparr>) outputs
       }
       else ret (acquire_completed client response outputs)
     }
   }"

definition response_invalid :: "ahe_broker_message \<Rightarrow> fd list \<Rightarrow> usize \<Rightarrow> bool" where
  "response_invalid response received_fds requested_size \<longleftrightarrow>
     length received_fds \<noteq> AHE_BROKER_DESCRIPTOR_COUNT
     \<or> m_mapping_size response \<noteq> requested_size
     \<or> m_type response \<noteq> AHE_BROKER_CREATE \<and> m_type response \<noteq> AHE_BROKER_ATTACH"

definition accept_response ::
  "ahe_broker_client \<Rightarrow> ahe_broker_message \<Rightarrow> fd list \<Rightarrow> usize \<Rightarrow> segment_outputs
     \<Rightarrow> (world, int \<times> ahe_broker_client \<times> segment_outputs) state" where
  "accept_response client response received_fds requested_size outputs =
     (if m_type response = AHE_BROKER_DECLINE \<or> m_type response = AHE_BROKER_ERROR
      then do {
        _ \<leftarrow> ahe_broker_close_received_fds received_fds;
        acquire_failed (if m_type response = AHE_BROKER_DECLINE
          then ''AHE broker declined the cache key''
          else ''AHE broker could not create the cache'') client outputs
      }
      else if response_invalid response received_fds requested_size
      then do {
        _ \<leftarrow> ahe_broker_close_received_fds received_fds;
        acquire_failed ''AHE broker returned an invalid allocation response'' client outputs
      }
      else
        let client = client\<lparr>k_cache_fd := received_fds ! 0, k_lock_fd := received_fds ! 1\<rparr> in
        if m_type response = AHE_BROKER_ATTACH
        then if m_mapping_base response = 0
            \<or> m_shared_globals_offset response \<ge> m_mapping_size response
          then acquire_failed ''AHE broker returned invalid reattachment metadata'' client outputs
          else map_cache client response requested_size (m_mapping_base response)
            (MAP_SHARED OR MAP_FIXED_NOREPLACE) outputs
        else map_cache client response requested_size 0 MAP_SHARED outputs)"

definition acquire_request :: "string \<Rightarrow> usize \<Rightarrow> ahe_broker_message" where
  "acquire_request cache_key requested_size =
     (let request = ahe_broker_message_init AHE_BROKER_ACQUIRE
      in request\<lparr>m_mapping_size := requested_size,
        m_cache_key := memcpy_into (m_cache_key request) (cache_key @ [NUL])\<rparr>)"

definition ahe_broker_client_acquire ::
  "ahe_broker_client \<Rightarrow> string \<Rightarrow> string \<Rightarrow> usize \<Rightarrow> segment_outputs
     \<Rightarrow> (world, int \<times> ahe_broker_client \<times> segment_outputs) state" where
  "ahe_broker_client_acquire client socket_path cache_key requested_size outputs =
     (let client = client\<lparr>k_timed_out := False\<rparr> in
      if length cache_key \<ge> AHE_BROKER_CACHE_KEY_SIZE
      then ret (ZEND_OPCACHE_SHM_ALLOC_FAILURE, client,
        outputs\<lparr>out_error := Some ''AHE cache key is too long''\<rparr>)
      else do {
        socket_fd \<leftarrow> ahe_broker_connect socket_path;
        let client = client\<lparr>k_socket_fd := socket_fd\<rparr>;
        if socket_fd < 0
        then ret (ZEND_OPCACHE_SHM_ALLOC_FAILURE, client,
          outputs\<lparr>out_error := Some ''AHE broker is unavailable''\<rparr>)
        else do {
          (exchanged, response, received_fds) \<leftarrow>
            exchange socket_fd (acquire_request cache_key requested_size) AHE_BROKER_DESCRIPTOR_COUNT;
          e \<leftarrow> get_errno;
          if exchanged < 0
          then acquire_failed (if e = EAGAIN
              then ''AHE broker did not respond before the timeout''
              else ''AHE broker protocol failure'')
            (client\<lparr>k_timed_out := e = EAGAIN\<rparr>) outputs
          else accept_response client response received_fds requested_size outputs
        }
      })"

section \<open>Locking\<close>

abbreviation F_WRLCK :: int where "F_WRLCK \<equiv> 1"

abbreviation F_UNLCK :: int where "F_UNLCK \<equiv> 2"

abbreviation F_SETLK :: int where "F_SETLK \<equiv> 6"

abbreviation F_SETLKW :: int where "F_SETLKW \<equiv> 7"

definition ahe_broker_client_set_lock :: "ahe_broker_client \<Rightarrow> int \<Rightarrow> int \<Rightarrow> (world, int) state" where
  "ahe_broker_client_set_lock client lock_type command =
     (if k_lock_fd client < 0 then ret ZEND_OPCACHE_SHM_PROVIDER_FAILURE
      else do {
        r \<leftarrow> sys_retry (Fcntl_lock (k_lock_fd client) lock_type command) interrupted;
        ret (if r_ret r = 0 then ZEND_OPCACHE_SHM_PROVIDER_SUCCESS
          else ZEND_OPCACHE_SHM_PROVIDER_FAILURE)
      })"

definition ahe_broker_client_lock :: "ahe_broker_client \<Rightarrow> (world, int) state" where
  "ahe_broker_client_lock client = ahe_broker_client_set_lock client F_WRLCK F_SETLKW"

definition ahe_broker_client_unlock :: "ahe_broker_client \<Rightarrow> (world, int) state" where
  "ahe_broker_client_unlock client = ahe_broker_client_set_lock client F_UNLCK F_SETLK"

section \<open>Publishing and leaving\<close>

definition ahe_broker_client_notify :: "ahe_broker_client \<Rightarrow> u32 \<Rightarrow> (world, int) state" where
  "ahe_broker_client_notify client ty =
     (if k_socket_fd client < 0 then ret (-1)
      else do {
        (exchanged, response, _) \<leftarrow> exchange (k_socket_fd client) (ahe_broker_message_init ty) 0;
        ret (if exchanged < 0 \<or> m_type response \<noteq> AHE_BROKER_ACK then -1 else 0)
      })"

definition ready_request :: "ahe_broker_client \<Rightarrow> u64 \<Rightarrow> ahe_broker_message" where
  "ready_request client shared_globals = (ahe_broker_message_init AHE_BROKER_READY)
     \<lparr>m_mapping_size := k_mapping_size client, m_mapping_base := k_mapping client,
      m_shared_globals_offset := shared_globals - k_mapping client\<rparr>"

definition publishable :: "ahe_broker_client \<Rightarrow> u64 \<Rightarrow> bool" where
  "publishable client shared_globals \<longleftrightarrow>
     \<not> (\<not> k_creator client \<or> k_mapping client = 0 \<or> shared_globals = 0)
     \<and> \<not> (shared_globals < k_mapping client
          \<or> shared_globals - k_mapping client \<ge> k_mapping_size client)"

definition ahe_broker_client_publish ::
  "ahe_broker_client \<Rightarrow> u64 \<Rightarrow> (world, int \<times> ahe_broker_client) state" where
  "ahe_broker_client_publish client shared_globals =
     (if \<not> publishable client shared_globals then ret (-1, client)
      else do {
        (exchanged, response, _) \<leftarrow>
          exchange (k_socket_fd client) (ready_request client shared_globals) 0;
        if exchanged < 0 \<or> m_type response \<noteq> AHE_BROKER_ACK then ret (-1, client)
        else ret (0, client\<lparr>k_ready := True, k_segment_allocation := 0\<rparr>)
      })"

definition ahe_broker_client_abort :: "ahe_broker_client \<Rightarrow> (world, unit) state" where
  "ahe_broker_client_abort client =
     (if k_acquired client
      then do {_ \<leftarrow> ahe_broker_client_notify client AHE_BROKER_ABORT; ret ()}
      else ret ())"

text \<open>
  A segment pointer is its address and what it points to; \<open>None\<close> is the null pointer. The
  segment this client allocated lies one pointer into its allocation.
\<close>

definition ahe_broker_client_detach ::
  "ahe_broker_client \<Rightarrow> (u64 \<times> ahe_opcache_shm_segment) option
     \<Rightarrow> (world, int \<times> ahe_broker_client) state" where
  "ahe_broker_client_detach client shared_segment = (case shared_segment of
     None \<Rightarrow> ret (ZEND_OPCACHE_SHM_PROVIDER_FAILURE, client)
   | Some (address, segment) \<Rightarrow>
       if seg_p segment = 0 \<or> seg_size segment = 0
       then ret (ZEND_OPCACHE_SHM_PROVIDER_FAILURE, client)
       else do {
         let owned_segment = (if k_segment_allocation client \<noteq> 0
           then k_segment_allocation client + 8 else 0);
         r \<leftarrow> sys (Munmap (seg_p segment) (seg_size segment));
         if r_ret r < 0 then ret (ZEND_OPCACHE_SHM_PROVIDER_FAILURE, client)
         else do {
           let client = (if k_mapping client = seg_p segment
             then client\<lparr>k_mapping := 0, k_mapping_size := 0\<rparr> else client);
           let client = (if address = owned_segment
             then client\<lparr>k_segment_allocation := 0\<rparr> else client);
           ret (ZEND_OPCACHE_SHM_PROVIDER_SUCCESS, client)
         }
       })"

definition ahe_broker_client_shutdown :: "ahe_broker_client \<Rightarrow> (world, ahe_broker_client) state" where
  "ahe_broker_client_shutdown client = do {
     _ \<leftarrow> (if k_acquired client \<and> k_socket_fd client \<ge> 0
       then do {_ \<leftarrow> ahe_broker_client_notify client AHE_BROKER_DETACH; ret ()} else ret ());
     _ \<leftarrow> (if k_mapping client \<noteq> 0 \<and> k_mapping_size client \<noteq> 0
       then do {_ \<leftarrow> sys (Munmap (k_mapping client) (k_mapping_size client)); ret ()} else ret ());
     _ \<leftarrow> (if k_reattached client \<and> k_segment_allocation client \<noteq> 0
       then note_call (Free (k_segment_allocation client)) else ret ());
     client \<leftarrow> ahe_broker_client_close_descriptors client;
     ret (client\<lparr>k_mapping := 0, k_mapping_size := 0, k_segment_allocation := 0,
       k_creator := False, k_reattached := False, k_acquired := False, k_ready := False,
       k_timed_out := False\<rparr>)
   }"

section \<open>Mapped memory\<close>

text \<open>
  The regions a process has mapped, as its history tells; whether it ever unmapped a region
  it did not have mapped (\<open>unmaps_owned\<close>); and \<open>maps M w\<close>: if no whole region ever failed to be
  unmapped and no mapping lies at address 0, the regions are \<open>M\<close> and none was unmapped twice.
\<close>

fun mapping_effect :: "event \<Rightarrow> (u64 \<times> usize) multiset \<Rightarrow> (u64 \<times> usize) multiset" where
  "mapping_effect (Mmap a n fl f, r) M = (if r_addr r = MAP_FAILED then M else add_mset (r_addr r, n) M)"
| "mapping_effect (Munmap a n, r) M = M - {#(a, n)#}"
| "mapping_effect (c, r) M = M"

fun memory_ok :: "event \<Rightarrow> bool" where
  "memory_ok (Mmap a n fl f, r) \<longleftrightarrow> r_addr r \<noteq> 0"
| "memory_ok (Munmap a n, r) \<longleftrightarrow> 0 \<le> r_ret r"
| "memory_ok (c, r) \<longleftrightarrow> True"

definition mapped :: "event list \<Rightarrow> (u64 \<times> usize) multiset" where
  "mapped h = foldr mapping_effect h {#}"

fun unmapped :: "event \<Rightarrow> (u64 \<times> usize) multiset" where
  "unmapped (Munmap a n, r) = {#(a, n)#}"
| "unmapped (c, r) = {#}"

primrec unmaps_owned :: "event list \<Rightarrow> bool" where
  "unmaps_owned [] = True"
| "unmaps_owned (e # h) = (unmaps_owned h \<and> unmapped e \<subseteq># mapped h)"

definition maps :: "(u64 \<times> usize) multiset \<Rightarrow> world \<Rightarrow> bool" where
  "maps M w \<longleftrightarrow> (list_all memory_ok (history w) \<longrightarrow>
     mapped (history w) = M \<and> unmaps_owned (history w))"

fun memless :: "syscall \<Rightarrow> bool" where
  "memless (Mmap a n fl f) = False"
| "memless (Munmap a n) = False"
| "memless c = True"

lemma memless_effect: "memless (fst e) \<Longrightarrow> mapping_effect e M = M \<and> memory_ok e \<and> unmapped e = {#}"
  by (cases e; cases "fst e") auto

lemma mapped_memless: "\<forall>e \<in> set h. memless (fst e) \<Longrightarrow>
    mapped (h @ h') = mapped h' \<and> list_all memory_ok h \<and> unmaps_owned (h @ h') = unmaps_owned h'"
  by (induction h) (auto simp: mapped_def memless_effect)

lemma maps_memless: "only_calls memless w w' \<Longrightarrow> maps M w' = maps M w"
  using mapped_memless by (auto simp: only_calls_def maps_def)

lemma maps_mmap:
  assumes "maps M w" and "r_addr r \<noteq> MAP_FAILED"
  shows "maps (add_mset (r_addr r, n) M) (answered (Mmap a n fl f) r w)"
  using assms by (simp add: maps_def mapped_def)

lemma maps_mmap_null: "r_addr r = 0 \<Longrightarrow> maps M (answered (Mmap a n fl f) r w)"
  by (simp add: maps_def)

lemma maps_mmap_failed:
  "maps M w \<Longrightarrow> r_addr r = MAP_FAILED \<Longrightarrow> maps M (answered (Mmap a n fl f) r w)"
  by (simp add: maps_def mapped_def)

lemma maps_munmap: "maps (add_mset (a, n) M) w \<Longrightarrow> maps M (answered (Munmap a n) r w)"
  by (simp add: maps_def mapped_def)

lemma maps_munmap_failed: "r_ret r < 0 \<Longrightarrow> maps M (answered (Munmap a n) r w)"
  by (simp add: maps_def)

lemma calls_close_all [calls_intros]: "calls memless (close_all fds)"
  by (induction fds) (auto intro!: calls_intros)

lemma calls_close_received_fds [calls_intros]: "calls memless (ahe_broker_close_received_fds fds)"
  by (simp add: ahe_broker_close_received_fds_def calls_close_all)

lemma calls_collect_fds [calls_intros]: "calls memless (collect_fds ms cap fds)"
  by (induction ms arbitrary: fds) (auto simp: Let_def intro!: calls_intros)

lemma calls_connect [calls_intros]: "calls memless (ahe_broker_connect path)"
  by (auto simp: ahe_broker_connect_def set_timeouts_def verify_broker_def Let_def intro!: calls_intros)

lemma calls_exchange [calls_intros]: "calls memless (exchange f request cap)"
  by (auto simp: exchange_def ahe_client_send_message_def ahe_client_receive_message_def Let_def
      intro!: calls_intros)

lemma calls_close_descriptors [calls_intros]: "calls memless (ahe_broker_client_close_descriptors client)"
  by (auto simp: ahe_broker_client_close_descriptors_def Let_def intro!: calls_intros)

section \<open>What the client owns\<close>

definition client_owned :: "ahe_broker_client \<Rightarrow> fd multiset" where
  "client_owned c = fd_mset (k_cache_fd c) + (fd_mset (k_lock_fd c) + fd_mset (k_socket_fd c))"

definition client_maps :: "ahe_broker_client \<Rightarrow> (u64 \<times> usize) multiset" where
  "client_maps c = (if k_mapping c \<noteq> 0 then {#(k_mapping c, k_mapping_size c)#} else {#})"

text \<open>A client that owns nothing: before it acquires, after it failed to, and after shutdown.\<close>

definition released :: "ahe_broker_client \<Rightarrow> bool" where
  "released c \<longleftrightarrow> client_owned c = {#} \<and> k_mapping c = 0"

lemma released_initializer [simp]: "released AHE_BROKER_CLIENT_INITIALIZER"
  by (simp add: released_def client_owned_def fd_mset_neg AHE_BROKER_CLIENT_INITIALIZER_def)

lemma wp_close_descriptors:
  assumes "\<And>cache lock socket w'. \<lbrakk>cache < 0; lock < 0; socket < 0; quiet w w'; only_calls memless w w';
      \<And>F. holds (client_owned c + F) w \<Longrightarrow> holds F w'\<rbrakk>
    \<Longrightarrow> Q (c\<lparr>k_cache_fd := cache, k_lock_fd := lock, k_socket_fd := socket\<rparr>) w'"
  shows "wp (ahe_broker_client_close_descriptors c) Q w"
proof -
  let ?close = "\<lambda>f. if f \<ge> 0 then close_fd f else ret ()"
  let ?gone = "\<lambda>f :: fd. if f \<ge> 0 then -1 else f"
  have step: "wp (?close f) Q1 w1"
    if "\<And>w'. \<lbrakk>quiet w1 w'; only_calls memless w1 w'; \<And>F. holds (fd_mset f + F) w1 \<Longrightarrow> holds F w'\<rbrakk> \<Longrightarrow> Q1 () w'"
    for f Q1 w1
    by (auto simp: wp_rules fd_mset_neg intro!: that quiet_intros only_calls_intros intro: holds_noted_close)
  have "wp (do {
      _ \<leftarrow> ?close (k_cache_fd c);
      _ \<leftarrow> ?close (k_lock_fd c);
      _ \<leftarrow> ?close (k_socket_fd c);
      ret (c\<lparr>k_cache_fd := ?gone (k_cache_fd c), k_lock_fd := ?gone (k_lock_fd c),
        k_socket_fd := ?gone (k_socket_fd c)\<rparr>)
    }) Q w"
    unfolding wp_bind wp_return
    by (intro step assms)
      (auto simp: client_owned_def add.assoc intro: quiet_trans only_calls_trans)
  moreover have "ahe_broker_client_close_descriptors c = (do {
      _ \<leftarrow> ?close (k_cache_fd c);
      _ \<leftarrow> ?close (k_lock_fd c);
      _ \<leftarrow> ?close (k_socket_fd c);
      ret (c\<lparr>k_cache_fd := ?gone (k_cache_fd c), k_lock_fd := ?gone (k_lock_fd c),
        k_socket_fd := ?gone (k_socket_fd c)\<rparr>)
    })"
    unfolding ahe_broker_client_close_descriptors_def Let_def
    by (cases "0 \<le> k_cache_fd c"; cases "0 \<le> k_lock_fd c"; cases "0 \<le> k_socket_fd c") simp_all
  ultimately show ?thesis by simp
qed

text \<open>
  \<open>stage_post A w r w'\<close>: a stretch of acquiring that began with the descriptors \<open>A\<close> and no
  mapping either failed and released everything, or hands over the cache.
\<close>

definition handed_over :: "usize \<Rightarrow> int \<Rightarrow> ahe_broker_client \<Rightarrow> segment_outputs \<Rightarrow> ahe_broker_message \<Rightarrow> bool" where
  "handed_over sz res c o' response \<longleftrightarrow> k_acquired c \<and> k_mapping_size c = sz \<and> k_mapping c \<noteq> MAP_FAILED \<and>
     k_segment_allocation c \<noteq> 0 \<and> out_segments o' = k_segment_allocation c \<and> out_count o' = 1 \<and>
     out_segment o' = \<lparr>seg_size = sz, seg_end = sz, seg_pos = 0, seg_p = k_mapping c\<rparr> \<and>
     (if m_type response = AHE_BROKER_ATTACH
      then res = ZEND_OPCACHE_SHM_SUCCESSFULLY_REATTACHED \<and> k_reattached c \<and> \<not> k_creator c \<and>
        m_mapping_base response \<noteq> 0 \<and> m_shared_globals_offset response < sz \<and>
        k_mapping c = m_mapping_base response \<and>
        out_globals o' = m_mapping_base response + m_shared_globals_offset response
      else m_type response = AHE_BROKER_CREATE \<and>
        res = ZEND_OPCACHE_SHM_ALLOC_SUCCESS \<and> k_creator c \<and> \<not> k_reattached c)"

definition stage_post :: "usize \<Rightarrow> ahe_broker_message \<Rightarrow> fd multiset \<Rightarrow> world
     \<Rightarrow> int \<times> ahe_broker_client \<times> segment_outputs \<Rightarrow> world \<Rightarrow> bool" where
  "stage_post sz response A w = (\<lambda>(res, c', o') w'.
     (\<forall>F. holds (A + F) w \<longrightarrow> holds (client_owned c' + F) w') \<and>
     (\<forall>M. maps M w \<longrightarrow> maps (client_maps c' + M) w') \<and>
     sends (history w') = sends (history w) \<and>
     (res = ZEND_OPCACHE_SHM_ALLOC_FAILURE \<and> released c' \<and> out_error o' \<noteq> None \<or> handed_over sz res c' o' response))"

lemma wp_acquire_failed:
  assumes "k_mapping c = 0" and "\<And>F. holds (A + F) w \<Longrightarrow> holds (client_owned c + F) w1"
    and "\<And>M. maps M w \<Longrightarrow> maps M w1" and "quiet w w1"
  shows "wp (acquire_failed error c outputs) (stage_post sz response A w) w1"
  unfolding acquire_failed_def wp_bind wp_return
proof (rule wp_close_descriptors, goal_cases)
  case (1 cache lock socket w2)
  then show ?case
    using assms maps_memless [OF 1(5)]
    by (auto simp: stage_post_def client_owned_def client_maps_def released_def fd_mset_neg quiet_def)
qed

lemma wp_map_cache:
  assumes own: "\<And>F. holds (A + F) w \<Longrightarrow> holds (client_owned c + F) w1"
    and none: "\<And>M. maps M w \<Longrightarrow> maps M w1" and q: "quiet w w1"
    and addr: "if m_type response = AHE_BROKER_ATTACH
      then requested = m_mapping_base response \<and> requested \<noteq> 0 \<and> m_shared_globals_offset response < sz
      else m_type response = AHE_BROKER_CREATE \<and> requested = 0"
  shows "wp (map_cache c response sz requested flags outputs) (stage_post sz response A w) w1"
proof -
  let ?M = "Mmap requested sz flags (k_cache_fd c)" and ?r = "next_reply w1"
  let ?w2 = "answered ?M ?r w1" and ?a = "r_addr (next_reply w1)"
  have q2: "quiet w ?w2" using q by (intro quiet_intros) simp_all
  have h2: "holds (client_owned c + F) ?w2" if "holds (A + F) w" for F
    by (rule holds_answered_none [OF own [OF that]]) simp
  have owned [simp]: "client_owned (c\<lparr>k_mapping := a\<rparr>) = client_owned c"
    "client_owned (c\<lparr>k_mapping := a, k_mapping_size := n\<rparr>) = client_owned c" for a n
    by (simp_all add: client_owned_def)
  have failed: "wp (acquire_failed e (c\<lparr>k_mapping := 0\<rparr>) outputs) (stage_post sz response A w) ?w2"
    if "?a = MAP_FAILED" for e
    by (rule wp_acquire_failed) (use that q2 h2 none in \<open>auto intro: maps_mmap_failed\<close>)
  have undo: "wp (do {_ \<leftarrow> sys (Munmap ?a sz); acquire_failed e c' outputs'}) (stage_post sz response A w) w3"
    if "?a \<noteq> MAP_FAILED" "quiet w w3" "only_calls memless ?w2 w3"
      "\<And>F. holds (A + F) w \<Longrightarrow> holds (client_owned c + F) w3"
      "c' = c\<lparr>k_mapping := 0\<rparr> \<or> c' = c\<lparr>k_mapping := 0, k_mapping_size := 0\<rparr>" for e c' w3 outputs'
    unfolding wp_bind wp_sys
  proof (rule wp_acquire_failed)
    show "k_mapping c' = 0" using that(5) by auto
    show "quiet w (answered (Munmap ?a sz) (next_reply w3) w3)" using that(2) by (intro quiet_intros) simp_all
    show "holds (client_owned c' + F) (answered (Munmap ?a sz) (next_reply w3) w3)" if "holds (A + F) w" for F
      using \<open>c' = _ \<or> _\<close> \<open>\<And>F. holds (A + F) w \<Longrightarrow> holds (client_owned c + F) w3\<close> [OF that]
      by (auto intro!: holds_answered_none)
    show "maps M (answered (Munmap ?a sz) (next_reply w3) w3)" if "maps M w" for M
      using maps_mmap [OF none [OF that] \<open>?a \<noteq> MAP_FAILED\<close>] maps_memless [OF \<open>only_calls memless ?w2 w3\<close>]
      by (intro maps_munmap) simp
  qed
  let ?C = "Calloc SEGMENT_ALLOCATION_SIZE" and ?s = "next_reply ?w2"
  let ?w3 = "answered ?C ?s ?w2"
  have q3: "quiet w ?w3" by (rule quiet_answered [OF _ _ q2]) simp_all
  have h3: "holds (client_owned c + F) ?w3" if "holds (A + F) w" for F
    by (rule holds_answered_none [OF h2 [OF that]]) simp
  have m3: "only_calls memless ?w2 ?w3" by (rule only_calls_answered) simp_all
  have complete: "stage_post sz response A w (acquire_completed
      (c\<lparr>k_mapping := ?a, k_mapping_size := sz, k_segment_allocation := r_addr ?s\<rparr>) response
      (outputs\<lparr>out_segments := r_addr ?s, out_count := 1,
         out_segment := \<lparr>seg_size = sz, seg_end = sz, seg_pos = 0, seg_p = ?a\<rparr>\<rparr>)) ?w3"
    if a: "?a \<noteq> MAP_FAILED" "\<not> (requested \<noteq> 0 \<and> ?a \<noteq> requested)" "r_addr ?s \<noteq> 0"
  proof -
    let ?c = "c\<lparr>k_mapping := ?a, k_mapping_size := sz, k_segment_allocation := r_addr ?s\<rparr>"
    have "maps (client_maps ?c + M) ?w2" if m: "maps M w" for M
      using maps_mmap [OF none [OF m] a(1)] by (cases "?a = 0") (simp_all add: client_maps_def maps_mmap_null)
    then have "maps (client_maps ?c + M) ?w3" if m: "maps M w" for M
      using m by (simp add: maps_memless [OF m3])
    moreover have "client_owned ?c = client_owned c" by (simp add: client_owned_def)
    ultimately show ?thesis using h3 q3 a addr
      by (auto simp: stage_post_def acquire_completed_def Let_def handed_over_def client_owned_def client_maps_def
        quiet_def split: if_splits)
  qed
  show ?thesis
  proof (cases "?a = MAP_FAILED")
    case True
    with failed [OF True] show ?thesis by (simp add: map_cache_def wp_bind wp_sys Let_def)
  next
    case ok: False
    show ?thesis
    proof (cases "requested \<noteq> 0 \<and> ?a \<noteq> requested")
      case True
      with ok undo [OF ok q2 only_calls_refl h2, of "c\<lparr>k_mapping := 0\<rparr>"] show ?thesis
        by (simp add: map_cache_def wp_bind wp_sys Let_def)
    next
      case placed: False
      show ?thesis
      proof (cases "r_addr ?s = 0")
        case True
        with ok placed undo [OF ok q3 m3 h3, of "c\<lparr>k_mapping := 0, k_mapping_size := 0\<rparr>"]
        show ?thesis
          by (auto simp add: map_cache_def ahe_broker_allocate_segment_def wp_bind wp_sys wp_return Let_def)
      next
        case False
        with complete [OF ok placed False] ok placed show ?thesis
          by (auto simp add: map_cache_def ahe_broker_allocate_segment_def wp_bind wp_sys wp_return Let_def)
      qed
    qed
  qed
qed

lemma wp_accept_response:
  assumes own: "\<And>F. holds (A + F) w \<Longrightarrow> holds (mset fds + (client_owned c + F)) w1"
    and none: "\<And>M. maps M w \<Longrightarrow> maps M w1" and q: "quiet w w1"
    and c: "k_mapping c = 0" "k_cache_fd c < 0" "k_lock_fd c < 0"
  shows "wp (accept_response c response fds sz outputs) (stage_post sz response A w) w1"
proof -
  have reject: "wp (do {_ \<leftarrow> ahe_broker_close_received_fds fds; acquire_failed e c outputs})
      (stage_post sz response A w) w1" for e
  proof (subst wp_bind, rule wp_mono [OF wp_conjI [OF calls_wp [OF calls_close_received_fds]]])
    show "wp (ahe_broker_close_received_fds fds) (\<lambda>_ w2. quiet w1 w2 \<and>
        (\<forall>F. holds (mset fds + F) w1 \<longrightarrow> holds F w2)) w1"
      by (rule wp_close_received_fds) simp
    fix u :: unit and w2
    assume "only_calls memless w1 w2 \<and> quiet w1 w2 \<and> (\<forall>F. holds (mset fds + F) w1 \<longrightarrow> holds F w2)"
    then show "wp (acquire_failed e c outputs) (stage_post sz response A w) w2"
      using own none q c by (intro wp_acquire_failed) (auto simp: maps_memless intro: quiet_trans)
  qed
  let ?c = "c\<lparr>k_cache_fd := fds ! 0, k_lock_fd := fds ! 1\<rparr>"
  have taken: "holds (client_owned ?c + F) w1" if "holds (A + F) w" and l: "length fds = 2" for F
  proof (cases "kernel_ok (history w1)")
    case True
    obtain x y where fds: "fds = [x, y]" using l by (auto simp: length_Suc_conv numeral_2_eq_2)
    with holds_mset_nonneg [OF own [OF that(1)] True] have "0 \<le> x" "0 \<le> y"
      by (auto split: if_splits)
    then have "client_owned ?c = mset fds + client_owned c"
      using c by (simp add: fds client_owned_def fd_mset_nonneg fd_mset_neg)
    with own [OF that(1)] show ?thesis by (simp add: ac_simps)
  next
    case False
    then show ?thesis by (simp add: holds_def)
  qed
  have invalid: "wp (acquire_failed e ?c outputs) (stage_post sz response A w) w1"
    if "length fds = 2" for e
    by (rule wp_acquire_failed) (use c taken that none q in auto)
  have map: "wp (map_cache ?c response sz requested flags outputs) (stage_post sz response A w) w1"
    if "length fds = 2" "if m_type response = AHE_BROKER_ATTACH
      then requested = m_mapping_base response \<and> requested \<noteq> 0 \<and> m_shared_globals_offset response < sz
      else m_type response = AHE_BROKER_CREATE \<and> requested = 0" for requested flags
    by (rule wp_map_cache) (use taken that none q in auto)
  show ?thesis
    unfolding accept_response_def wp_if Let_def
    using reject invalid map by (auto simp: response_invalid_def)
qed

lemma wp_exchange:
  assumes post: "\<And>res m fds w'. \<lbrakk>\<And>F. holds F w \<Longrightarrow> holds (mset fds + F) w'; length fds \<le> cap;
      res = 0 \<or> res = -1 \<and> fds = [];
      res = 0 \<Longrightarrow> heard f m w w';
      sends (history w') = insert (f, encode_message request, []) (sends (history w))\<rbrakk>
    \<Longrightarrow> Q (res, m, fds) w'"
  shows "wp (exchange f request cap) Q w"
  unfolding exchange_def wp_bind
proof (rule wp_client_send_message)
  fix sent w1
  assume h1: "\<And>F. holds F w \<Longrightarrow> holds F w1"
    and s1: "sends (history w1) = insert (f, encode_message request, []) (sends (history w))"
    and x1: "extends w w1"
  have "wp (ahe_client_receive_message f cap) Q w1"
  proof (rule wp_client_receive_message, rule post)
    fix res m fds w2
    assume q: "quiet w1 w2" and h: "\<And>F. holds F w1 \<Longrightarrow> holds (mset fds + F) w2"
      and hd: "res = 0 \<Longrightarrow> heard f m w1 w2"
    show "heard f m w w2" if "res = 0" using hd [OF that] x1 extends_refl by (rule heard_extends)
    show "holds (mset fds + F) w2" if "holds F w" for F using h h1 that by blast
    show "sends (history w2) = insert (f, encode_message request, []) (sends (history w))"
      using q s1 by (simp add: quiet_def)
  qed
  moreover have "Q (-1, request, []) w1" by (rule post) (use h1 s1 in auto)
  ultimately show "wp (if sent < 0 then ret (-1, request, []) else ahe_client_receive_message f cap) Q w1"
    by (simp add: wp_rules)
qed

text \<open>
  The whole of acquiring: a released client either stays released, with an error for the
  caller, or is handed a cache that answers its request; the request is all it sends.
\<close>

definition acquire_post :: "string \<Rightarrow> string \<Rightarrow> usize \<Rightarrow> world
     \<Rightarrow> int \<times> ahe_broker_client \<times> segment_outputs \<Rightarrow> world \<Rightarrow> bool" where
  "acquire_post path key sz w = (\<lambda>(res, c', o') w'.
     (\<forall>F. holds F w \<longrightarrow> holds (client_owned c' + F) w') \<and>
     (\<forall>M. maps M w \<longrightarrow> maps (client_maps c' + M) w') \<and>
     (res = ZEND_OPCACHE_SHM_ALLOC_FAILURE \<and> released c' \<and> out_error o' \<noteq> None \<or>
      (\<exists>f response. broker_trusted path f w w' \<and> heard f response w w' \<and>
         handed_over sz res c' o' response)) \<and>
     (\<forall>s \<in> sends (history w'). s \<in> sends (history w) \<or>
        (\<exists>f. s = (f, encode_message (acquire_request key sz), []) \<and>
           broker_trusted path f w w')))"

lemma extending_exchange [extends_intros]: "extending (exchange f request cap)"
  by (auto simp: exchange_def ahe_client_send_message_def ahe_client_receive_message_def Let_def
      intro!: extends_intros)

lemma extending_close_descriptors [extends_intros]: "extending (ahe_broker_client_close_descriptors c)"
  by (auto simp: ahe_broker_client_close_descriptors_def Let_def intro!: extends_intros)

lemma extending_acquire_failed [extends_intros]: "extending (acquire_failed error c outputs)"
  by (auto simp: acquire_failed_def intro!: extends_intros)

lemma extending_accept_response [extends_intros]:
  "extending (accept_response c response fds sz outputs)"
  by (auto simp: accept_response_def map_cache_def ahe_broker_allocate_segment_def Let_def
      intro!: extends_intros)

definition connect_post :: "string \<Rightarrow> world \<Rightarrow> fd \<Rightarrow> world \<Rightarrow> bool" where
  "connect_post path w f w' \<longleftrightarrow> quiet w w' \<and> only_calls memless w w' \<and>
     (if 0 \<le> f then (\<forall>F. holds F w \<longrightarrow> holds (add_mset f F) w') \<and> broker_trusted path f w w'
      else \<forall>F. holds F w \<longrightarrow> holds F w')"

lemma connect_post_extends: "connect_post path w f w' \<Longrightarrow> extends w w'"
  by (auto simp: connect_post_def quiet_def only_calls_def extends_def)

lemma acquire_failed_fails:
  "wp (acquire_failed e c outputs) (\<lambda>r _. fst r = ZEND_OPCACHE_SHM_ALLOC_FAILURE) w"
  by (simp add: acquire_failed_def wp_def split: prod.splits)

lemma wp_connect_post: "wp (ahe_broker_connect path) (connect_post path w) w"
proof -
  have "wp (ahe_broker_connect path) (\<lambda>f w'. only_calls memless w w' \<longrightarrow> connect_post path w f w') w"
    by (rule wp_connect) (auto simp: connect_post_def)
  from wp_conjI [OF calls_wp [OF calls_connect] this] show ?thesis by (rule wp_mono) simp
qed

definition exchange_post :: "fd \<Rightarrow> ahe_broker_message \<Rightarrow> world
     \<Rightarrow> int \<times> ahe_broker_message \<times> fd list \<Rightarrow> world \<Rightarrow> bool" where
  "exchange_post f request w = (\<lambda>(res, m, fds) w'. only_calls memless w w' \<and> extends w w' \<and>
     (\<forall>F. holds F w \<longrightarrow> holds (mset fds + F) w') \<and> (res = 0 \<or> res = -1 \<and> fds = []) \<and>
     (res = 0 \<longrightarrow> heard f m w w') \<and>
     sends (history w') = insert (f, encode_message request, []) (sends (history w)))"

lemma wp_exchange_post:
  "wp (exchange f request cap) (\<lambda>r w'. exchange_post f request w r w' \<and> length (snd (snd r)) \<le> cap) w"
proof -
  have "wp (exchange f request cap) (\<lambda>r w'. only_calls memless w w' \<and> extends w w' \<longrightarrow>
      exchange_post f request w r w' \<and> length (snd (snd r)) \<le> cap) w"
    by (rule wp_exchange) (auto simp: exchange_post_def)
  from wp_conjI [OF wp_conjI [OF calls_wp [OF calls_exchange] wp_extending [OF extending_exchange]] this]
  show ?thesis by (rule wp_mono) simp
qed

lemma fd_mset_empty_iff: "fd_mset f = {#} \<longleftrightarrow> f < 0"
  by (simp add: fd_mset_def)

lemma stage_acquire_post:
  assumes st: "stage_post sz response A w2 r w3" and x: "extends w2 w3"
    and own: "\<And>F. holds F w \<Longrightarrow> holds (A + F) w2" and map: "\<And>M. maps M w \<Longrightarrow> maps M w2"
    and snt: "sends (history w2) = insert (f, encode_message (acquire_request key sz), []) (sends (history w))"
    and tr: "broker_trusted path f w w2"
    and hd: "fst r \<noteq> ZEND_OPCACHE_SHM_ALLOC_FAILURE \<Longrightarrow> heard f response w w2"
  shows "acquire_post path key sz w r w3"
proof -
  obtain res c' o' where r: "r = (res, c', o')" by (cases r) auto
  have t: "broker_trusted path f w w3"
    using tr extends_refl x by (rule broker_trusted_extends)
  from st r have "\<forall>F. holds (A + F) w2 \<longrightarrow> holds (client_owned c' + F) w3"
    "\<forall>M. maps M w2 \<longrightarrow> maps (client_maps c' + M) w3" "sends (history w3) = sends (history w2)"
    "res = ZEND_OPCACHE_SHM_ALLOC_FAILURE \<and> released c' \<and> out_error o' \<noteq> None \<or>
      res \<noteq> ZEND_OPCACHE_SHM_ALLOC_FAILURE \<and> handed_over sz res c' o' response"
    by (auto simp: stage_post_def handed_over_def split: if_splits)
  moreover have "heard f response w w3" if "res \<noteq> ZEND_OPCACHE_SHM_ALLOC_FAILURE"
    using hd that r x by (auto intro: heard_extends extends_refl)
  ultimately show ?thesis using own map snt t unfolding r acquire_post_def prod.case by blast
qed

lemma wp_acquire:
  assumes rel: "released c"
  shows "wp (ahe_broker_client_acquire c path key sz outputs) (acquire_post path key sz w) w"
proof -
  have neg: "k_cache_fd c < 0" "k_lock_fd c < 0" "k_socket_fd c < 0" and k0: "k_mapping c = 0"
    using rel by (auto simp: released_def client_owned_def fd_mset_empty_iff)
  let ?c = "\<lambda>f. c\<lparr>k_timed_out := False, k_socket_fd := f\<rparr>"
  let ?rest = "\<lambda>f. do {
      (exchanged, response, received_fds) \<leftarrow>
        exchange f (acquire_request key sz) AHE_BROKER_DESCRIPTOR_COUNT;
      e \<leftarrow> get_errno;
      if exchanged < 0
      then acquire_failed (if e = EAGAIN
          then ''AHE broker did not respond before the timeout''
          else ''AHE broker protocol failure'')
        ((?c f)\<lparr>k_timed_out := e = EAGAIN\<rparr>) outputs
      else accept_response (?c f) response received_fds sz outputs
    }"
  have early: "acquire_post path key sz w (ZEND_OPCACHE_SHM_ALLOC_FAILURE, c', outputs\<lparr>out_error := Some e\<rparr>) w1"
    if "released c'" "quiet w w1" "only_calls memless w w1" "\<And>F. holds F w \<Longrightarrow> holds F w1" for c' e w1
    using that maps_memless [OF that(3)]
    by (auto simp: acquire_post_def released_def client_maps_def quiet_def)
  have served: "wp (?rest f) (acquire_post path key sz w) w1"
    if p: "connect_post path w f w1" and f: "0 \<le> f" for f w1
  proof (rule wp_seq [OF wp_exchange_post])
    fix r w2
    assume e: "exchange_post f (acquire_request key sz) w1 r w2 \<and> length (snd (snd r)) \<le> AHE_BROKER_DESCRIPTOR_COUNT"
    obtain res m fds where r: "r = (res, m, fds)" by (cases r) auto
    let ?A = "mset fds + {#f#}"
    have owned: "client_owned ((?c f)\<lparr>k_timed_out := t\<rparr>) = {#f#}" "client_owned (?c f) = {#f#}" for t
      using neg f by (simp_all add: client_owned_def fd_mset_neg fd_mset_nonneg)
    have own: "holds (?A + F) w2" if "holds F w" for F
      using p e f that by (auto simp: connect_post_def exchange_post_def r)
    have mem: "maps M w2" if "maps M w" for M
      using p e that by (auto simp: connect_post_def exchange_post_def r maps_memless)
    have snt: "sends (history w2) = insert (f, encode_message (acquire_request key sz), []) (sends (history w))"
      using p e by (auto simp: connect_post_def exchange_post_def r quiet_def)
    have tr: "broker_trusted path f w w2"
      using p e f by (auto simp: connect_post_def exchange_post_def r intro: broker_trusted_extends extends_refl)
    have hd: "heard f m w w2" if "res = 0"
      using e that connect_post_extends [OF p]
      by (auto simp: exchange_post_def r intro: heard_extends extends_refl)
    have finish: "wp op (acquire_post path key sz w) w2"
      if "wp op (\<lambda>r' w'. stage_post sz m ?A w2 r' w' \<and> (fst r' \<noteq> ZEND_OPCACHE_SHM_ALLOC_FAILURE \<longrightarrow> res = 0)) w2"
        "extending op" for op
      using wp_conjI [OF that(1) wp_extending [OF that(2)]]
      by (rule wp_mono) (elim conjE, rule stage_acquire_post [OF _ _ own mem snt tr], use hd in auto)
    have accept: "wp (accept_response (?c f) m fds sz outputs) (stage_post sz m ?A w2) w2"
      by (rule wp_accept_response) (use neg k0 owned in \<open>simp_all add: ac_simps\<close>)
    have fail: "wp (acquire_failed t ((?c f)\<lparr>k_timed_out := b\<rparr>) outputs) (stage_post sz m ?A w2) w2"
      if "fds = []" for t b
      by (rule wp_acquire_failed) (use k0 owned that in simp_all)
    from e have "res = 0 \<or> res = -1 \<and> fds = []" by (simp add: exchange_post_def r)
    with finish [OF wp_mono [OF accept] extending_accept_response]
      finish [OF wp_mono [OF wp_conjI [OF fail acquire_failed_fails]] extending_acquire_failed]
    show "wp (case r of (exchanged, response, received_fds) \<Rightarrow> do {
        e \<leftarrow> get_errno;
        if exchanged < 0
        then acquire_failed (if e = EAGAIN
            then ''AHE broker did not respond before the timeout''
            else ''AHE broker protocol failure'')
          ((?c f)\<lparr>k_timed_out := e = EAGAIN\<rparr>) outputs
        else accept_response (?c f) response received_fds sz outputs
      }) (acquire_post path key sz w) w2"
      by (auto simp: r wp_bind wp_get_errno)
  qed
  show ?thesis
  proof (cases "length key \<ge> AHE_BROKER_CACHE_KEY_SIZE")
    case True
    then show ?thesis
      using early [of "c\<lparr>k_timed_out := False\<rparr>" w] rel
      by (simp add: ahe_broker_client_acquire_def wp_rules released_def client_owned_def)
  next
    case False
    have "wp (ahe_broker_connect path) (\<lambda>f. wp (if f < 0
        then ret (ZEND_OPCACHE_SHM_ALLOC_FAILURE, ?c f, outputs\<lparr>out_error := Some ''AHE broker is unavailable''\<rparr>)
        else ?rest f) (acquire_post path key sz w)) w"
    proof (rule wp_mono [OF wp_connect_post])
      fix f w1
      assume p: "connect_post path w f w1"
      show "wp (if f < 0
          then ret (ZEND_OPCACHE_SHM_ALLOC_FAILURE, ?c f, outputs\<lparr>out_error := Some ''AHE broker is unavailable''\<rparr>)
          else ?rest f) (acquire_post path key sz w) w1"
      proof (cases "f < 0")
        case True
        have "released (?c f)" using True neg k0 by (simp add: released_def client_owned_def fd_mset_neg)
        with True p show ?thesis by (auto simp: wp_return connect_post_def intro!: early)
      next
        case False
        with served [OF p] show ?thesis by simp
      qed
    qed
    with False show ?thesis by (simp add: ahe_broker_client_acquire_def wp_bind Let_def)
  qed
qed

section \<open>Publishing, leaving, locking\<close>

text \<open>A request whose answer carries no descriptors: nothing changes hands.\<close>

definition told :: "fd \<Rightarrow> ahe_broker_message \<Rightarrow> world \<Rightarrow> world \<Rightarrow> bool" where
  "told f request w w' \<longleftrightarrow> (\<forall>F. holds F w \<longrightarrow> holds F w') \<and> only_calls memless w w' \<and>
     sends (history w') = insert (f, encode_message request, []) (sends (history w))"

lemma wp_tell:
  assumes "\<And>res m w'. \<lbrakk>told f request w w'; res = 0 \<or> res = -1;
      res = 0 \<Longrightarrow> heard f m w w'\<rbrakk> \<Longrightarrow> Q (res, m, []) w'"
  shows "wp (exchange f request 0) Q w"
proof (rule wp_mono [OF wp_exchange_post], elim conjE)
  fix r w'
  assume e: "exchange_post f request w r w'" and l: "length (snd (snd r)) \<le> 0"
  then obtain res m where r: "r = (res, m, [])" by (cases r) auto
  have "told f request w w'" using e by (simp add: exchange_post_def told_def r)
  with e show "Q r w'" unfolding r by (intro assms) (auto simp: exchange_post_def)
qed

lemma wp_notify:
  assumes "k_socket_fd c < 0 \<Longrightarrow> Q (-1) w"
    and "\<And>res w'. told (k_socket_fd c) (ahe_broker_message_init ty) w w' \<Longrightarrow> res = 0 \<or> res = -1 \<Longrightarrow> Q res w'"
  shows "wp (ahe_broker_client_notify c ty) Q w"
proof -
  have "wp (exchange (k_socket_fd c) (ahe_broker_message_init ty) 0)
      (\<lambda>r. wp (case r of (exchanged, response, _) \<Rightarrow>
         ret (if exchanged < 0 \<or> m_type response \<noteq> AHE_BROKER_ACK then -1 else 0)) Q) w"
    by (rule wp_tell) (auto simp: wp_return intro!: assms(2))
  with assms(1) show ?thesis by (simp add: ahe_broker_client_notify_def wp_bind wp_return)
qed

text \<open>
  Publishing tells the broker exactly where the shared globals lie in the mapping, only
  when they do, and marks the client ready only when the broker acknowledged.
\<close>

lemma wp_publish:
  assumes refused: "\<not> publishable c globals \<Longrightarrow> Q (-1, c) w"
    and failed: "\<And>w'. \<lbrakk>publishable c globals; told (k_socket_fd c) (ready_request c globals) w w'\<rbrakk> \<Longrightarrow> Q (-1, c) w'"
    and published: "\<And>m w'. \<lbrakk>publishable c globals; told (k_socket_fd c) (ready_request c globals) w w';
      heard (k_socket_fd c) m w w'; m_type m = AHE_BROKER_ACK\<rbrakk>
      \<Longrightarrow> Q (0, c\<lparr>k_ready := True, k_segment_allocation := 0\<rparr>) w'"
  shows "wp (ahe_broker_client_publish c globals) Q w"
proof (cases "publishable c globals")
  case True
  have "wp (exchange (k_socket_fd c) (ready_request c globals) 0)
      (\<lambda>r. wp (case r of (exchanged, response, _) \<Rightarrow>
         if exchanged < 0 \<or> m_type response \<noteq> AHE_BROKER_ACK then ret (-1, c)
         else ret (0, c\<lparr>k_ready := True, k_segment_allocation := 0\<rparr>)) Q) w"
    by (rule wp_tell) (use True in \<open>auto simp: wp_return intro!: failed published\<close>)
  with True show ?thesis by (simp add: ahe_broker_client_publish_def wp_bind)
next
  case False
  with refused show ?thesis by (simp add: ahe_broker_client_publish_def wp_return)
qed

text \<open>Shutting down gives everything back: descriptors, mapping, allocation.\<close>

definition shutdown_post :: "ahe_broker_client \<Rightarrow> world \<Rightarrow> ahe_broker_client \<Rightarrow> world \<Rightarrow> bool" where
  "shutdown_post c w c' w' \<longleftrightarrow> released c' \<and> k_segment_allocation c' = 0 \<and>
     \<not> k_acquired c' \<and> \<not> k_creator c' \<and> \<not> k_reattached c' \<and> \<not> k_ready c' \<and>
     (\<forall>F. holds (client_owned c + F) w \<longrightarrow> holds F w') \<and>
     (\<forall>M. maps (client_maps c + M) w \<longrightarrow> maps M w')"

lemma wp_client_shutdown:
  assumes sz: "k_mapping c \<noteq> 0 \<Longrightarrow> k_mapping_size c \<noteq> 0"
  shows "wp (ahe_broker_client_shutdown c) (shutdown_post c w) w"
proof -
  let ?reset = "\<lambda>c. c\<lparr>k_mapping := 0, k_mapping_size := 0, k_segment_allocation := 0,
       k_creator := False, k_reattached := False, k_acquired := False, k_ready := False,
       k_timed_out := False\<rparr>"
  have last: "wp (do {c \<leftarrow> ahe_broker_client_close_descriptors c; ret (?reset c)}) (shutdown_post c w) w1"
    if "\<And>F. holds F w \<Longrightarrow> holds F w1" "\<And>M. maps (client_maps c + M) w \<Longrightarrow> maps M w1" for w1
    unfolding wp_bind wp_return
  proof (rule wp_close_descriptors, goal_cases)
    case (1 cache lock socket w2)
    with that maps_memless [OF 1(5)] show ?case
      by (auto simp: shutdown_post_def released_def client_owned_def fd_mset_neg)
  qed
  have free: "wp (do {
      _ \<leftarrow> (if k_reattached c \<and> k_segment_allocation c \<noteq> 0
        then note_call (Free (k_segment_allocation c)) else ret ());
      c \<leftarrow> ahe_broker_client_close_descriptors c;
      ret (?reset c)
    }) (shutdown_post c w) w1"
    if h: "\<And>F. holds F w \<Longrightarrow> holds F w1" and m: "\<And>M. maps (client_maps c + M) w \<Longrightarrow> maps M w1" for w1
  proof (cases "k_reattached c \<and> k_segment_allocation c \<noteq> 0")
    case True
    let ?w = "noted (Free (k_segment_allocation c)) w1"
    have "maps M ?w = maps M w1" for M by (rule maps_memless, rule only_calls_noted) simp_all
    then have "wp (do {c \<leftarrow> ahe_broker_client_close_descriptors c; ret (?reset c)}) (shutdown_post c w) ?w"
      by (intro last) (auto intro: h m holds_noted_none)
    with True show ?thesis by (simp add: wp_bind wp_note_call)
  next
    case False
    with last [OF h m] show ?thesis by (auto simp: wp_bind wp_return)
  qed
  have unmap: "wp (do {
      _ \<leftarrow> (if k_mapping c \<noteq> 0 \<and> k_mapping_size c \<noteq> 0
        then do {_ \<leftarrow> sys (Munmap (k_mapping c) (k_mapping_size c)); ret ()} else ret ());
      _ \<leftarrow> (if k_reattached c \<and> k_segment_allocation c \<noteq> 0
        then note_call (Free (k_segment_allocation c)) else ret ());
      c \<leftarrow> ahe_broker_client_close_descriptors c;
      ret (?reset c)
    }) (shutdown_post c w) w1"
    if h: "\<And>F. holds F w \<Longrightarrow> holds F w1" and m: "\<And>M. maps M w \<Longrightarrow> maps M w1" for w1
  proof (cases "k_mapping c = 0")
    case True
    with free [OF h] m show ?thesis by (simp add: wp_bind wp_return client_maps_def)
  next
    case False
    have "maps M (answered (Munmap (k_mapping c) (k_mapping_size c)) r w1)"
      if "maps (client_maps c + M) w" for M r
      by (rule maps_munmap, rule m) (use that False in \<open>simp add: client_maps_def\<close>)
    with free [OF holds_answered_none [OF h]] False sz show ?thesis
      by (simp add: wp_bind wp_return wp_sys)
  qed
  show ?thesis
  proof (cases "k_acquired c \<and> k_socket_fd c \<ge> 0")
    case True
    show ?thesis unfolding ahe_broker_client_shutdown_def if_P [OF True] wp_bind [where m = "do {_ \<leftarrow> _; ret ()}"]
      unfolding wp_bind [where m = "ahe_broker_client_notify c AHE_BROKER_DETACH"] wp_return
      by (rule wp_notify, rule unmap, assumption, assumption, rule unmap)
        (auto simp: told_def maps_memless)
  next
    case False
    then show ?thesis using unmap by (simp add: ahe_broker_client_shutdown_def if_not_P [OF False] wp_bind wp_return)
  qed
qed

text \<open>The lock is reported taken exactly when the last attempt, after interruptions, succeeded.\<close>

lemma wp_set_lock:
  assumes "k_lock_fd c < 0 \<Longrightarrow> Q ZEND_OPCACHE_SHM_PROVIDER_FAILURE w"
    and "\<And>r w'. \<lbrakk>0 \<le> k_lock_fd c; retry_post (Fcntl_lock (k_lock_fd c) ty command) interrupted w r w'\<rbrakk> \<Longrightarrow>
      Q (if r_ret r = 0 then ZEND_OPCACHE_SHM_PROVIDER_SUCCESS else ZEND_OPCACHE_SHM_PROVIDER_FAILURE) w'"
  shows "wp (ahe_broker_client_set_lock c ty command) Q w"
proof (cases "k_lock_fd c < 0")
  case False
  have "wp (sys_retry (Fcntl_lock (k_lock_fd c) ty command) interrupted) (\<lambda>r. Q (if r_ret r = 0
      then ZEND_OPCACHE_SHM_PROVIDER_SUCCESS else ZEND_OPCACHE_SHM_PROVIDER_FAILURE)) w"
    by (rule wp_sys_retry) (use False assms(2) in auto)
  with False show ?thesis by (simp add: ahe_broker_client_set_lock_def wp_bind wp_return)
qed (simp add: ahe_broker_client_set_lock_def wp_return assms(1))

text \<open>
  Detaching the client's own segment: if the region is unmapped the client forgets it, so
  shutting down will not unmap it again.
\<close>

lemma wp_detach:
  assumes seg: "seg_p segment = k_mapping c" "seg_size segment = k_mapping_size c"
  shows "wp (ahe_broker_client_detach c (Some (address, segment))) (\<lambda>(res, c') w'.
    (\<forall>F. holds F w \<longrightarrow> holds F w') \<and> client_owned c' = client_owned c \<and>
    (\<forall>M. maps (client_maps c + M) w \<longrightarrow> maps (client_maps c' + M) w') \<and>
    (res = ZEND_OPCACHE_SHM_PROVIDER_SUCCESS \<and> k_mapping c' = 0 \<or>
     res = ZEND_OPCACHE_SHM_PROVIDER_FAILURE \<and> c' = c)) w"
proof -
  let ?u = "Munmap (k_mapping c) (k_mapping_size c)"
  have m: "maps M (answered ?u r w)" if "maps (client_maps c + M) w" "k_mapping c \<noteq> 0" for M r
    by (rule maps_munmap) (use that in \<open>simp add: client_maps_def\<close>)
  have h: "holds F (answered ?u r w)" if "holds F w" for F r
    using that by (rule holds_answered_none) simp
  show ?thesis
    using seg m h by (auto simp: ahe_broker_client_detach_def Let_def wp_bind wp_sys wp_return
        client_owned_def client_maps_def maps_munmap_failed)
qed

end
