(* ===== verification/Exchange.thy ===== *)
theory Exchange imports Generation_Spec Client_Ops begin

text \<open>
  The two ends of the wire: what the broker reads when a client wrote a request, what the
  client reads when the broker wrote an answer, and what the client makes of it
  (\<open>accept_response\<close>, the second half of \<open>ahe_broker_client_acquire\<close>).
\<close>

section \<open>Messages of one end, read by the other\<close>

lemma grant_message_wf [simp]: "wf_message (grant_message g)"
  by (simp add: wf_message_def grant_message_def)

lemma ready_request_wf [simp]: "wf_message (ready_request c globals)"
  by (simp add: wf_message_def ready_request_def)

lemma acquire_request_wf: "length key < AHE_BROKER_CACHE_KEY_SIZE \<Longrightarrow> wf_message (acquire_request key sz)"
  by (simp add: wf_message_def acquire_request_def Let_def)

lemma decoded [simp]:
  "decode_message (encode_message (grant_message g)) = grant_message g"
  "decode_message (encode_message (ready_request c globals)) = ready_request c globals"
  by (simp_all add: decode_encode_message)

lemma acquire_request_fields [simp]:
  "m_type (acquire_request key sz) = AHE_BROKER_ACQUIRE"
  "m_mapping_size (acquire_request key sz) = sz"
  "m_magic (acquire_request key sz) = AHE_BROKER_PROTOCOL_MAGIC"
  "m_version (acquire_request key sz) = AHE_BROKER_PROTOCOL_VERSION"
  "has_nul (m_cache_key (acquire_request key sz))"
  by (simp_all add: acquire_request_def Let_def has_nul_memcpy_into)

lemma acquire_request_key: "NUL \<notin> set key \<Longrightarrow> cstr (m_cache_key (acquire_request key sz)) = key"
  by (simp add: acquire_request_def Let_def cstr_memcpy_into)

lemma answer_message_wf [simp]: "wf_message (answer_message a)"
  by (cases a) (simp_all add: wf_message_def)

lemma answer_decoded [simp]: "decode_message (encode_message (answer_message a)) = answer_message a"
  by (simp add: decode_encode_message)

lemma answer_is_attach:
  "m_type (answer_message a) = AHE_BROKER_ATTACH \<longleftrightarrow>
   (\<exists>sz base offset segments. a = Granted_attach sz base offset segments)"
  by (cases a) simp_all

lemma answer_is_ack: "m_type (answer_message a) = AHE_BROKER_ACK \<longleftrightarrow> a = Acknowledged"
  by (cases a) simp_all

section \<open>What a client makes of an answer\<close>

text \<open>
  Whatever its kernel does, a client that was handed an answer either fails and keeps its
  role, or has become the creator by a \<open>CREATE\<close>, or is attached at exactly the base address and
  the globals a valid \<open>ATTACH\<close> names.
\<close>

definition accept_outcome :: "ahe_broker_client \<Rightarrow> ahe_broker_message \<Rightarrow> usize
     \<Rightarrow> int \<times> ahe_broker_client \<times> segment_outputs \<Rightarrow> bool" where
  "accept_outcome c m sz = (\<lambda>(res, c', o'). k_ready c' = k_ready c \<and>
     (res = ZEND_OPCACHE_SHM_ALLOC_FAILURE \<and> k_reattached c' = k_reattached c \<and> k_creator c' = k_creator c \<or>
      m_type m = AHE_BROKER_ATTACH \<and> res = ZEND_OPCACHE_SHM_SUCCESSFULLY_REATTACHED \<and>
        k_reattached c' \<and> \<not> k_creator c' \<and> m_mapping_base m \<noteq> 0 \<and> m_mapping_size m = sz \<and>
        k_mapping c' = m_mapping_base m \<and> k_mapping_size c' = sz \<and>
        out_globals o' = m_mapping_base m + m_shared_globals_offset m \<or>
      m_type m = AHE_BROKER_CREATE \<and> res = ZEND_OPCACHE_SHM_ALLOC_SUCCESS \<and>
        \<not> k_reattached c' \<and> k_creator c' \<and> m_mapping_size m = sz \<and> k_mapping_size c' = sz))"

lemma wp_acquire_failed_outcome:
  assumes "k_ready c1 = k_ready c" "k_reattached c1 = k_reattached c" "k_creator c1 = k_creator c"
  shows "wp (acquire_failed e c1 outputs) (\<lambda>r _. accept_outcome c m sz r) w"
  unfolding acquire_failed_def wp_bind wp_return
  by (rule wp_close_descriptors) (use assms in \<open>simp add: accept_outcome_def\<close>)

lemma wp_map_cache_outcome:
  assumes "m_type m = AHE_BROKER_ATTACH \<and> base = m_mapping_base m \<and> base \<noteq> 0 \<or>
      m_type m = AHE_BROKER_CREATE \<and> base = 0"
    and "m_mapping_size m = sz" and "k_ready c1 = k_ready c" "k_reattached c1 = k_reattached c" "k_creator c1 = k_creator c"
  shows "wp (map_cache c1 m sz base flags outputs) (\<lambda>r _. accept_outcome c m sz r) w"
proof -
  have fail: "wp (acquire_failed e (c1\<lparr>k_mapping := a\<rparr>) o') (\<lambda>r _. accept_outcome c m sz r) w'"
    "wp (acquire_failed e (c1\<lparr>k_mapping := a, k_mapping_size := n\<rparr>) o') (\<lambda>r _. accept_outcome c m sz r) w'"
    for e a n o' w' using assms(3-5) by (simp_all add: wp_acquire_failed_outcome)
  have completed: "accept_outcome c m sz (acquire_completed
      (c1\<lparr>k_mapping := a, k_mapping_size := sz, k_segment_allocation := s\<rparr>) m o')"
    if "base \<noteq> 0 \<Longrightarrow> a = base" for a s o'
    using assms that by (auto simp: accept_outcome_def acquire_completed_def Let_def)
  show ?thesis
    unfolding map_cache_def ahe_broker_allocate_segment_def
    by (simp add: wp_bind wp_sys wp_return Let_def fail completed)
qed

lemma wp_accept_outcome:
  "wp (accept_response c m fds sz outputs) (\<lambda>r _. accept_outcome c m sz r) w"
proof -
  have reject: "wp (do {_ \<leftarrow> ahe_broker_close_received_fds fds; acquire_failed e c outputs})
      (\<lambda>r _. accept_outcome c m sz r) w" for e
    unfolding wp_bind by (rule wp_close_received_fds, rule wp_acquire_failed_outcome) simp_all
  show ?thesis
    unfolding accept_response_def wp_if Let_def
    using reject by (auto simp: response_invalid_def intro!: wp_acquire_failed_outcome wp_map_cache_outcome)
qed

section \<open>Runs on a kernel that cooperates\<close>

lemma run_sys_retry_ok:
  assumes "retry_stops again" and "0 \<le> r_ret (next_reply w)"
  shows "run_state (sys_retry c again) w = (next_reply w, answered c (next_reply w) w)"
  by (subst sys_retry_unfold [OF assms(1)]) (use assms(2) in \<open>simp add: sys_def\<close>)

text \<open>The world after some calls were answered, the first one first.\<close>

primrec after_calls :: "event list \<Rightarrow> world \<Rightarrow> world" where
  "after_calls [] w = w"
| "after_calls (e # es) w = after_calls es (answered (fst e) (snd e) w)"

lemma after_calls_simps [simp]:
  "script (after_calls es w) = drop (length es) (script w)"
  "history (after_calls es w) = rev es @ history w"
  "euid (after_calls es w) = euid w"
  "environ (after_calls es w) = environ w"
  by (induction es arbitrary: w) (simp_all add: drop_Suc)

lemma after_calls_stopping [simp]:
  "stopping (after_calls es w) \<longleftrightarrow> stopping w \<or> (\<exists>e \<in> set es. r_signal (snd e))"
  by (induction es arbitrary: w) auto

lemma after_calls_append [simp]: "after_calls (es @ es') w = after_calls es' (after_calls es w)"
  by (induction es arbitrary: w) simp_all

text \<open>The three answers of the broker that matter, when its calls succeed.\<close>

text \<open>The calls with which the broker creates a cache and hands it out.\<close>

definition creating_calls :: "usize \<Rightarrow> reply \<Rightarrow> reply \<Rightarrow> reply \<Rightarrow> reply \<Rightarrow> event list" where
  "creating_calls sz r1 r2 r3 r4 = [(Memfd_create ''ahe-opcache'' MFD_CLOEXEC_EXEC, r1), (Ftruncate (r_ret r1) sz, r2),
     (Memfd_create ''ahe-opcache-lock'' MFD_CLOEXEC, r3), (Ftruncate (r_ret r3) 1, r4)]"

lemma run_grant_create_calls:
  assumes "acquire_request_valid m" and "script w = [r1, r2, r3, r4, r5] @ rest"
    and "0 \<le> r_ret r1" and "0 \<le> r_ret r2" and "0 \<le> r_ret r3" and "0 \<le> r_ret r4"
    and "r_ret r5 = int MESSAGE_SIZE"
  shows "run_state (ahe_broker_handle_acquire f ahe_generation_init m) w =
      ((0, ahe_generation_init\<lparr>g_cache_fd := r_ret r1, g_lock_fd := r_ret r3,
        g_state := AHE_GENERATION_INITIALIZING, g_creator_fd := f, g_mapping_size := m_mapping_size m,
        g_cache_key := m_cache_key m\<rparr>),
      after_calls (creating_calls (m_mapping_size m) r1 r2 r3 r4 @ [(Sendmsg f (encode_message (answer_message
        (Granted_create (m_mapping_size m) (r_ret r1, r_ret r3)))) [r_ret r1, r_ret r3], r5)]) w)"
proof -
  note run = sys_def next_reply_def assms(2) ahe_cache_memfd_create_def get_errno_def
  let ?g = "ahe_generation_init\<lparr>g_cache_fd := r_ret r1, g_lock_fd := r_ret r3,
    g_state := AHE_GENERATION_INITIALIZING, g_creator_fd := f, g_mapping_size := m_mapping_size m,
    g_cache_key := m_cache_key m\<rparr>"
  let ?w = "after_calls (creating_calls (m_mapping_size m) r1 r2 r3 r4) w"
  have create: "run_state (ahe_generation_create ahe_generation_init f m) w = ((0, ?g), ?w)"
    using assms by (simp add: ahe_generation_create_def Let_def run not_less ahe_generation_init_def creating_calls_def)
  have n: "next_reply ?w = r5" by (simp add: next_reply_def assms(2) creating_calls_def)
  have "ahe_generation_matches ?g m" using assms(1)
    by (simp add: ahe_generation_matches_def acquire_request_valid_def)
  moreover have "grant_message ?g = answer_message (Granted_create (m_mapping_size m) (r_ret r1, r_ret r3))"
    by (simp add: grant_message_def ahe_generation_init_def ahe_broker_message_init_def)
  ultimately show ?thesis
    using n assms(7)
    by (simp add: ahe_broker_handle_acquire_def create ahe_broker_send_message_def run_sys_retry_ok)
qed

lemma run_grant_create:
  assumes "acquire_request_valid m" and "script w = [r1, r2, r3, r4, r5] @ rest"
    and "0 \<le> r_ret r1" and "0 \<le> r_ret r2" and "0 \<le> r_ret r3" and "0 \<le> r_ret r4"
    and "r_ret r5 = int MESSAGE_SIZE"
  shows "\<exists>w'. run_state (ahe_broker_handle_acquire f ahe_generation_init m) w =
      ((0, ahe_generation_init\<lparr>g_cache_fd := r_ret r1, g_lock_fd := r_ret r3,
        g_state := AHE_GENERATION_INITIALIZING, g_creator_fd := f, g_mapping_size := m_mapping_size m,
        g_cache_key := m_cache_key m\<rparr>), w') \<and>
    hd (history w') = (Sendmsg f (encode_message (answer_message
      (Granted_create (m_mapping_size m) (r_ret r1, r_ret r3)))) [r_ret r1, r_ret r3], r5) \<and> history w' \<noteq> []"
  by (simp add: run_grant_create_calls [OF assms])

text \<open>A whole request at the head of a datagram.\<close>

lemma run_receive:
  assumes "wf_message m" and "m_magic m = AHE_BROKER_PROTOCOL_MAGIC" and "m_version m = AHE_BROKER_PROTOCOL_VERSION"
    and "script w = r # rest" and "0 \<le> r_ret r" and "r_data r = encode_message m @ junk"
  shows "run_state (ahe_broker_receive_message f) w = ((1, m), answered (Recv f MESSAGE_SIZE) r w)"
  using assms wire.received_prefix [OF assms(1), of junk]
  by (simp add: ahe_broker_receive_message_def run_sys_retry_ok next_reply_def recv_result_def Let_def)

lemma run_publish:
  assumes "\<not> ready_request_invalid f g m" and "script w = r # rest" and "r_ret r = int MESSAGE_SIZE"
  shows "run_state (ahe_broker_handle_ready f g m) w = ((0, published_by g m),
    answered (Sendmsg f (encode_message (answer_message Acknowledged)) []) r w)"
  using assms by (simp add: ahe_broker_handle_ready_def ahe_broker_send_message_def run_sys_retry_ok next_reply_def)

lemma run_grant_attach:
  assumes "g_state g = AHE_GENERATION_READY" and "ahe_generation_matches g m"
    and "script w = r # rest" and "r_ret r = int MESSAGE_SIZE"
  shows "run_state (ahe_broker_handle_acquire f g m) w = ((0, g),
    answered (Sendmsg f (encode_message (answer_message (Granted_attach (g_mapping_size g) (g_mapping_base g)
      (g_shared_globals_offset g) (g_cache_fd g, g_lock_fd g)))) [g_cache_fd g, g_lock_fd g]) r w)"
  using assms by (simp add: ahe_broker_handle_acquire_def ahe_broker_send_message_def run_sys_retry_ok
      next_reply_def grant_message_published)

text \<open>The two answers a client accepts.\<close>

lemma run_accept_create:
  assumes "m_type m = AHE_BROKER_CREATE" and "m_mapping_size m = sz"
    and "script w = [r1, r2] @ rest" and "r_addr r1 \<noteq> MAP_FAILED" and "r_addr r2 \<noteq> 0"
  shows "\<exists>o' w'. run_state (accept_response c m [cache_fd, lock_fd] sz outputs) w =
      ((ZEND_OPCACHE_SHM_ALLOC_SUCCESS, c\<lparr>k_cache_fd := cache_fd, k_lock_fd := lock_fd,
        k_mapping := r_addr r1, k_mapping_size := sz, k_segment_allocation := r_addr r2,
        k_creator := True, k_reattached := False, k_acquired := True\<rparr>, o'), w')"
  using assms
  by (simp add: accept_response_def response_invalid_def Let_def map_cache_def sys_def next_reply_def
      ahe_broker_allocate_segment_def acquire_completed_def)

text \<open>The calls a client makes to map an answer.\<close>

definition mapping_calls :: "u64 \<Rightarrow> usize \<Rightarrow> fd \<Rightarrow> reply \<Rightarrow> reply \<Rightarrow> event list" where
  "mapping_calls base sz cache_fd r1 r2 =
     [(Mmap base sz (MAP_SHARED OR MAP_FIXED_NOREPLACE) cache_fd, r1), (Calloc SEGMENT_ALLOCATION_SIZE, r2)]"

lemma run_accept_attach:
  assumes "m_type m = AHE_BROKER_ATTACH" and "m_mapping_base m \<noteq> 0" and "m_mapping_base m \<noteq> MAP_FAILED \<and> m_mapping_size m = sz"
    and "m_shared_globals_offset m < sz"
    and "script w = [r1, r2] @ rest" and "r_addr r1 = m_mapping_base m" and "r_addr r2 \<noteq> 0"
  shows "run_state (accept_response c m [cache_fd, lock_fd] sz outputs) w =
      ((ZEND_OPCACHE_SHM_SUCCESSFULLY_REATTACHED, c\<lparr>k_cache_fd := cache_fd, k_lock_fd := lock_fd,
        k_mapping := m_mapping_base m, k_mapping_size := sz, k_segment_allocation := r_addr r2,
        k_creator := False, k_reattached := True, k_acquired := True\<rparr>,
        outputs\<lparr>out_segments := r_addr r2, out_count := 1,
          out_segment := \<lparr>seg_size = sz, seg_end = sz, seg_pos = 0, seg_p = m_mapping_base m\<rparr>,
          out_globals := m_mapping_base m + m_shared_globals_offset m\<rparr>),
      after_calls (mapping_calls (m_mapping_base m) sz cache_fd r1 r2) w)"
  using assms(1-3,5-7) assms(4) [unfolded not_le [symmetric]]
  by (simp add: accept_response_def response_invalid_def Let_def map_cache_def sys_def next_reply_def
      ahe_broker_allocate_segment_def acquire_completed_def mapping_calls_def)

text \<open>From connecting to being attached, with a broker that answers.\<close>

definition connecting_calls :: "string \<Rightarrow> reply \<Rightarrow> reply \<Rightarrow> reply \<Rightarrow> reply \<Rightarrow> reply \<Rightarrow> reply \<Rightarrow> event list" where
  "connecting_calls path r1 r2 r3 r4 r5 r6 = [(Socket False, r1),
     (Setsockopt_timeo (r_ret r1) ''SO_RCVTIMEO'' AHE_BROKER_IO_TIMEOUT_SECONDS, r2),
     (Setsockopt_timeo (r_ret r1) ''SO_SNDTIMEO'' AHE_BROKER_IO_TIMEOUT_SECONDS, r3),
     (Connect (r_ret r1) path, r4), (Getsockopt_peercred (r_ret r1), r5), (Lstat path, r6)]"

lemma run_connect:
  assumes "path \<noteq> []" and "length path < SUN_PATH_SIZE"
    and "script w = [r1, r2, r3, r4, r5, r6] @ rest"
    and "0 \<le> r_ret r1" and "0 \<le> r_ret r2" and "0 \<le> r_ret r3" and "0 \<le> r_ret r4"
    and "\<not> broker_rejected (euid w) r5" and "0 \<le> r_ret r6" and "private_socket (euid w) (r_stat r6)"
  shows "run_state (ahe_broker_connect path) w = (r_ret r1, after_calls (connecting_calls path r1 r2 r3 r4 r5 r6) w)"
  using assms
  by (simp add: ahe_broker_connect_def Let_def set_timeouts_def verify_broker_def sys_def next_reply_def geteuid_def
      not_less not_le connecting_calls_def)

definition exchange_calls :: "fd \<Rightarrow> ahe_broker_message \<Rightarrow> reply \<Rightarrow> reply \<Rightarrow> event list" where
  "exchange_calls f request r1 r2 =
     [(Sendmsg f (encode_message request) [], r1), (Recvmsg f MESSAGE_SIZE CONTROL_SIZE, r2)]"

lemma run_exchange:
  assumes "wf_message m" and "m_magic m = AHE_BROKER_PROTOCOL_MAGIC" and "m_version m = AHE_BROKER_PROTOCOL_VERSION"
    and "script w = [r1, r2] @ rest" and "r_ret r1 = int MESSAGE_SIZE" and "0 \<le> r_ret r2"
    and "r_data r2 = encode_message m" and "\<not> r_trunc r2"
    and "collect_fds (r_ctl r2) cap [] = ret (Some fds)"
  shows "run_state (exchange f request cap) w = ((0, m, fds), after_calls (exchange_calls f request r1 r2) w)"
proof -
  have d: "decode_message (memcpy_into (zeroed MESSAGE_SIZE) (encode_message m)) = m"
    using assms(1) by (simp add: encode_message_length memcpy_into_def zeroed_def decode_encode_message)
  show ?thesis
    using assms
    by (simp add: exchange_def ahe_client_send_message_def ahe_client_receive_message_def run_sys_retry_ok
        next_reply_def recv_result_def Let_def d encode_message_length exchange_calls_def)
qed

lemma collect_two_fds:
  "collect_fds [\<lparr>cmsg_level = SOL_SOCKET, cmsg_type = SCM_RIGHTS, cmsg_len = 24, cmsg_fds = [a, b]\<rparr>] 2 [] =
     ret (Some [a, b])"
  by simp

text \<open>Acquiring: ten calls, and the client that results.\<close>

definition attaching_calls :: "string \<Rightarrow> string \<Rightarrow> usize \<Rightarrow> u64 \<Rightarrow> fd \<Rightarrow> reply list \<Rightarrow> event list" where
  "attaching_calls path key sz base cache_fd rs =
     connecting_calls path (rs ! 0) (rs ! 1) (rs ! 2) (rs ! 3) (rs ! 4) (rs ! 5) @
     exchange_calls (r_ret (rs ! 0)) (acquire_request key sz) (rs ! 6) (rs ! 7) @
     mapping_calls base sz cache_fd (rs ! 8) (rs ! 9)"

lemma run_acquire_attach_calls:
  assumes "length key < AHE_BROKER_CACHE_KEY_SIZE" and "path \<noteq> []" and "length path < SUN_PATH_SIZE"
    and "script w = [r1, r2, r3, r4, r5, r6, r7, r8, r9, r10] @ rest"
    and "0 \<le> r_ret r1" and "0 \<le> r_ret r2" and "0 \<le> r_ret r3" and "0 \<le> r_ret r4"
    and "\<not> broker_rejected (euid w) r5" and "0 \<le> r_ret r6" and "private_socket (euid w) (r_stat r6)"
    and "r_ret r7 = int MESSAGE_SIZE" and "0 \<le> r_ret r8" and "\<not> r_trunc r8"
    and "r_data r8 = encode_message (answer_message (Granted_attach sz base offset fds))"
    and "r_ctl r8 = [\<lparr>cmsg_level = SOL_SOCKET, cmsg_type = SCM_RIGHTS, cmsg_len = 24, cmsg_fds = [a, b]\<rparr>]"
    and "base \<noteq> 0" and "base \<noteq> MAP_FAILED" and "offset < sz" and "r_addr r9 = base" and "r_addr r10 \<noteq> 0"
  shows "run_state (ahe_broker_client_acquire c path key sz outputs) w =
      ((ZEND_OPCACHE_SHM_SUCCESSFULLY_REATTACHED,
        c\<lparr>k_timed_out := False, k_socket_fd := r_ret r1, k_cache_fd := a, k_lock_fd := b, k_mapping := base,
          k_mapping_size := sz, k_segment_allocation := r_addr r10, k_creator := False, k_reattached := True,
          k_acquired := True\<rparr>,
        outputs\<lparr>out_segments := r_addr r10, out_count := 1,
          out_segment := \<lparr>seg_size = sz, seg_end = sz, seg_pos = 0, seg_p = base\<rparr>,
          out_globals := base + offset\<rparr>),
      after_calls (attaching_calls path key sz base a [r1, r2, r3, r4, r5, r6, r7, r8, r9, r10]) w)"
proof -
  let ?m = "answer_message (Granted_attach sz base offset fds)"
  let ?c = "c\<lparr>k_timed_out := False, k_socket_fd := r_ret r1\<rparr>"
  have "script w = [r1, r2, r3, r4, r5, r6] @ [r7, r8, r9, r10] @ rest" using assms(4) by simp
  note c = run_connect [OF assms(2,3) this assms(5-11)]
  let ?w1 = "after_calls (connecting_calls path r1 r2 r3 r4 r5 r6) w"
  have "script ?w1 = [r7, r8] @ [r9, r10] @ rest" using assms(4) by (simp add: connecting_calls_def)
  from run_exchange [OF _ _ _ this assms(12,13,15,14), of 2 "[a, b]" "r_ret r1" "acquire_request key sz"]
  have e: "run_state (exchange (r_ret r1) (acquire_request key sz) 2) ?w1 =
      ((0, ?m, [a, b]), after_calls (exchange_calls (r_ret r1) (acquire_request key sz) r7 r8) ?w1)"
    by (simp add: assms(16) collect_two_fds wf_message_def)
  let ?w2 = "after_calls (exchange_calls (r_ret r1) (acquire_request key sz) r7 r8) ?w1"
  have "script ?w2 = [r9, r10] @ rest" using assms(4) by (simp add: connecting_calls_def exchange_calls_def)
  from run_accept_attach [OF _ _ _ _ this, of ?m sz ?c a b outputs] assms(17-21)
  have "run_state (accept_response ?c ?m [a, b] sz outputs) ?w2 =
      ((ZEND_OPCACHE_SHM_SUCCESSFULLY_REATTACHED, ?c\<lparr>k_cache_fd := a, k_lock_fd := b, k_mapping := base,
        k_mapping_size := sz, k_segment_allocation := r_addr r10, k_creator := False, k_reattached := True,
        k_acquired := True\<rparr>, outputs\<lparr>out_segments := r_addr r10, out_count := 1,
          out_segment := \<lparr>seg_size = sz, seg_end = sz, seg_pos = 0, seg_p = base\<rparr>,
          out_globals := base + offset\<rparr>), after_calls (mapping_calls base sz a r9 r10) ?w2)"
    by simp
  with assms(1,5) show ?thesis
    by (simp add: ahe_broker_client_acquire_def Let_def c e get_errno_def attaching_calls_def)
qed

lemma run_acquire_attach:
  assumes "length key < AHE_BROKER_CACHE_KEY_SIZE" and "path \<noteq> []" and "length path < SUN_PATH_SIZE"
    and "script w = [r1, r2, r3, r4, r5, r6, r7, r8, r9, r10] @ rest"
    and "0 \<le> r_ret r1" and "0 \<le> r_ret r2" and "0 \<le> r_ret r3" and "0 \<le> r_ret r4"
    and "\<not> broker_rejected (euid w) r5" and "0 \<le> r_ret r6" and "private_socket (euid w) (r_stat r6)"
    and "r_ret r7 = int MESSAGE_SIZE" and "0 \<le> r_ret r8" and "\<not> r_trunc r8"
    and "r_data r8 = encode_message (answer_message (Granted_attach sz base offset fds))"
    and "r_ctl r8 = [\<lparr>cmsg_level = SOL_SOCKET, cmsg_type = SCM_RIGHTS, cmsg_len = 24, cmsg_fds = [a, b]\<rparr>]"
    and "base \<noteq> 0" and "base \<noteq> MAP_FAILED" and "offset < sz" and "r_addr r9 = base" and "r_addr r10 \<noteq> 0"
  shows "\<exists>c' o' w'. run_state (ahe_broker_client_acquire c path key sz outputs) w =
      ((ZEND_OPCACHE_SHM_SUCCESSFULLY_REATTACHED, c', o'), w') \<and>
    k_socket_fd c' = r_ret r1 \<and> k_cache_fd c' = a \<and> k_lock_fd c' = b \<and>
    k_mapping c' = base \<and> k_mapping_size c' = sz \<and> out_segments o' = r_addr r10 \<and> out_globals o' = base + offset"
  by (simp add: run_acquire_attach_calls [OF assms])

text \<open>Leaving: a notice and its acknowledgement.\<close>

lemma run_notify:
  assumes "0 \<le> k_socket_fd c" and "script w = [r1, r2] @ rest" and "r_ret r1 = int MESSAGE_SIZE"
    and "0 \<le> r_ret r2" and "r_data r2 = encode_message (answer_message Acknowledged)" and "\<not> r_trunc r2" and "r_ctl r2 = []"
  shows "run_state (ahe_broker_client_notify c ty) w =
    (0, after_calls (exchange_calls (k_socket_fd c) (ahe_broker_message_init ty) r1 r2) w)"
  using assms(1,7) run_exchange [OF answer_message_wf _ _ assms(2,3,4,5,6), of 0 "[]" "k_socket_fd c" "ahe_broker_message_init ty"]
  by (simp add: ahe_broker_client_notify_def)

end
