(* ===== verification/Broker_Main.thy ===== *)
theory Broker_Main imports Broker_Listener Generation_Spec begin

text \<open>
  The broker program: \<open>ahe_broker_parse_max_clients\<close> and \<open>main\<close> of
  \<^verbatim>\<open>src/ahe_broker.c\<close>, from its command line to its exit status, around the event loop
  of \<open>Broker_Loop\<close>.
\<close>

section \<open>The command line\<close>

text \<open>\<open>isspace\<close> in the C locale.\<close>

definition is_space :: "char \<Rightarrow> bool" where
  "is_space c \<longleftrightarrow> c = CHR '' '' \<or> 9 \<le> (of_char c :: nat) \<and> of_char c \<le> (13 :: nat)"

text \<open>
  \<open>strtoul(value, &end, 10)\<close> as the C standard defines it: the number, the text at \<open>end\<close>, and
  whether \<open>errno\<close> is set to \<open>ERANGE\<close>. A minus sign negates the number in \<open>unsigned long\<close>.
\<close>

definition strtoul10 :: "string \<Rightarrow> u64 \<times> string \<times> bool" where
  "strtoul10 value =
     (let subject = dropWhile is_space value;
          negative = (subject \<noteq> [] \<and> hd subject = CHR ''-'');
          signed = (subject \<noteq> [] \<and> (hd subject = CHR ''-'' \<or> hd subject = CHR ''+''));
          number = (if signed then tl subject else subject);
          digits = takeWhile is_digit number;
          rest = dropWhile is_digit number;
          magnitude = decimal_value digits
      in if digits = [] then (0, value, False)
         else if magnitude > unat ULONG_MAX then (ULONG_MAX, rest, True)
         else (if negative then - of_nat magnitude else of_nat magnitude, rest, False))"

definition ahe_broker_parse_max_clients :: "string \<Rightarrow> u64 option" where
  "ahe_broker_parse_max_clients value = (case strtoul10 value of (parsed, rest, out_of_range) \<Rightarrow>
     if out_of_range \<or> rest \<noteq> [] \<or> parsed = 0 then None else Some parsed)"

text \<open>The loop over \<open>argv\<close>, from its second element on; \<open>None\<close> is a usage error.\<close>

fun parse_arguments :: "string list \<Rightarrow> string option \<Rightarrow> u64 \<Rightarrow> (string option \<times> u64) option" where
  "parse_arguments [] socket_path max_clients = Some (socket_path, max_clients)"
| "parse_arguments [arg] socket_path max_clients = None"
| "parse_arguments (arg # value # rest) socket_path max_clients =
     (if arg = ''--socket'' then parse_arguments rest (Some value) max_clients
      else if arg = ''--max-clients''
      then case ahe_broker_parse_max_clients value of
          Some parsed \<Rightarrow> parse_arguments rest socket_path parsed
        | None \<Rightarrow> None
      else None)"

section \<open>Running and shutting down\<close>

abbreviation SIGINT :: int where "SIGINT \<equiv> 2"

abbreviation SIGPIPE :: int where "SIGPIPE \<equiv> 13"

abbreviation SIGTERM :: int where "SIGTERM \<equiv> 15"

definition setup_signals :: "(world, bool) state" where
  "setup_signals = do {
     r \<leftarrow> sys (Sigaction SIGINT);
     if r_ret r < 0 then ret False
     else do {
       r \<leftarrow> sys (Sigaction SIGTERM);
       if r_ret r < 0 then ret False
       else do {r \<leftarrow> sys (Sigaction SIGPIPE); ret (\<not> r_ret r < 0)}
     }
   }"

text \<open>
  \<open>while (client_count) ahe_broker_close_client(clients, &client_count, client_count - 1, ...)\<close>.
\<close>

primrec close_clients :: "nat \<Rightarrow> ahe_broker \<Rightarrow> (world, ahe_broker) state" where
  "close_clients 0 b = ret b"
| "close_clients (Suc n) b = do {b \<leftarrow> close_at n b; close_clients n b}"

definition ahe_broker_shutdown :: "string \<Rightarrow> ahe_broker \<Rightarrow> (world, int) state" where
  "ahe_broker_shutdown socket_path b = do {
     b \<leftarrow> close_clients (length (b_clients b)) b;
     _ \<leftarrow> ahe_generation_reset (b_generation b);
     _ \<leftarrow> close_listener b;
     r \<leftarrow> sys (Unlink socket_path);
     e \<leftarrow> get_errno;
     if r_ret r < 0 \<and> e \<noteq> ENOENT
     then do {note_call (Message ''ahe-broker: unlink''); ret EXIT_FAILURE}
     else ret (b_exit_status b)
   }"

definition ahe_broker_run :: "string \<Rightarrow> u64 \<Rightarrow> (world, int) state" where
  "ahe_broker_run socket_path max_clients = do {
     ready \<leftarrow> setup_signals;
     if \<not> ready then do {note_call (Message ''ahe-broker: signal setup''); ret EXIT_FAILURE}
     else do {
       listener_fd \<leftarrow> ahe_broker_create_listener socket_path;
       if listener_fd < 0 then do {note_call (Message ''ahe-broker: listen''); ret EXIT_FAILURE}
       else do {
         b \<leftarrow> State (broker_loop (broker_initial listener_fd max_clients));
         ahe_broker_shutdown socket_path b
       }
     }
   }"

definition ahe_broker_usage :: "string \<Rightarrow> string" where
  "ahe_broker_usage program_name =
     ''Usage: '' @ program_name @ '' --socket PATH [--max-clients COUNT]''"

definition ahe_broker_main :: "string \<Rightarrow> string list \<Rightarrow> (world, int) state" where
  "ahe_broker_main program_name arguments = (case parse_arguments arguments None 0 of
     Some (Some socket_path, max_clients) \<Rightarrow> ahe_broker_run socket_path max_clients
   | _ \<Rightarrow> do {note_call (Message (ahe_broker_usage program_name)); ret EXIT_FAILURE})"

section \<open>Parsing the limit\<close>

lemma digit_not_special:
  assumes "is_digit c"
  shows "\<not> is_space c" and "c \<noteq> CHR ''-''" and "c \<noteq> CHR ''+''"
  using assms by (auto simp: is_digit_def is_space_def)

lemma strtoul10_digits:
  assumes "ds \<noteq> []" and "\<forall>c \<in> set ds. is_digit c"
  shows "strtoul10 ds = (if decimal_value ds > unat ULONG_MAX then (ULONG_MAX, [], True)
    else (of_nat (decimal_value ds), [], False))"
proof -
  obtain c cs where ds: "ds = c # cs" using assms(1) by (cases ds) auto
  with assms(2) have c: "is_digit c" by simp
  have "dropWhile is_space ds = ds" using digit_not_special(1) [OF c] ds by simp
  moreover have "takeWhile is_digit ds = ds" "dropWhile is_digit ds = []"
    using assms(2) by (simp_all add: takeWhile_eq_all_conv)
  ultimately show ?thesis
    using digit_not_special(2,3) [OF c] ds by (simp add: strtoul10_def Let_def)
qed

section \<open>Shutting down\<close>

lemma wp_close_clients:
  "broker_ok b \<Longrightarrow> n = length (b_clients b) \<Longrightarrow>
   wp (close_clients n b) (\<lambda>b' w'. loop_post b w b' w' \<and> quiet w w' \<and> b_clients b' = []) w"
proof (induction n arbitrary: b w)
  case 0
  then show ?case by (simp add: wp_rules loop_post_refl)
next
  case (Suc n)
  then have n: "n < length (b_clients b)" by simp
  show ?case unfolding close_clients.simps
  proof (rule wp_seq [OF wp_close_at [OF Suc.prems(1) n]], elim conjE)
    fix b1 w1
    assume 1: "loop_post b w b1 w1" "quiet w w1" "b_clients b1 = swap_remove (b_clients b) n"
    have l: "n = length (b_clients b1)" using 1(3) Suc.prems(2) by simp
    show "wp (close_clients n b1)
        (\<lambda>b' w'. loop_post b w b' w' \<and> quiet w w' \<and> b_clients b' = []) w1"
      by (rule wp_mono [OF Suc.IH [OF loop_post_ok [OF 1(1)] l]])
        (use 1 in \<open>auto intro: loop_post_trans quiet_trans\<close>)
  qed
qed

lemma wp_close_listener_quiet: "wp (close_listener b) (\<lambda>_ w'. quiet w w') w"
  by (simp add: close_listener_def wp_rules) (intro impI quiet_intros; simp)

lemma holds_close_listener:
  "holds (fd_mset (b_listener_fd b) + F) w \<Longrightarrow> wp (close_listener b) (\<lambda>_ w'. holds F w') w"
  by (auto simp: close_listener_def wp_rules fd_mset_neg intro: holds_noted_close)

text \<open>Shutting down gives back everything the broker owns, and sends nothing more.\<close>

lemma wp_shutdown:
  assumes ok: "broker_ok b"
  shows "wp (ahe_broker_shutdown path b) (\<lambda>_ w'. quiet w w' \<and>
    (\<forall>F. holds (owned_fds b + F) w \<longrightarrow> holds F w')) w"
  unfolding ahe_broker_shutdown_def
proof (rule wp_seq [OF wp_close_clients [OF ok refl]], elim conjE)
  fix b1 w1
  assume p: "loop_post b w b1 w1" and q: "quiet w w1" and e: "b_clients b1 = []"
  let ?F = "\<lambda>F. gen_fds (b_generation b1) + (fd_mset (b_listener_fd b1) + F)"
  have h1: "holds (?F F) w1" if "holds (owned_fds b + F) w" for F
    using p that e by (simp add: loop_post_def owned_fds_def add.assoc)
  let ?rest = "do {
     _ \<leftarrow> close_listener b1;
     r \<leftarrow> sys (Unlink path);
     e \<leftarrow> get_errno;
     if r_ret r < 0 \<and> e \<noteq> ENOENT
     then do {note_call (Message ''ahe-broker: unlink''); ret EXIT_FAILURE}
     else ret (b_exit_status b1)
   }"
  have tail: "wp ?rest (\<lambda>_ w'. quiet w w' \<and> (\<forall>F. holds (owned_fds b + F) w \<longrightarrow> holds F w')) w2"
    if q2: "quiet w w2"
      and h2: "\<And>F. holds (owned_fds b + F) w \<Longrightarrow> holds (fd_mset (b_listener_fd b1) + F) w2" for w2
  proof (rule wp_seq [where P = "\<lambda>_ w3. quiet w w3 \<and> (\<forall>F. holds (owned_fds b + F) w \<longrightarrow> holds F w3)"])
    show "wp (close_listener b1)
        (\<lambda>_ w3. quiet w w3 \<and> (\<forall>F. holds (owned_fds b + F) w \<longrightarrow> holds F w3)) w2"
    proof (rule wp_conjI)
      show "wp (close_listener b1) (\<lambda>_ w3. quiet w w3) w2"
        by (rule wp_mono [OF wp_close_listener_quiet]) (use q2 in \<open>blast intro: quiet_trans\<close>)
      show "wp (close_listener b1) (\<lambda>_ w3. \<forall>F. holds (owned_fds b + F) w \<longrightarrow> holds F w3) w2"
        using holds_close_listener [OF h2] by (auto simp: wp_def split: prod.splits)
    qed
  next
    fix u w3
    assume "quiet w w3 \<and> (\<forall>F. holds (owned_fds b + F) w \<longrightarrow> holds F w3)"
    then show "wp (do {
         r \<leftarrow> sys (Unlink path);
         e \<leftarrow> get_errno;
         if r_ret r < 0 \<and> e \<noteq> ENOENT
         then do {note_call (Message ''ahe-broker: unlink''); ret EXIT_FAILURE}
         else ret (b_exit_status b1)
       }) (\<lambda>_ w'. quiet w w' \<and> (\<forall>F. holds (owned_fds b + F) w \<longrightarrow> holds F w')) w3"
      unfolding wp_rules by (auto intro!: quiet_intros holds_none_intros)
  qed
  show "wp (do {_ \<leftarrow> ahe_generation_reset (b_generation b1); ?rest})
      (\<lambda>_ w'. quiet w w' \<and> (\<forall>F. holds (owned_fds b + F) w \<longrightarrow> holds F w')) w1"
    unfolding wp_bind [where m = "ahe_generation_reset (b_generation b1)"]
    by (rule wp_generation_reset, rule tail) (use q h1 in \<open>blast intro: quiet_trans\<close>)+
qed

section \<open>The whole run\<close>

text \<open>Every \<open>ATTACH\<close> that was ever sent carries the same descriptors, base and offset.\<close>

definition uniform_attaches :: "event list \<Rightarrow> bool" where
  "uniform_attaches h \<longleftrightarrow> (\<forall>f bs fds f' bs' fds'.
     (f, bs, fds) \<in> sends h \<longrightarrow> (f', bs', fds') \<in> sends h \<longrightarrow>
     m_type (decode_message bs) = AHE_BROKER_ATTACH \<longrightarrow>
     m_type (decode_message bs') = AHE_BROKER_ATTACH \<longrightarrow> bs = bs' \<and> fds = fds')"

lemma attach_uniform_uniform: "attach_uniform g w \<Longrightarrow> uniform_attaches (history w)"
  unfolding attach_uniform_def uniform_attaches_def by metis

lemma uniform_attaches_quiet: "quiet w w' \<Longrightarrow> uniform_attaches (history w') = uniform_attaches (history w)"
  by (simp add: quiet_def uniform_attaches_def)

lemma uniform_attaches_none: "sends h = {} \<Longrightarrow> uniform_attaches h"
  by (simp add: uniform_attaches_def)

lemma attach_uniform_none: "sends (history w) = {} \<Longrightarrow> attach_uniform g w"
  by (simp add: attach_uniform_def)

definition run_post :: "world \<Rightarrow> world \<Rightarrow> bool" where
  "run_post w w' \<longleftrightarrow> (\<forall>F. holds F w \<longrightarrow> holds F w') \<and>
     (sends (history w) = {} \<longrightarrow> uniform_attaches (history w'))"

lemma run_post_quiet: "quiet w w' \<Longrightarrow> (\<And>F. holds F w \<Longrightarrow> holds F w') \<Longrightarrow> run_post w w'"
  by (simp add: run_post_def quiet_def uniform_attaches_none)

lemma wp_setup_signals: "wp setup_signals (\<lambda>_ w'. quiet w w' \<and> (\<forall>F. holds F w \<longrightarrow> holds F w')) w"
  unfolding setup_signals_def wp_rules by (auto intro!: quiet_intros holds_none_intros)

lemma wp_serve:
  assumes q: "quiet w w1" and h: "\<And>F. holds F w \<Longrightarrow> holds (fd_mset f + F) w1"
  shows "wp (do {b \<leftarrow> State (broker_loop (broker_initial f m)); ahe_broker_shutdown path b})
    (\<lambda>_ w'. run_post w w') w1"
proof -
  obtain b w2 where l: "broker_loop (broker_initial f m) w1 = (b, w2)" by fastforce
  from broker_loop_post [OF broker_ok_initial l]
  have p: "loop_post (broker_initial f m) w1 b w2" .
  have "run_post w w3" if "quiet w2 w3" "\<And>F. holds (owned_fds b + F) w2 \<Longrightarrow> holds F w3" for w3
  proof -
    have "holds F w3" if "holds F w" for F
      using h [OF that] p \<open>\<And>F. holds (owned_fds b + F) w2 \<Longrightarrow> holds F w3\<close>
      by (simp add: loop_post_def)
    moreover have "uniform_attaches (history w3)" if "sends (history w) = {}"
    proof -
      have "attach_uniform (b_generation (broker_initial f m)) w1"
        using that q by (intro attach_uniform_none) (simp add: quiet_def)
      with p have "attach_uniform (b_generation b) w2" by (simp add: loop_post_def evolves_def)
      with \<open>quiet w2 w3\<close> show ?thesis
        by (simp add: uniform_attaches_quiet attach_uniform_uniform)
    qed
    ultimately show ?thesis by (simp add: run_post_def)
  qed
  then have "wp (ahe_broker_shutdown path b) (\<lambda>_ w'. run_post w w') w2"
    by (intro wp_mono [OF wp_shutdown [OF loop_post_ok [OF p]]]) auto
  with l show ?thesis by (simp add: wp_def)
qed

lemma wp_run: "wp (ahe_broker_run path m) (\<lambda>_ w'. run_post w w') w"
proof -
  have quit: "wp (do {note_call (Message t); ret EXIT_FAILURE}) (\<lambda>_ w'. run_post w w') w1"
    if "quiet w w1" "\<And>F. holds F w \<Longrightarrow> holds F w1" for t w1
    unfolding wp_rules using that by (auto intro!: run_post_quiet quiet_intros holds_none_intros)
  have listen: "wp (ahe_broker_create_listener path) (\<lambda>f. wp (if f < 0
      then do {note_call (Message ''ahe-broker: listen''); ret EXIT_FAILURE}
      else do {b \<leftarrow> State (broker_loop (broker_initial f m)); ahe_broker_shutdown path b})
      (\<lambda>_ w'. run_post w w')) w1"
    if q: "quiet w w1" and h: "\<And>F. holds F w \<Longrightarrow> holds F w1" for w1
  proof (rule wp_create_listener, goal_cases opened failed)
    case (opened f w2)
    have "wp (do {b \<leftarrow> State (broker_loop (broker_initial f m)); ahe_broker_shutdown path b})
        (\<lambda>_ w'. run_post w w') w2"
      by (rule wp_serve) (use opened q h in \<open>auto simp: fd_mset_nonneg intro: quiet_trans\<close>)
    with opened(1) show ?case by simp
  next
    case (failed w2)
    have "quiet w w2" using q failed(1) by (rule quiet_trans)
    with quit [of w2] failed(2) h show ?case by simp
  qed
  show ?thesis
    unfolding ahe_broker_run_def
  proof (rule wp_seq [OF wp_setup_signals], elim conjE)
    fix ready w1
    assume "quiet w w1" and "\<forall>F. holds F w \<longrightarrow> holds F w1"
    with quit listen show "wp (if \<not> ready
        then do {note_call (Message ''ahe-broker: signal setup''); ret EXIT_FAILURE}
        else do {
          listener_fd \<leftarrow> ahe_broker_create_listener path;
          if listener_fd < 0 then do {note_call (Message ''ahe-broker: listen''); ret EXIT_FAILURE}
          else do {
            b \<leftarrow> State (broker_loop (broker_initial listener_fd m));
            ahe_broker_shutdown path b
          }
        }) (\<lambda>_ w'. run_post w w') w1"
      by (cases ready) (simp_all add: wp_bind)
  qed
qed

lemma wp_main: "wp (ahe_broker_main name arguments) (\<lambda>_ w'. run_post w w') w"
proof -
  have usage: "wp (do {note_call (Message t); ret EXIT_FAILURE}) (\<lambda>_ w'. run_post w w') w" for t
    unfolding wp_rules by (auto intro!: run_post_quiet quiet_intros holds_none_intros)
  then show ?thesis
    by (auto simp: ahe_broker_main_def wp_run split: option.splits)
qed

section \<open>Why the broker ends\<close>

text \<open>The broker writes to its standard error through \<open>Message\<close> only.\<close>

fun silent :: "syscall \<Rightarrow> bool" where
  "silent (Message text) = False"
| "silent c = True"

definition complained :: "world \<Rightarrow> world \<Rightarrow> bool" where
  "complained w w' \<longleftrightarrow> (\<exists>text. (Message text, returned 0) \<in> since w w')"

lemma complained_noted: "only_calls P w w1 \<Longrightarrow> complained w (noted (Message text) w1)"
  by (auto simp: complained_def only_calls_def since_append [where h = "_ # _"])

lemma complained_extends: "complained w1 w2 \<Longrightarrow> extends w w1 \<Longrightarrow> extends w2 w' \<Longrightarrow> complained w w'"
  unfolding complained_def by (blast intro: since_extends)

lemma silent_not_since: "only_calls silent w w' \<Longrightarrow> (Message text, r) \<notin> since w w'"
  by (fastforce simp: only_calls_def since_append)

lemma silent_handlers [calls_intros]:
  "calls silent (ahe_generation_reset g)"
  "calls silent (reset_if_creator f g)"
  "calls silent (ahe_broker_send_message f m fds)"
  "calls silent (ahe_broker_receive_message f)"
  "calls silent ahe_cache_memfd_create"
  by (auto simp: ahe_generation_reset_def reset_if_creator_def ahe_broker_send_message_def
      ahe_broker_receive_message_def ahe_cache_memfd_create_def Let_def intro!: calls_intros)

lemma silent_requests [calls_intros]:
  "calls silent (ahe_generation_create g f m)"
  "calls silent (ahe_broker_handle_acquire f g m)"
  "calls silent (ahe_broker_handle_ready f g m)"
  "calls silent (ahe_broker_dispatch f g m)"
  "calls silent (ahe_broker_handle_client_message c g)"
  by (auto simp: ahe_generation_create_def ahe_broker_handle_acquire_def ahe_broker_handle_ready_def
      ahe_broker_dispatch_def ahe_broker_handle_client_message_def Let_def intro!: calls_intros)

lemma silent_tables [calls_intros]:
  "calls silent (close_at i b)"
  "calls silent (close_listener b)"
  "calls silent (handle_readable i b)"
  "calls silent (ahe_broker_add_client cs n f)"
  "calls silent (serve_client i events b)"
  by (auto simp: close_at_def ahe_broker_close_client_def close_listener_def handle_readable_def
      ahe_broker_add_client_def serve_client_def Let_def intro!: calls_intros)

lemma silent_sweeps [calls_intros]:
  "calls silent (close_unhandled n b)"
  "calls silent (serve_clients n revents b)"
  "calls silent (close_clients n b)"
  by (induction n arbitrary: b) (auto intro!: calls_intros)

lemma silent_listener [calls_intros]: "calls silent (ahe_broker_create_listener path)" "calls silent setup_signals"
  by (auto simp: ahe_broker_create_listener_def clear_path_def ahe_broker_prepare_parent_directory_def
      ahe_broker_remove_stale_socket_def bind_and_listen_def setup_signals_def Let_def
      intro!: calls_intros split: sum.split)

text \<open>What serving and closing connections leaves alone.\<close>

lemma wp_True: "wp m (\<lambda>_ _. True) w"
  by (simp add: wp_def split: prod.split)

definition same_terms :: "ahe_broker \<Rightarrow> ahe_broker \<Rightarrow> bool" where
  "same_terms b b' \<longleftrightarrow> b_exit_status b' = b_exit_status b \<and> b_max_clients b' = b_max_clients b"

lemma same_terms_refl [simp]: "same_terms b b"
  by (simp add: same_terms_def)

lemma same_terms_trans: "same_terms b b1 \<Longrightarrow> same_terms b1 b' \<Longrightarrow> same_terms b b'"
  by (simp add: same_terms_def)

lemma wp_close_at_terms:
  "wp (close_at i b) (\<lambda>b' _. same_terms b b' \<and> b_handled_clients b' = b_handled_clients b \<and>
     b_listener_fd b' = b_listener_fd b) w"
  unfolding close_at_def by (rule wp_seq [OF wp_True]) (auto simp: wp_return same_terms_def)

lemma wp_close_unhandled_terms:
  "wp (close_unhandled n b) (\<lambda>b' _. same_terms b b' \<and> b_handled_clients b' = b_handled_clients b \<and>
     b_listener_fd b' = b_listener_fd b) w"
proof (induction n arbitrary: b w)
  case (Suc n)
  have "wp (if \<not> c_handled_message (b_clients b ! n) then close_at n b else ret b) (\<lambda>b' _.
      same_terms b b' \<and> b_handled_clients b' = b_handled_clients b \<and> b_listener_fd b' = b_listener_fd b) w" for w
    by (simp add: wp_close_at_terms wp_return)
  then show ?case unfolding close_unhandled.simps
    by (rule wp_seq, elim conjE) (rule wp_mono [OF Suc.IH], auto intro: same_terms_trans)
qed (simp add: wp_return)

lemma wp_handle_readable_terms: "wp (handle_readable i b) (\<lambda>(keep, b') _. same_terms b b') w"
  unfolding handle_readable_def Let_def by (rule wp_seq [OF wp_True]) (auto simp: wp_return same_terms_def)

lemma wp_serve_client_terms: "wp (serve_client i events b) (\<lambda>b' _. same_terms b b') w"
proof -
  have "wp (if limit_reached b \<and> \<not> c_handled_message (b_clients b ! i) then ret (False, b)
      else if events AND POLLIN \<noteq> 0 then handle_readable i b else ret (True, b))
      (\<lambda>(keep, b') _. same_terms b b') w"
    by (simp add: wp_return wp_handle_readable_terms)
  then have "wp (do {
        (keep_open, b) \<leftarrow>
          (if limit_reached b \<and> \<not> c_handled_message (b_clients b ! i) then ret (False, b)
           else if events AND POLLIN \<noteq> 0 then handle_readable i b
           else ret (True, b));
        if \<not> keep_open \<or> events AND POLL_FAILURE \<noteq> 0 then close_at i b else ret b
      }) (\<lambda>b' _. same_terms b b') w"
    by (rule wp_seq) (auto simp: wp_return intro!: wp_mono [OF wp_close_at_terms] intro: same_terms_trans)
  then show ?thesis by (simp add: serve_client_def wp_return)
qed

lemma wp_serve_clients_terms: "wp (serve_clients n revents b) (\<lambda>b' _. same_terms b b') w"
proof (induction n arbitrary: b w)
  case (Suc n)
  show ?case unfolding serve_clients.simps
    by (rule wp_seq [OF wp_serve_client_terms]) (rule wp_mono [OF Suc.IH], auto intro: same_terms_trans)
qed (simp add: wp_return)

lemma wp_close_clients_terms: "wp (close_clients n b) (\<lambda>b' _. same_terms b b') w"
proof (induction n arbitrary: b w)
  case (Suc n)
  show ?case unfolding close_clients.simps
    by (rule wp_seq [OF wp_close_at_terms]) (rule wp_mono [OF Suc.IH], auto intro: same_terms_trans)
qed (simp add: wp_return)

text \<open>
  How a turn of the loop ends: it goes on in silence; or it leaves with a complaint and the
  status of a failure; or, in silence, because the client limit is reached, the listener closed
  and no connection left.
\<close>

definition limit_served :: "ahe_broker \<Rightarrow> bool" where
  "limit_served b \<longleftrightarrow> limit_reached b \<and> b_clients b = [] \<and> b_listener_fd b < 0"

definition flow_explained :: "ahe_broker \<Rightarrow> world \<Rightarrow> loop_flow \<Rightarrow> world \<Rightarrow> bool" where
  "flow_explained b w r w' \<longleftrightarrow> (case r of
     Continue b' \<Rightarrow> only_calls silent w w' \<and> same_terms b b'
   | Break b' \<Rightarrow> complained w w' \<and> b_exit_status b' = EXIT_FAILURE \<or>
       only_calls silent w w' \<and> same_terms b b' \<and> limit_served b')"

lemma complained_after: "complained w1 w' \<Longrightarrow> only_calls P w w1 \<Longrightarrow> complained w w'"
  by (fastforce simp: complained_def only_calls_def since_def)

lemma complained_then_noted: "complained w w1 \<Longrightarrow> complained w (noted c w1)"
  unfolding complained_def since_def by (fastforce intro: exI [of _ "_ # _"])

lemma flow_explained_after:
  "only_calls silent w w1 \<Longrightarrow> same_terms b b1 \<Longrightarrow> flow_explained b1 w1 r w' \<Longrightarrow> flow_explained b w r w'"
  by (auto simp: flow_explained_def split: loop_flow.splits
      intro: only_calls_trans same_terms_trans complained_after)

lemma flow_explained_Continue: "only_calls silent w w' \<Longrightarrow> same_terms b b' \<Longrightarrow> flow_explained b w (Continue b') w'"
  by (simp add: flow_explained_def)

lemma wp_failing_explained: "only_calls silent w w1 \<Longrightarrow> wp (failing text b1) (flow_explained b w) w1"
  by (simp add: failing_def wp_bind wp_note_call wp_return flow_explained_def complained_noted)

lemma wp_enforce_limit_explained: "wp (enforce_limit b) (flow_explained b w) w"
proof (cases "limit_reached b")
  case True
  have listener: "wp (close_listener b) (\<lambda>b' _. same_terms b b' \<and> b_handled_clients b' = b_handled_clients b \<and>
      b_listener_fd b' < 0) w"
    by (simp add: close_listener_def wp_bind wp_close_fd wp_return same_terms_def not_le)
  have "wp (do {
      b \<leftarrow> close_listener b;
      b \<leftarrow> close_unhandled (length (b_clients b)) b;
      ret (if b_clients b = [] then Break b else Continue b)
    }) (flow_explained b w) w"
  proof (rule wp_seq [OF wp_conjI [OF calls_wp [OF silent_tables(2)] listener]], elim conjE)
    fix b1 w1
    assume 1: "only_calls silent w w1" "same_terms b b1" "b_handled_clients b1 = b_handled_clients b" "b_listener_fd b1 < 0"
    have "limit_reached b'" if "same_terms b1 b'" "b_handled_clients b' = b_handled_clients b1" for b'
      using True 1 that by (simp add: limit_reached_def same_terms_def)
    with 1 show "wp (do {
        b \<leftarrow> close_unhandled (length (b_clients b1)) b1;
        ret (if b_clients b = [] then Break b else Continue b)
      }) (flow_explained b w) w1"
      by (intro wp_seq [OF wp_conjI [OF calls_wp [OF silent_sweeps(1)] wp_close_unhandled_terms]])
        (auto simp: wp_return flow_explained_def limit_served_def intro: only_calls_trans same_terms_trans)
  qed
  with True show ?thesis by (simp add: enforce_limit_def)
qed (simp add: enforce_limit_def wp_return flow_explained_def)

lemma wp_grow_poll_array_explained: "wp (grow_poll_array b) (flow_explained b w) w"
  by (auto simp: grow_poll_array_def Let_def wp_bind wp_set_errno wp_sys wp_return same_terms_def
      intro!: wp_failing_explained flow_explained_Continue only_calls_intros)

lemma wp_accept_client_explained: "wp (accept_client b) (flow_explained b w) w"
proof -
  let ?w1 = "answered (Accept4 (b_listener_fd b)) (next_reply w) w"
  let ?w2 = "answered (Getsockopt_peercred (r_ret (next_reply w))) (next_reply ?w1) ?w1"
  have q: "only_calls silent w ?w1" "only_calls silent w ?w2"
    "only_calls silent w (noted (Close (r_ret (next_reply w))) ?w2)"
    by (auto intro!: only_calls_intros)
  have add: "wp (ahe_broker_add_client (b_clients b) (b_client_capacity b) f) (\<lambda>r. wp (case r of (added, clients, capacity) \<Rightarrow>
         if added < 0
         then do {
           _ \<leftarrow> note_call (Message ''ahe-broker: client allocation'');
           _ \<leftarrow> close_fd f;
           ret (Break (b\<lparr>b_exit_status := EXIT_FAILURE\<rparr>))
         }
         else ret (Continue (b\<lparr>b_clients := clients, b_client_capacity := capacity\<rparr>))) (flow_explained b w)) ?w2" for f
  proof (rule wp_mono [OF calls_wp [OF silent_tables(4)]])
    fix r w3
    assume "only_calls silent ?w2 w3"
    with q(2) have "only_calls silent w w3" by (rule only_calls_trans)
    then show "wp (case r of (added, clients, capacity) \<Rightarrow>
         if added < 0
         then do {
           _ \<leftarrow> note_call (Message ''ahe-broker: client allocation'');
           _ \<leftarrow> close_fd f;
           ret (Break (b\<lparr>b_exit_status := EXIT_FAILURE\<rparr>))
         }
         else ret (Continue (b\<lparr>b_clients := clients, b_client_capacity := capacity\<rparr>))) (flow_explained b w) w3"
      by (cases r) (auto simp: wp_bind wp_note_call wp_close_fd wp_return flow_explained_def same_terms_def
          intro!: complained_then_noted complained_noted)
  qed
  show ?thesis
    using add [of "r_ret (next_reply w)"] q
    by (simp add: accept_client_def Let_def wp_bind wp_sys wp_get_errno wp_geteuid wp_close_fd wp_return
        wp_failing_explained flow_explained_Continue)
qed

lemma wp_poll_and_serve_explained: "wp (poll_and_serve b) (flow_explained b w) w"
proof -
  let ?R = "next_reply w" and ?w1 = "answered (Poll (poll_fds b)) (next_reply w) w"
  have p: "only_calls silent w ?w1" by (auto intro!: only_calls_intros)
  have "wp (do {
      b \<leftarrow> serve_clients (length (b_clients b)) (r_revents ?R) b;
      let listener_events = revents_at (r_revents ?R) 0;
      if limit_reached b \<or> listener_events AND POLLIN = 0
      then if listener_events AND POLL_FAILURE \<noteq> 0
        then failing ''ahe-broker: listener poll failure'' b
        else ret (Continue b)
      else accept_client b
    }) (flow_explained b w) ?w1"
  proof (rule wp_seq [OF wp_conjI [OF calls_wp [OF silent_sweeps(2)] wp_serve_clients_terms]], elim conjE)
    fix b1 w2
    assume 1: "only_calls silent ?w1 w2" "same_terms b b1"
    then have "only_calls silent w w2" using p by (blast intro: only_calls_trans)
    with 1(2) show "wp (let listener_events = revents_at (r_revents ?R) 0
        in if limit_reached b1 \<or> listener_events AND POLLIN = 0
           then if listener_events AND POLL_FAILURE \<noteq> 0
             then failing ''ahe-broker: listener poll failure'' b1
             else ret (Continue b1)
           else accept_client b1) (flow_explained b w) w2"
      by (auto simp: Let_def wp_return intro!: wp_failing_explained flow_explained_Continue
          wp_mono [OF wp_accept_client_explained] intro: flow_explained_after)
  qed
  with p show ?thesis
    by (auto simp: poll_and_serve_def wp_bind wp_sys wp_get_errno wp_return Let_def
        intro!: wp_failing_explained flow_explained_Continue)
qed

lemma wp_iteration_explained: "wp (ahe_broker_iteration b) (flow_explained b w) w"
  unfolding ahe_broker_iteration_def
proof (rule wp_seq [OF wp_enforce_limit_explained])
  fix r1 w1
  assume 1: "flow_explained b w r1 w1"
  show "wp (case r1 of Continue b \<Rightarrow> do {
           grown \<leftarrow> grow_poll_array b;
           case grown of Continue b \<Rightarrow> poll_and_serve b | Break b \<Rightarrow> ret (Break b)
         } | Break b \<Rightarrow> ret (Break b)) (flow_explained b w) w1"
  proof (cases r1)
    case (Continue b1)
    then have c: "only_calls silent w w1" "same_terms b b1" using 1 by (simp_all add: flow_explained_def)
    have "wp (do {
           grown \<leftarrow> grow_poll_array b1;
           case grown of Continue b \<Rightarrow> poll_and_serve b | Break b \<Rightarrow> ret (Break b)
         }) (flow_explained b1 w1) w1"
    proof (rule wp_seq [OF wp_grow_poll_array_explained])
      fix r2 w2
      assume 2: "flow_explained b1 w1 r2 w2"
      then show "wp (case r2 of Continue b \<Rightarrow> poll_and_serve b | Break b \<Rightarrow> ret (Break b)) (flow_explained b1 w1) w2"
        by (cases r2) (auto simp: wp_return flow_explained_def [of _ _ "Continue _"]
            intro!: wp_mono [OF wp_poll_and_serve_explained] intro: flow_explained_after)
    qed
    with c show ?thesis by (auto simp: Continue intro: wp_mono flow_explained_after)
  next
    case (Break b1)
    with 1 show ?thesis by (simp add: wp_return)
  qed
qed

definition loop_explained :: "ahe_broker \<Rightarrow> world \<Rightarrow> ahe_broker \<Rightarrow> world \<Rightarrow> bool" where
  "loop_explained b w b' w' \<longleftrightarrow> complained w w' \<and> b_exit_status b' = EXIT_FAILURE \<or>
     only_calls silent w w' \<and> same_terms b b' \<and> (stopping w' \<or> limit_served b')"

lemma loop_explained_after:
  "only_calls silent w w1 \<Longrightarrow> same_terms b b1 \<Longrightarrow> loop_explained b1 w1 b' w' \<Longrightarrow> loop_explained b w b' w'"
  by (auto simp: loop_explained_def intro: only_calls_trans same_terms_trans complained_after)

lemma broker_loop_explained: "broker_loop b w = (b', w') \<Longrightarrow> loop_explained b w b' w'"
proof (induction b w arbitrary: b' w' rule: broker_loop.induct)
  case (1 b w)
  show ?case
  proof (cases "stopping w")
    case True
    with 1(2) show ?thesis by (simp add: broker_loop.simps loop_explained_def)
  next
    case False
    obtain r w1 where r: "run_state (ahe_broker_iteration b) w = (r, w1)" by fastforce
    have e: "flow_explained b w r w1" using wp_runD [OF wp_iteration_explained r] .
    show ?thesis
    proof (cases r)
      case (Continue b1)
      with r False 1(2) have "broker_loop b1 w1 = (b', w')" by (simp add: broker_loop.simps)
      with 1(1) [OF False r [symmetric] Continue] e Continue show ?thesis
        by (auto simp: flow_explained_def intro: loop_explained_after)
    next
      case (Break b1)
      with r False 1(2) e show ?thesis
        by (auto simp: broker_loop.simps flow_explained_def loop_explained_def)
    qed
  qed
qed

definition status_explained :: "int \<Rightarrow> world \<Rightarrow> int \<Rightarrow> world \<Rightarrow> bool" where
  "status_explained expected w status w' \<longleftrightarrow> complained w w' \<and> status = EXIT_FAILURE \<or>
     only_calls silent w w' \<and> status = expected"

lemma wp_shutdown_explained:
  "wp (ahe_broker_shutdown path b) (status_explained (b_exit_status b) w) w"
  unfolding ahe_broker_shutdown_def
proof (rule wp_seq [OF wp_conjI [OF calls_wp [OF silent_sweeps(3)] wp_close_clients_terms]], elim conjE)
  fix b1 w1
  assume 1: "only_calls silent w w1" "same_terms b b1"
  have tail: "wp (do {
      r \<leftarrow> sys (Unlink path);
      e \<leftarrow> get_errno;
      if r_ret r < 0 \<and> e \<noteq> ENOENT
      then do {note_call (Message ''ahe-broker: unlink''); ret EXIT_FAILURE}
      else ret (b_exit_status b1)
    }) (status_explained (b_exit_status b) w) w2" if "only_calls silent w w2" for w2
  proof -
    let ?w3 = "answered (Unlink path) (next_reply w2) w2"
    have "only_calls silent w ?w3" using that by (auto intro: only_calls_intros)
    with 1(2) complained_noted [OF this] show ?thesis
      by (simp add: wp_bind wp_sys wp_get_errno wp_note_call wp_return status_explained_def same_terms_def)
  qed
  show "wp (do {
      _ \<leftarrow> ahe_generation_reset (b_generation b1);
      _ \<leftarrow> close_listener b1;
      r \<leftarrow> sys (Unlink path);
      e \<leftarrow> get_errno;
      if r_ret r < 0 \<and> e \<noteq> ENOENT
      then do {note_call (Message ''ahe-broker: unlink''); ret EXIT_FAILURE}
      else ret (b_exit_status b1)
    }) (status_explained (b_exit_status b) w) w1"
    by (rule wp_seq [OF calls_wp [OF silent_handlers(1)]], rule wp_seq [OF calls_wp [OF silent_tables(2)]], rule tail)
      (use 1(1) in \<open>blast intro: only_calls_trans\<close>)
qed

lemma extending_close_clients [extends_intros]: "extending (close_clients n b)"
  by (induction n arbitrary: b) (auto intro!: extends_intros)

lemma extending_shutdown [extends_intros]: "extending (ahe_broker_shutdown path b)"
  by (auto simp: ahe_broker_shutdown_def close_listener_def intro!: extends_intros)

definition run_explained :: "u64 \<Rightarrow> world \<Rightarrow> int \<Rightarrow> world \<Rightarrow> bool" where
  "run_explained max_clients w status w' \<longleftrightarrow> complained w w' \<and> status = EXIT_FAILURE \<or>
     only_calls silent w w' \<and> status = EXIT_SUCCESS \<and> (stopping w' \<or> max_clients \<noteq> 0)"

lemma wp_serve_explained:
  assumes "only_calls silent w w1"
  shows "wp (do {b \<leftarrow> State (broker_loop (broker_initial f m)); ahe_broker_shutdown path b})
    (run_explained m w) w1"
proof -
  obtain b w2 where l: "broker_loop (broker_initial f m) w1 = (b, w2)" by fastforce
  note e = broker_loop_explained [OF l]
  have "wp (ahe_broker_shutdown path b) (\<lambda>s w'. extends w2 w' \<and> status_explained (b_exit_status b) w2 s w') w2"
    using wp_conjI [OF wp_extending [OF extending_shutdown] wp_shutdown_explained] .
  then have "wp (ahe_broker_shutdown path b) (run_explained m w) w2"
  proof (rule wp_mono, elim conjE)
    fix s w'
    assume x: "extends w2 w'" and s: "status_explained (b_exit_status b) w2 s w'"
    have "complained w w'" if "complained w1 w2"
      using complained_after [OF that assms] x by (rule complained_extends [OF _ extends_refl])
    moreover have "complained w w'" if "complained w2 w'" "only_calls silent w1 w2"
      using that assms by (blast intro: complained_after)
    moreover have "only_calls silent w w'" if "only_calls silent w1 w2" "only_calls silent w2 w'"
      using that assms by (blast intro: only_calls_trans)
    moreover have "stopping w'" if "stopping w2" using x that by (simp add: extends_def)
    moreover have "m \<noteq> 0" if "same_terms (broker_initial f m) b" "limit_served b"
      using that by (simp add: same_terms_def limit_served_def limit_reached_def broker_initial_def)
    ultimately show "run_explained m w s w'"
      using e s by (auto simp: run_explained_def status_explained_def loop_explained_def same_terms_def broker_initial_def)
  qed
  with l show ?thesis by (simp add: wp_def)
qed

lemma wp_run_explained: "wp (ahe_broker_run path m) (run_explained m w) w"
proof -
  have quit: "wp (do {note_call (Message t); ret EXIT_FAILURE}) (run_explained m w) w1"
    if "only_calls silent w w1" for t w1
    using that by (simp add: wp_bind wp_note_call wp_return run_explained_def complained_noted)
  have listen: "wp (do {
      listener_fd \<leftarrow> ahe_broker_create_listener path;
      if listener_fd < 0 then do {note_call (Message ''ahe-broker: listen''); ret EXIT_FAILURE}
      else do {
        b \<leftarrow> State (broker_loop (broker_initial listener_fd m));
        ahe_broker_shutdown path b
      }
    }) (run_explained m w) w1" if "only_calls silent w w1" for w1
  proof (rule wp_seq [OF calls_wp [OF silent_listener(1)]])
    fix f w2
    assume "only_calls silent w1 w2"
    with that have s: "only_calls silent w w2" by (rule only_calls_trans)
    show "wp (if f < 0 then do {note_call (Message ''ahe-broker: listen''); ret EXIT_FAILURE}
      else do {b \<leftarrow> State (broker_loop (broker_initial f m)); ahe_broker_shutdown path b}) (run_explained m w) w2"
      using quit [OF s] wp_serve_explained [OF s] by simp
  qed
  show ?thesis unfolding ahe_broker_run_def
    by (rule wp_seq [OF calls_wp [OF silent_listener(2)]]) (use quit listen in simp)
qed

end
