(* ===== verification/Concrete_Worlds.thy ===== *)
theory Concrete_Worlds imports Posix Broker_Protocol "HOL-Library.Code_Target_Numeral" begin

text \<open>
  Concrete kernels for the witnesses: the answers of a system on which a broker listens,
  accepts a connection that hangs up, and is stopped by a signal.
\<close>

definition user :: u32 where
  "user = 1000"

definition ok :: reply where
  "ok = returned 0"

definition allocated :: reply where
  "allocated = ok\<lparr>r_addr := 4096\<rparr>"

definition stat_reply :: "u32 \<Rightarrow> reply" where
  "stat_reply mode = ok\<lparr>r_stat := \<lparr>st_mode = mode, st_uid = user, st_dev = 1, st_ino = 2\<rparr>\<rparr>"

definition peer_reply :: reply where
  "peer_reply = ok\<lparr>r_cred := \<lparr>cr_pid = 77, cr_uid = user\<rparr>, r_optlen := 12\<rparr>"

definition message_reply :: "ahe_broker_message \<Rightarrow> reply" where
  "message_reply m = (returned 296)\<lparr>r_data := encode_message m\<rparr>"

definition sent_reply :: reply where
  "sent_reply = returned 296"

definition poll_reply :: "u16 list \<Rightarrow> reply" where
  "poll_reply revents = (returned 1)\<lparr>r_revents := revents\<rparr>"

definition world_of :: "reply list \<Rightarrow> world" where
  "world_of rs = \<lparr>script = rs, w_errno = E_OK, stopping = False, euid = user,
     environ = (\<lambda>name. if name = ''AHE_BROKER_SOCKET'' then Some ''/r/s'' else None), history = []\<rparr>"

definition listener_script :: "reply list" where
  "listener_script = [returned 3, ok, stat_reply 0x41C0, failed ENOENT, ok, ok, ok]"

text \<open>
  The broker's whole life: signals set up, listener opened, one trusted client accepted,
  the client hangs up, a signal interrupts the poll, the socket is removed.
\<close>

definition broker_script :: "reply list" where
  "broker_script = [ok, ok, ok] @ listener_script @
     [allocated, poll_reply [1], returned 4, peer_reply, allocated, allocated,
      poll_reply [0, 16], (failed EINTR)\<lparr>r_signal := True\<rparr>, ok]"

end
