(* ===== verification/Broker_Run.thy ===== *)
theory Broker_Run imports Exchange Broker_Main Concrete_Worlds begin

unbundle bit_operations_syntax

text \<open>
  A whole life of the broker in which two clients attach, evaluated turn by turn: client 4
  connects, asks and creates the cache (descriptors 5 and 6), publishes it; client 7 connects
  and asks for the same cache, client 4 asks again; a signal stops the broker.
\<close>

section \<open>Requests and generations of the run\<close>

definition demo_request :: ahe_broker_message where
  "demo_request = acquire_request ''k'' 4096"

definition demo_building :: ahe_generation where
  "demo_building = ahe_generation_init\<lparr>g_cache_fd := 5, g_lock_fd := 6,
     g_state := AHE_GENERATION_INITIALIZING, g_creator_fd := 4, g_mapping_size := 4096,
     g_cache_key := m_cache_key demo_request\<rparr>"

definition demo_creator :: ahe_broker_client where
  "demo_creator = AHE_BROKER_CLIENT_INITIALIZER\<lparr>k_socket_fd := 3, k_cache_fd := 8, k_lock_fd := 9,
     k_mapping := 65536, k_mapping_size := 4096, k_segment_allocation := 4096,
     k_creator := True, k_reattached := False, k_acquired := True\<rparr>"

definition demo_published :: ahe_generation where
  "demo_published = published_by demo_building (ready_request demo_creator 65600)"

lemma demo_request_read:
  "decode_message (encode_message demo_request) = demo_request" "acquire_request_valid demo_request"
  "m_type demo_request = AHE_BROKER_ACQUIRE" "m_mapping_size demo_request = 4096"
  using acquire_request_wf [of "''k''" 4096] cstr_empty_iff [of "m_cache_key demo_request"]
  by (simp_all add: demo_request_def decode_encode_message acquire_request_valid_def acquire_request_key)

abbreviation demo_attach_bytes :: "char list" where
  "demo_attach_bytes \<equiv> encode_message (answer_message (Granted_attach 4096 65536 64 (5, 6)))"

section \<open>The run\<close>

definition demo_ready_request :: ahe_broker_message where
  "demo_ready_request = ready_request demo_creator 65600"

definition creator_joins :: "reply list" where
  "creator_joins = [allocated, poll_reply [1], returned 4, peer_reply, allocated]"

definition creator_asks :: "reply list" where
  "creator_asks = [allocated, poll_reply [0, 1], message_reply demo_request, returned 5, ok, returned 6, ok, sent_reply]"

definition creator_publishes :: "reply list" where
  "creator_publishes = [poll_reply [0, 1], message_reply demo_ready_request, sent_reply]"

definition newcomer_joins :: "reply list" where
  "newcomer_joins = [poll_reply [1], returned 7, peer_reply]"

definition both_ask :: "reply list" where
  "both_ask = [allocated, poll_reply [0, 1, 1], message_reply demo_request, sent_reply, message_reply demo_request, sent_reply]"

definition stopped :: reply where
  "stopped = (failed EINTR)\<lparr>r_signal := True\<rparr>"

definition attach_script :: "reply list" where
  "attach_script = [ok, ok, ok] @ listener_script @ creator_joins @ creator_asks @ creator_publishes @
     newcomer_joins @ both_ask @ [stopped, ok]"

text \<open>The broker's variables after each turn.\<close>

definition turn1 :: ahe_broker where
  "turn1 = (broker_initial 3 0)\<lparr>b_clients := [\<lparr>c_fd = 4, c_handled_message = False\<rparr>], b_client_capacity := 8,
     b_poll_capacity := 1\<rparr>"

definition turn2 :: ahe_broker where
  "turn2 = turn1\<lparr>b_clients := [\<lparr>c_fd = 4, c_handled_message = True\<rparr>], b_poll_capacity := 2,
     b_generation := demo_building, b_handled_clients := 1\<rparr>"

definition turn3 :: ahe_broker where
  "turn3 = turn2\<lparr>b_generation := demo_published\<rparr>"

definition turn4 :: ahe_broker where
  "turn4 = turn3\<lparr>b_clients := [\<lparr>c_fd = 4, c_handled_message = True\<rparr>, \<lparr>c_fd = 7, c_handled_message = False\<rparr>]\<rparr>"

definition turn5 :: ahe_broker where
  "turn5 = turn4\<lparr>b_clients := [\<lparr>c_fd = 4, c_handled_message = True\<rparr>, \<lparr>c_fd = 7, c_handled_message = True\<rparr>],
     b_poll_capacity := 3, b_handled_clients := 2\<rparr>"

lemmas turn_defs = turn1_def turn2_def turn3_def turn4_def turn5_def broker_initial_def

lemmas reply_defs = ok_def returned_def failed_def allocated_def poll_reply_def peer_reply_def message_reply_def
  sent_reply_def user_def

lemmas body_defs = ahe_broker_iteration_def enforce_limit_def limit_reached_def grow_poll_array_def poll_and_serve_def
  poll_fds_def revents_at_def accept_client_def ahe_broker_add_client_def grown_capacity_def peer_rejected_def
  sys_def next_reply_def get_errno_def geteuid_def Let_def

lemma run_creator_joins:
  assumes "script w = creator_joins @ rest" and "euid w = user"
  shows "run_state (ahe_broker_iteration (broker_initial 3 0)) w = (Continue turn1, after_calls
    [(Realloc 8, allocated), (Poll [3], poll_reply [1]), (Accept4 3, returned 4), (Getsockopt_peercred 4, peer_reply),
     (Realloc 64, allocated)] w)"
  using assms by (simp add: body_defs creator_joins_def turn_defs) (simp add: reply_defs)

text \<open>A message is read and handled: what a turn does with a readable client.\<close>

lemma reply_simps [simp]:
  "r_ret (message_reply m) = 296" "r_data (message_reply m) = encode_message m"
  "r_ret ok = 0" "r_ret allocated = 0" "r_addr allocated = 4096" "r_ret sent_reply = 296"
  "r_ret (poll_reply events) = 1" "r_revents (poll_reply events) = events"
  "r_ret peer_reply = 0" "r_cred peer_reply = \<lparr>cr_pid = 77, cr_uid = user\<rparr>" "r_optlen peer_reply = 12"
  "\<not> r_signal (message_reply m)" "\<not> r_signal ok" "\<not> r_signal allocated" "\<not> r_signal sent_reply"
  "\<not> r_signal (poll_reply events)" "\<not> r_signal peer_reply"
  by (simp_all add: message_reply_def ok_def allocated_def sent_reply_def poll_reply_def peer_reply_def)

lemma demo_ready_request_simps [simp]:
  "m_type demo_ready_request = AHE_BROKER_READY" "wf_message demo_ready_request"
  "m_magic demo_ready_request = AHE_BROKER_PROTOCOL_MAGIC" "m_version demo_ready_request = AHE_BROKER_PROTOCOL_VERSION"
  by (simp_all add: demo_ready_request_def) (simp_all add: ready_request_def)

lemma demo_request_simps [simp]:
  "wf_message demo_request" "m_magic demo_request = AHE_BROKER_PROTOCOL_MAGIC"
  "m_version demo_request = AHE_BROKER_PROTOCOL_VERSION"
  by (simp_all add: demo_request_def acquire_request_wf)

lemma handle_creator_asks:
  assumes "script w = [message_reply demo_request, returned 5, ok, returned 6, ok, sent_reply] @ rest"
  shows "run_state (ahe_broker_handle_client_message \<lparr>c_fd = 4, c_handled_message = h\<rparr> ahe_generation_init) w =
    ((True, \<lparr>c_fd = 4, c_handled_message = True\<rparr>, demo_building),
     after_calls ((Recv 4 MESSAGE_SIZE, message_reply demo_request) # creating_calls 4096 (returned 5) ok (returned 6) ok @
       [(Sendmsg 4 (encode_message (answer_message (Granted_create 4096 (5, 6)))) [5, 6], sent_reply)]) w)"
proof -
  let ?r = "message_reply demo_request"
  have "script w = ?r # ([returned 5, ok, returned 6, ok, sent_reply] @ rest)" using assms by simp
  from run_receive [OF _ _ _ this, of demo_request "[]" 4]
  have r: "run_state (ahe_broker_receive_message 4) w = ((1, demo_request), answered (Recv 4 MESSAGE_SIZE) ?r w)" by simp
  have "script (answered (Recv 4 MESSAGE_SIZE) ?r w) = [returned 5, ok, returned 6, ok, sent_reply] @ rest"
    using assms by simp
  from run_grant_create_calls [OF demo_request_read(2) this, of 4]
  have "run_state (ahe_broker_handle_acquire 4 ahe_generation_init demo_request) (answered (Recv 4 MESSAGE_SIZE) ?r w) =
      ((0, demo_building), after_calls (creating_calls 4096 (returned 5) ok (returned 6) ok @
        [(Sendmsg 4 (encode_message (answer_message (Granted_create 4096 (5, 6)))) [5, 6], sent_reply)])
        (answered (Recv 4 MESSAGE_SIZE) ?r w))"
    by (simp add: demo_request_read demo_building_def ok_def sent_reply_def)
  then show ?thesis
    by (simp add: ahe_broker_handle_client_message_def r ahe_broker_dispatch_def demo_request_read)
qed

lemma handle_creator_publishes:
  assumes "script w = [message_reply demo_ready_request, sent_reply] @ rest"
  shows "run_state (ahe_broker_handle_client_message \<lparr>c_fd = 4, c_handled_message = h\<rparr> demo_building) w =
    ((True, \<lparr>c_fd = 4, c_handled_message = True\<rparr>, demo_published),
     after_calls [(Recv 4 MESSAGE_SIZE, message_reply demo_ready_request),
       (Sendmsg 4 (encode_message (answer_message Acknowledged)) [], sent_reply)] w)"
proof -
  let ?r = "message_reply demo_ready_request"
  have "script w = ?r # ([sent_reply] @ rest)" using assms by simp
  from run_receive [OF _ _ _ this, of demo_ready_request "[]" 4]
  have r: "run_state (ahe_broker_receive_message 4) w =
      ((1, demo_ready_request), answered (Recv 4 MESSAGE_SIZE) ?r w)" by simp
  have "\<not> ready_request_invalid 4 demo_building demo_ready_request"
    by (simp add: ready_request_invalid_def demo_ready_request_def ready_request_def demo_building_def demo_creator_def)
  from run_publish [OF this, of "answered (Recv 4 MESSAGE_SIZE) ?r w" sent_reply rest] assms
  have "run_state (ahe_broker_handle_ready 4 demo_building demo_ready_request) (answered (Recv 4 MESSAGE_SIZE) ?r w) =
      ((0, demo_published), answered (Sendmsg 4 (encode_message (answer_message Acknowledged)) []) sent_reply
        (answered (Recv 4 MESSAGE_SIZE) ?r w))"
    by (simp add: demo_published_def sent_reply_def flip: demo_ready_request_def)
  then show ?thesis by (simp add: ahe_broker_handle_client_message_def r ahe_broker_dispatch_def)
qed

lemma handle_newcomer_asks:
  assumes "script w = [message_reply demo_request, sent_reply] @ rest"
  shows "run_state (ahe_broker_handle_client_message \<lparr>c_fd = f, c_handled_message = h\<rparr> demo_published) w =
    ((True, \<lparr>c_fd = f, c_handled_message = True\<rparr>, demo_published),
     after_calls [(Recv f MESSAGE_SIZE, message_reply demo_request),
       (Sendmsg f (encode_message (answer_message (Granted_attach 4096 65536 64 (5, 6)))) [5, 6], sent_reply)] w)"
proof -
  let ?r = "message_reply demo_request"
  have "script w = ?r # ([sent_reply] @ rest)" using assms by simp
  from run_receive [OF _ _ _ this, of demo_request "[]" f]
  have r: "run_state (ahe_broker_receive_message f) w = ((1, demo_request), answered (Recv f MESSAGE_SIZE) ?r w)" by simp
  have g: "g_state demo_published = AHE_GENERATION_READY" "g_mapping_size demo_published = 4096"
    "g_mapping_base demo_published = 65536" "g_shared_globals_offset demo_published = 64"
    "g_cache_fd demo_published = 5" "g_lock_fd demo_published = 6"
    by (simp_all add: demo_published_def published_by_def demo_building_def ready_request_def demo_creator_def)
  have "ahe_generation_matches demo_published demo_request"
    by (simp add: ahe_generation_matches_def demo_published_def published_by_def demo_building_def demo_request_def)
  from run_grant_attach [OF g(1) this, of "answered (Recv f MESSAGE_SIZE) ?r w" sent_reply rest f] assms
  have "run_state (ahe_broker_handle_acquire f demo_published demo_request) (answered (Recv f MESSAGE_SIZE) ?r w) =
      ((0, demo_published), answered (Sendmsg f (encode_message (answer_message (Granted_attach 4096 65536 64 (5, 6))))
        [5, 6]) sent_reply (answered (Recv f MESSAGE_SIZE) ?r w))"
    by (simp add: g sent_reply_def)
  then show ?thesis
    by (simp add: ahe_broker_handle_client_message_def r ahe_broker_dispatch_def demo_request_read)
qed

text \<open>The turns.\<close>

definition asking_calls :: "event list" where
  "asking_calls = (Recv 4 MESSAGE_SIZE, message_reply demo_request) #
     creating_calls 4096 (returned 5) ok (returned 6) ok @
     [(Sendmsg 4 (encode_message (answer_message (Granted_create 4096 (5, 6)))) [5, 6], sent_reply)]"

lemmas serve_defs = serve_client_def handle_readable_def

lemma run_creator_asks:
  assumes "script w = creator_asks @ rest"
  shows "run_state (ahe_broker_iteration turn1) w = (Continue turn2, after_calls
    ([(Realloc 16, allocated), (Poll [3, 4], poll_reply [0, 1])] @ asking_calls) w)"
proof -
  let ?w = "answered (Poll [3, 4]) (poll_reply [0, 1]) (answered (Realloc 16) allocated w)"
  have "script ?w = [message_reply demo_request, returned 5, ok, returned 6, ok, sent_reply] @ rest"
    using assms by (simp add: creator_asks_def)
  note h = handle_creator_asks [OF this]
  have v: "run_state (serve_clients 1 [0, 1] (turn1\<lparr>b_poll_capacity := 2\<rparr>)) ?w = (turn2, after_calls asking_calls ?w)"
    by (simp add: serve_defs revents_at_def limit_reached_def turn_defs h asking_calls_def)
  from assms v show ?thesis
    by (simp add: body_defs creator_asks_def turn_defs)
qed

definition publishing_calls :: "event list" where
  "publishing_calls = [(Recv 4 MESSAGE_SIZE, message_reply demo_ready_request),
     (Sendmsg 4 (encode_message (answer_message Acknowledged)) [], sent_reply)]"

lemma run_creator_publishes:
  assumes "script w = creator_publishes @ rest"
  shows "run_state (ahe_broker_iteration turn2) w = (Continue turn3, after_calls
    ((Poll [3, 4], poll_reply [0, 1]) # publishing_calls) w)"
proof -
  let ?w = "answered (Poll [3, 4]) (poll_reply [0, 1]) w"
  have "script ?w = [message_reply demo_ready_request, sent_reply] @ rest"
    using assms by (simp add: creator_publishes_def)
  note h = handle_creator_publishes [OF this]
  have v: "run_state (serve_clients 1 [0, 1] turn2) ?w = (turn3, after_calls publishing_calls ?w)"
    by (simp add: serve_defs revents_at_def limit_reached_def turn_defs h publishing_calls_def)
  from assms v show ?thesis
    by (simp add: body_defs creator_publishes_def turn_defs)
qed

lemma run_newcomer_joins:
  assumes "script w = newcomer_joins @ rest" and "euid w = user"
  shows "run_state (ahe_broker_iteration turn3) w = (Continue turn4, after_calls
    [(Poll [3, 4], poll_reply [1]), (Accept4 3, returned 7), (Getsockopt_peercred 7, peer_reply)] w)"
proof -
  let ?w = "answered (Poll [3, 4]) (poll_reply [1]) w"
  have "run_state (serve_clients 1 [1] turn3) ?w = (turn3, ?w)"
    by (simp add: serve_client_def revents_at_def)
  with assms show ?thesis by (simp add: body_defs newcomer_joins_def turn_defs)
qed

definition attaching_answer :: "fd \<Rightarrow> event list" where
  "attaching_answer f = [(Recv f MESSAGE_SIZE, message_reply demo_request),
     (Sendmsg f (encode_message (answer_message (Granted_attach 4096 65536 64 (5, 6)))) [5, 6], sent_reply)]"

lemma run_both_ask:
  assumes "script w = both_ask @ rest"
  shows "run_state (ahe_broker_iteration turn4) w = (Continue turn5, after_calls
    ([(Realloc 24, allocated), (Poll [3, 4, 7], poll_reply [0, 1, 1])] @ attaching_answer 7 @ attaching_answer 4) w)"
proof -
  let ?w = "answered (Poll [3, 4, 7]) (poll_reply [0, 1, 1]) (answered (Realloc 24) allocated w)"
  let ?w7 = "after_calls (attaching_answer 7) ?w"
  have "script ?w = [message_reply demo_request, sent_reply] @ [message_reply demo_request, sent_reply] @ rest"
    and "script ?w7 = [message_reply demo_request, sent_reply] @ rest"
    using assms by (simp_all add: both_ask_def attaching_answer_def)
  note h = handle_newcomer_asks [OF this(1), of 7, folded attaching_answer_def]
    handle_newcomer_asks [OF this(2), of 4, folded attaching_answer_def]
  let ?b = "turn4\<lparr>b_poll_capacity := 3\<rparr>"
  have "run_state (serve_client 1 1 ?b) ?w = (?b\<lparr>b_clients := [\<lparr>c_fd = 4, c_handled_message = True\<rparr>,
      \<lparr>c_fd = 7, c_handled_message = True\<rparr>], b_handled_clients := 2\<rparr>, ?w7)"
    by (simp add: serve_defs limit_reached_def turn_defs h)
  moreover have "run_state (serve_client 0 1 (?b\<lparr>b_clients := [\<lparr>c_fd = 4, c_handled_message = True\<rparr>,
      \<lparr>c_fd = 7, c_handled_message = True\<rparr>], b_handled_clients := 2\<rparr>)) ?w7 = (turn5, after_calls (attaching_answer 4) ?w7)"
    by (simp add: serve_defs limit_reached_def turn_defs h)
  ultimately have v: "run_state (serve_clients (Suc (Suc 0)) [0, 1, 1] ?b) ?w = (turn5, after_calls (attaching_answer 4) ?w7)"
    by (simp add: revents_at_def)
  from assms v show ?thesis
    by (simp add: body_defs both_ask_def turn_defs del: serve_clients.simps)
qed

lemma run_stopped:
  assumes "script w = stopped # rest"
  shows "run_state (ahe_broker_iteration turn5) w = (Continue turn5, answered (Poll [3, 4, 7]) stopped w)"
  using assms by (simp add: body_defs turn_defs stopped_def failed_def)

text \<open>The whole loop.\<close>

definition loop_calls :: "event list" where
  "loop_calls = [(Realloc 8, allocated), (Poll [3], poll_reply [1]), (Accept4 3, returned 4),
       (Getsockopt_peercred 4, peer_reply), (Realloc 64, allocated)] @
     ([(Realloc 16, allocated), (Poll [3, 4], poll_reply [0, 1])] @ asking_calls) @
     ((Poll [3, 4], poll_reply [0, 1]) # publishing_calls) @
     [(Poll [3, 4], poll_reply [1]), (Accept4 3, returned 7), (Getsockopt_peercred 7, peer_reply)] @
     ([(Realloc 24, allocated), (Poll [3, 4, 7], poll_reply [0, 1, 1])] @ attaching_answer 7 @ attaching_answer 4)"

lemma loop_continues:
  "\<not> stopping w \<Longrightarrow> run_state (ahe_broker_iteration b) w = (Continue b', w') \<Longrightarrow> broker_loop b w = broker_loop b' w'"
  by (subst broker_loop.simps) simp

lemma run_loop:
  assumes "script w = creator_joins @ creator_asks @ creator_publishes @ newcomer_joins @ both_ask @ stopped # rest"
    and "euid w = user" and "\<not> stopping w"
  shows "broker_loop (broker_initial 3 0) w =
    (turn5, answered (Poll [3, 4, 7]) stopped (after_calls loop_calls w))"
proof -
  note calls = asking_calls_def creating_calls_def publishing_calls_def attaching_answer_def
  note scripts = creator_joins_def creator_asks_def creator_publishes_def newcomer_joins_def both_ask_def
  let ?c1 = "[(Realloc 8, allocated), (Poll [3], poll_reply [1]), (Accept4 3, returned 4),
       (Getsockopt_peercred 4, peer_reply), (Realloc 64, allocated)]"
  let ?c2 = "[(Realloc 16, allocated), (Poll [3, 4], poll_reply [0, 1])] @ asking_calls"
  let ?c3 = "(Poll [3, 4], poll_reply [0, 1]) # publishing_calls"
  let ?c4 = "[(Poll [3, 4], poll_reply [1]), (Accept4 3, returned 7), (Getsockopt_peercred 7, peer_reply)]"
  let ?c5 = "[(Realloc 24, allocated), (Poll [3, 4, 7], poll_reply [0, 1, 1])] @ attaching_answer 7 @ attaching_answer 4"
  let ?w1 = "after_calls ?c1 w" let ?w2 = "after_calls ?c2 ?w1" let ?w3 = "after_calls ?c3 ?w2"
  let ?w4 = "after_calls ?c4 ?w3" let ?w5 = "after_calls ?c5 ?w4"
  have s1: "script ?w1 = creator_asks @ creator_publishes @ newcomer_joins @ both_ask @ stopped # rest"
    using assms(1) by (simp add: creator_joins_def)
  have s2: "script ?w2 = creator_publishes @ newcomer_joins @ both_ask @ stopped # rest"
    using s1 by (simp add: calls creator_asks_def)
  have s3: "script ?w3 = newcomer_joins @ both_ask @ stopped # rest"
    using s2 by (simp add: calls creator_publishes_def)
  have s4: "script ?w4 = both_ask @ stopped # rest"
    using s3 by (simp add: newcomer_joins_def)
  have s5: "script ?w5 = stopped # rest"
    using s4 by (simp add: calls both_ask_def)
  have n: "\<not> stopping ?w1" "\<not> stopping ?w2" "\<not> stopping ?w3" "\<not> stopping ?w4" "\<not> stopping ?w5"
    using assms(3) by (simp_all add: calls)
  have u: "euid ?w3 = user" using assms(2) by simp
  have "broker_loop (broker_initial 3 0) w = broker_loop turn5 (answered (Poll [3, 4, 7]) stopped ?w5)"
    using loop_continues [OF assms(3) run_creator_joins [OF assms(1,2)]] loop_continues [OF n(1) run_creator_asks [OF s1]]
      loop_continues [OF n(2) run_creator_publishes [OF s2]] loop_continues [OF n(3) run_newcomer_joins [OF s3 u]]
      loop_continues [OF n(4) run_both_ask [OF s4]] loop_continues [OF n(5) run_stopped [OF s5]]
    by (simp only:)
  also have "\<dots> = (turn5, answered (Poll [3, 4, 7]) stopped ?w5)"
    by (simp add: broker_loop.simps [of turn5] stopped_def)
  finally show ?thesis by (simp only: loop_calls_def after_calls_append)
qed

lemma run_signals:
  assumes "script w = [ok, ok, ok] @ rest"
  shows "run_state setup_signals w = (True, after_calls [(Sigaction SIGINT, ok), (Sigaction SIGTERM, ok), (Sigaction SIGPIPE, ok)] w)"
  using assms by (simp add: setup_signals_def sys_def next_reply_def)

lemma run_listener:
  assumes "script w = listener_script @ rest" and "euid w = user" and "\<not> stopping w"
  shows "\<exists>w'. run_state (ahe_broker_create_listener ''/r/s'') w = (3, w') \<and> script w' = rest \<and> euid w' = user \<and> \<not> stopping w'"
  using assms
  by (simp add: ahe_broker_create_listener_def clear_path_def ahe_broker_prepare_parent_directory_def parent_path_def
      last_slash_def ahe_broker_remove_stale_socket_def bind_and_listen_def listener_script_def sys_def next_reply_def
      note_call_def get_errno_def geteuid_def Let_def stat_reply_def is_directory_def writable_by_others_def failed_def user_def)

text \<open>The whole program.\<close>

definition attach_run :: "int \<times> world" where
  "attach_run = run_state (ahe_broker_main ''ahe-broker'' [''--socket'', ''/r/s'']) (world_of attach_script)"

lemma attach_run_sends:
  "(7, demo_attach_bytes, [5, 6]) \<in> sends (history (snd attach_run))"
  "(4, demo_attach_bytes, [5, 6]) \<in> sends (history (snd attach_run))"
proof -
  have s0: "script (world_of attach_script) = [ok, ok, ok] @ listener_script @ creator_joins @ creator_asks @
      creator_publishes @ newcomer_joins @ both_ask @ [stopped, ok]"
    by (simp add: world_of_def attach_script_def)
  let ?w1 = "after_calls [(Sigaction SIGINT, ok), (Sigaction SIGTERM, ok), (Sigaction SIGPIPE, ok)] (world_of attach_script)"
  have "script ?w1 = listener_script @ creator_joins @ creator_asks @ creator_publishes @ newcomer_joins @ both_ask @
      [stopped, ok]" using s0 by simp
  moreover have "euid ?w1 = user" "\<not> stopping ?w1" by (simp_all add: world_of_def)
  ultimately obtain w2 where l: "run_state (ahe_broker_create_listener ''/r/s'') ?w1 = (3, w2)"
    and s2: "script w2 = creator_joins @ creator_asks @ creator_publishes @ newcomer_joins @ both_ask @ stopped # [ok]"
    and w2: "euid w2 = user" "\<not> stopping w2"
    using run_listener [of ?w1] by blast
  let ?w3 = "answered (Poll [3, 4, 7]) stopped (after_calls loop_calls w2)"
  obtain status w4 where d: "run_state (ahe_broker_shutdown ''/r/s'' turn5) ?w3 = (status, w4)" by fastforce
  have "run_state (ahe_broker_run ''/r/s'' 0) (world_of attach_script) = (status, w4)"
    by (simp add: ahe_broker_run_def run_signals [OF s0] l run_loop [OF s2 w2] d del: after_calls.simps)
  moreover have "parse_arguments [''--socket'', ''/r/s''] None 0 = Some (Some ''/r/s'', 0)" by simp
  ultimately have r: "attach_run = (status, w4)" by (simp add: attach_run_def ahe_broker_main_def)
  have "extends ?w3 w4" using d extending_shutdown by (rule extendingD [rotated])
  then obtain h where h: "history w4 = h @ history ?w3" by (auto simp: extends_def)
  have "{(7, demo_attach_bytes, [5, 6]), (4, demo_attach_bytes, [5, 6])} \<subseteq> sends (history ?w3)"
    by (simp add: loop_calls_def attaching_answer_def)
  then show "(7, demo_attach_bytes, [5, 6]) \<in> sends (history (snd attach_run))"
    "(4, demo_attach_bytes, [5, 6]) \<in> sends (history (snd attach_run))"
    by (simp_all add: r h)
qed

end
