(* ===== verification/Sharing.thy ===== *)
theory Sharing imports Broker_Run begin

text \<open>
  The whole system: one broker and any number of PHP processes, their messages in flight,
  processes that fail, give up or misbehave. The steps run the code's own functions (the
  broker's dispatch, what a client sends and what it makes of an answer); delays, losses,
  timeouts and the order in which things happen are left open. The invariant says when a
  process may rely on the shared cache; from it follows that all who do agree on it.
\<close>

section \<open>States\<close>

text \<open>
  What a process is doing: waiting for the answer to its \<open>ACQUIRE\<close>, working on a cache it was
  given, waiting for the answer to its \<open>READY\<close>, or done with the protocol (attached, ready,
  failed or having given up).
\<close>

datatype stage = Asked | Working | Offered | Settled

text \<open>
  A process: its client, the size it asked for, the address it takes the shared globals to
  be at, whether OPcache has detached the segment, and the queues of its connection: datagrams
  not yet read by the broker, and answers with their descriptors not yet read by the process.
\<close>

record process =
  p_client :: ahe_broker_client
  p_stage :: stage
  p_size :: usize
  p_globals :: u64
  p_detached :: bool
  p_outbox :: "char list list"
  p_inbox :: "(char list \<times> fd list) list"

text \<open>The broker's connections lead to processes; the publisher is remembered for the proofs.\<close>

record system =
  s_generation :: ahe_generation
  s_connection :: "fd \<Rightarrow> nat option"
  s_process :: "nat \<Rightarrow> process option"
  s_publisher :: "nat option"

definition system_start :: "system \<Rightarrow> bool" where
  "system_start s \<longleftrightarrow> s_generation s = ahe_generation_init \<and> s_connection s = Map.empty \<and>
     s_process s = Map.empty \<and> s_publisher s = None"

definition joining :: "fd \<Rightarrow> string \<Rightarrow> usize \<Rightarrow> process" where
  "joining socket_fd key sz = \<lparr>p_client = AHE_BROKER_CLIENT_INITIALIZER\<lparr>k_socket_fd := socket_fd\<rparr>,
     p_stage = Asked, p_size = sz, p_globals = 0, p_detached = False,
     p_outbox = [encode_message (acquire_request key sz)], p_inbox = []\<rparr>"

definition set_process :: "nat \<Rightarrow> process \<Rightarrow> system \<Rightarrow> system" where
  "set_process i p s = s\<lparr>s_process := (s_process s)(i \<mapsto> p)\<rparr>"

definition publisher_after :: "nat \<Rightarrow> ahe_generation \<Rightarrow> system \<Rightarrow> nat option" where
  "publisher_after i g s = (if g_state g = AHE_GENERATION_READY \<and>
     g_state (s_generation s) \<noteq> AHE_GENERATION_READY then Some i else s_publisher s)"

text \<open>
  An answer reaches the process's queue only if the broker's call sent it whole; an answer to
  \<open>ACQUIRE\<close>, \<open>READY\<close> or \<open>ABORT\<close> was sent whole exactly when the connection is kept.
\<close>

definition may_arrive :: "ahe_broker_message \<Rightarrow> bool \<Rightarrow> bool" where
  "may_arrive m keep \<longleftrightarrow> keep \<or> m_type m \<notin> {AHE_BROKER_ACQUIRE, AHE_BROKER_READY, AHE_BROKER_ABORT}"

section \<open>Steps\<close>

inductive system_step :: "system \<Rightarrow> system \<Rightarrow> bool" for s where
  join: "s_process s i = None \<Longrightarrow> s_connection s f = None \<Longrightarrow> length key < AHE_BROKER_CACHE_KEY_SIZE \<Longrightarrow>
    system_step s (set_process i (joining socket_fd key sz) (s\<lparr>s_connection := (s_connection s)(f \<mapsto> i)\<rparr>))"
| serve: "s_connection s f = Some i \<Longrightarrow> s_process s i = Some p \<Longrightarrow> p_outbox p = bs # rest \<Longrightarrow>
    history w = [] \<Longrightarrow>
    run_state (ahe_broker_dispatch f (s_generation s) (decode_message bs)) w = ((keep, g), w') \<Longrightarrow>
    arrived = [] \<or> (\<exists>ab fds. arrived = [(ab, fds)] \<and> (f, ab, fds) \<in> sends (history w') \<and>
      may_arrive (decode_message bs) keep) \<Longrightarrow>
    system_step s (set_process i (p\<lparr>p_outbox := rest, p_inbox := p_inbox p @ arrived\<rparr>)
      (s\<lparr>s_generation := g, s_publisher := publisher_after i g s\<rparr>))"
| hang_up: "s_connection s f = Some i \<Longrightarrow>
    run_state (reset_if_creator f (s_generation s)) w = (g, w') \<Longrightarrow>
    system_step s (s\<lparr>s_generation := g, s_connection := (s_connection s)(f := None)\<rparr>)"
| take_answer: "s_process s i = Some p \<Longrightarrow> p_stage p = Asked \<Longrightarrow> p_inbox p = (ab, fds) # rest \<Longrightarrow>
    run_state (accept_response (p_client p) (decode_message ab) local_fds (p_size p) outputs) w =
      ((res, c, out), w') \<Longrightarrow>
    system_step s (set_process i (p\<lparr>p_client := c, p_inbox := rest,
      p_stage := (if res = ZEND_OPCACHE_SHM_ALLOC_FAILURE then Settled else Working),
      p_globals := (if res = ZEND_OPCACHE_SHM_SUCCESSFULLY_REATTACHED then out_globals out else 0)\<rparr>) s)"
| publish: "s_process s i = Some p \<Longrightarrow> p_stage p = Working \<Longrightarrow> publishable (p_client p) globals \<Longrightarrow>
    system_step s (set_process i (p\<lparr>p_stage := Offered, p_globals := globals,
      p_outbox := p_outbox p @ [encode_message (ready_request (p_client p) globals)]\<rparr>) s)"
| confirm: "s_process s i = Some p \<Longrightarrow> p_stage p = Offered \<Longrightarrow> p_inbox p = (ab, fds) # rest \<Longrightarrow>
    m_type (decode_message ab) = AHE_BROKER_ACK \<Longrightarrow>
    system_step s (set_process i (p\<lparr>p_stage := Settled, p_inbox := rest,
      p_client := (p_client p)\<lparr>k_ready := True, k_segment_allocation := 0\<rparr>\<rparr>) s)"
| give_up: "s_process s i = Some p \<Longrightarrow>
    system_step s (set_process i (p\<lparr>p_stage := Settled\<rparr>) s)"
| detach: "s_process s i = Some p \<Longrightarrow>
    seg_p segment = k_mapping (p_client p) \<Longrightarrow> seg_size segment = k_mapping_size (p_client p) \<Longrightarrow>
    run_state (ahe_broker_client_detach (p_client p) (Some (address, segment))) w = ((res, c), w') \<Longrightarrow>
    system_step s (set_process i (p\<lparr>p_stage := Settled, p_client := c,
      p_detached := p_detached p \<or> res = ZEND_OPCACHE_SHM_PROVIDER_SUCCESS\<rparr>) s)"
| leave: "s_process s i = Some p \<Longrightarrow>
    run_state (ahe_broker_client_shutdown (p_client p)) w = (c, w') \<Longrightarrow>
    system_step s (set_process i (p\<lparr>p_stage := Settled, p_client := c\<rparr>) s)"
| say_anything: "s_process s i = Some p \<Longrightarrow> p_stage p = Settled \<Longrightarrow>
    system_step s (set_process i (p\<lparr>p_outbox := p_outbox p @ [bs]\<rparr>) s)"

section \<open>The invariant\<close>

text \<open>\<open>cache_at ph base sz globals\<close>: a cache is published at that place.\<close>

fun cache_at :: "phase \<Rightarrow> u64 \<Rightarrow> usize \<Rightarrow> u64 \<Rightarrow> bool" where
  "cache_at (Published segments key sz base offset) b n globals \<longleftrightarrow>
     b = base \<and> n = sz \<and> globals = base + offset"
| "cache_at ph b n globals \<longleftrightarrow> False"

fun is_published :: "phase \<Rightarrow> bool" where
  "is_published (Published segments key sz base offset) \<longleftrightarrow> True"
| "is_published ph \<longleftrightarrow> False"

definition uses_cache :: "phase \<Rightarrow> process \<Rightarrow> bool" where
  "uses_cache ph p \<longleftrightarrow> cache_at ph (k_mapping (p_client p)) (k_mapping_size (p_client p)) (p_globals p)"

definition true_attach :: "phase \<Rightarrow> char list \<Rightarrow> bool" where
  "true_attach ph ab \<longleftrightarrow> (m_type (decode_message ab) = AHE_BROKER_ATTACH \<longrightarrow>
     (\<exists>segments key sz base offset. ph = Published segments key sz base offset \<and>
        ab = encode_message (answer_message (Granted_attach sz base offset segments))))"

definition stage_ok :: "phase \<Rightarrow> nat option \<Rightarrow> nat \<Rightarrow> process \<Rightarrow> bool" where
  "stage_ok ph publisher i p \<longleftrightarrow> (case p_stage p of
     Asked \<Rightarrow> \<not> k_ready (p_client p) \<and> \<not> k_reattached (p_client p) \<and> length (p_outbox p @ map fst (p_inbox p)) \<le> 1
   | Working \<Rightarrow> \<not> k_ready (p_client p) \<and> p_outbox p = [] \<and> p_inbox p = []
   | Offered \<Rightarrow> \<not> k_ready (p_client p) \<and> \<not> k_reattached (p_client p) \<and>
       (p_outbox p = [encode_message (ready_request (p_client p) (p_globals p))] \<and> p_inbox p = [] \<or>
        p_outbox p = [] \<and> (\<forall>x \<in> set (p_inbox p). m_type (decode_message (fst x)) = AHE_BROKER_ACK \<longrightarrow>
          publisher = Some i \<and> uses_cache ph p))
   | Settled \<Rightarrow> True)"

definition process_ok :: "phase \<Rightarrow> nat option \<Rightarrow> nat \<Rightarrow> process \<Rightarrow> bool" where
  "process_ok ph publisher i p \<longleftrightarrow>
     (k_reattached (p_client p) \<longrightarrow> \<not> k_creator (p_client p) \<and> (p_detached p \<or> uses_cache ph p)) \<and>
     (k_ready (p_client p) \<longrightarrow> publisher = Some i \<and> is_published ph \<and> (p_detached p \<or> uses_cache ph p)) \<and>
     (\<forall>x \<in> set (p_inbox p). true_attach ph (fst x)) \<and> stage_ok ph publisher i p"

definition system_ok :: "system \<Rightarrow> bool" where
  "system_ok s \<longleftrightarrow> gen_wf (s_generation s) \<and>
     (\<forall>i p. s_process s i = Some p \<longrightarrow> process_ok (phase_of (s_generation s)) (s_publisher s) i p)"

text \<open>What a process relies on outlives every change of the broker's phase.\<close>

fun_cases cache_atE: "cache_at ph b n globals"

lemma cache_at_published: "cache_at ph b n globals \<Longrightarrow> is_published ph"
  by (erule cache_atE) simp

lemma uses_cache_mono: "uses_cache ph p \<Longrightarrow> (is_published ph \<Longrightarrow> ph' = ph) \<Longrightarrow> uses_cache ph' p"
  by (auto simp: uses_cache_def dest: cache_at_published)

lemma true_attach_mono: "true_attach ph ab \<Longrightarrow> (is_published ph \<Longrightarrow> ph' = ph) \<Longrightarrow> true_attach ph' ab"
  by (auto simp: true_attach_def)

lemma uses_cache_keeps:
  "publisher = Some i \<and> uses_cache ph p \<Longrightarrow> (is_published ph \<Longrightarrow> ph' = ph \<and> publisher' = publisher) \<Longrightarrow>
   publisher' = Some i \<and> uses_cache ph' p"
  by (auto simp: uses_cache_def dest: cache_at_published)

lemma process_ok_mono:
  assumes ok: "process_ok ph publisher i p" and keep: "is_published ph \<Longrightarrow> ph' = ph \<and> publisher' = publisher"
  shows "process_ok ph' publisher' i p"
proof -
  have u: "uses_cache ph p \<Longrightarrow> uses_cache ph' p" and a: "true_attach ph ab \<Longrightarrow> true_attach ph' ab" for ab
    using keep by (auto intro: uses_cache_mono true_attach_mono)
  have pu: "publisher = Some i \<and> uses_cache ph p \<Longrightarrow> publisher' = Some i \<and> uses_cache ph' p"
    by (erule uses_cache_keeps) (rule keep)
  have "stage_ok ph' publisher' i p"
  proof -
    have "stage_ok ph publisher i p" using ok by (simp add: process_ok_def)
    then show ?thesis using pu by (cases "p_stage p") (auto simp: stage_ok_def)
  qed
  moreover have "is_published ph \<Longrightarrow> is_published ph' \<and> publisher' = publisher" using keep by auto
  ultimately show ?thesis using ok u a by (auto simp: process_ok_def)
qed

section \<open>Every step keeps it\<close>

lemma wp_any: "(\<And>r t. Q r t) \<Longrightarrow> wp m Q w"
  by (simp add: wp_def split: prod.splits)

lemma wp_shutdown_flags:
  "wp (ahe_broker_client_shutdown c) (\<lambda>c' _. \<not> k_reattached c' \<and> \<not> k_ready c' \<and> \<not> k_creator c') w"
  unfolding ahe_broker_client_shutdown_def wp_bind [where m = "if _ then _ else _"]
  by (intro wp_any [where m = "if _ then _ else _"]) (simp add: wp_bind wp_return wp_any)

lemma served_published: "served f m ph a q d \<Longrightarrow> is_published ph \<Longrightarrow> q = ph"
  by (erule served.cases) auto

lemma served_attach:
  "served f m ph (Granted_attach sz base offset segments) q d \<Longrightarrow>
   \<exists>key. q = Published segments key sz base offset"
  by (erule served.cases) auto

lemma served_ready_ack:
  assumes "served f m ph Acknowledged q True" and "m_type m = AHE_BROKER_READY"
  shows "cache_at q (m_mapping_base m) (m_mapping_size m) (m_mapping_base m + m_shared_globals_offset m) \<and>
    \<not> is_published ph"
  using assms by (cases rule: served.cases) auto

lemma phase_published: "is_published (phase_of g) \<longleftrightarrow> g_state g = AHE_GENERATION_READY"
  by (cases "g_state g") (simp_all add: phase_of_def)

lemma ready_request_size [simp]:
  "m_type (ready_request c globals) = AHE_BROKER_READY"
  "m_mapping_size (ready_request c globals) = k_mapping_size c"
  "m_mapping_base (ready_request c globals) = k_mapping c"
  "k_mapping c + m_shared_globals_offset (ready_request c globals) = globals"
  by (simp_all add: ready_request_def)

lemma wp_detach_flags:
  assumes "seg_p segment = k_mapping c" and "seg_size segment = k_mapping_size c"
  shows "wp (ahe_broker_client_detach c (Some (address, segment))) (\<lambda>(res, c') _.
    k_reattached c' = k_reattached c \<and> k_ready c' = k_ready c \<and> k_creator c' = k_creator c \<and>
    (res = ZEND_OPCACHE_SHM_PROVIDER_SUCCESS \<or> c' = c)) w"
  using assms by (simp add: ahe_broker_client_detach_def Let_def wp_bind wp_sys wp_return)

text \<open>What a turn of the broker does to the phase, and what it can put in a process's queue.\<close>

lemma dispatched:
  assumes "gen_wf g" and "history w = []"
    and "run_state (ahe_broker_dispatch f g m) w = ((keep, g'), w')"
  shows "gen_wf g' \<and> (\<exists>a d. served f m (phase_of g) a (phase_of g') d \<and> keep = kept_open m d \<and>
    sends (history w') = {(f, encode_message (answer_message a), answer_fds a)})"
proof -
  have "wp (ahe_broker_dispatch f g m) (\<lambda>r _. gen_wf (snd r)) w"
    by (rule wp_dispatch [OF assms(1)]) (simp add: handler_post_def)
  from wp_runD [OF this assms(3)] wp_runD [OF dispatch_served [OF assms(1)] assms(3)] assms(2)
  show ?thesis by (auto simp: dispatch_post_def sent_answer_def)
qed

lemma reset_keeps:
  assumes "run_state (reset_if_creator f g) w = (g', w')" and "gen_wf g"
  shows "gen_wf g' \<and> (is_published (phase_of g) \<longrightarrow> g' = g)"
proof -
  have "wp (reset_if_creator f g) (\<lambda>g' _. gen_wf g' \<and> (is_published (phase_of g) \<longrightarrow> g' = g)) w"
    unfolding reset_if_creator_def wp_if
    using assms(2) by (auto simp: phase_published wp_return intro!: wp_generation_reset)
  from wp_runD [OF this assms(1)] show ?thesis .
qed

lemma set_process_simps [simp]:
  "s_generation (set_process i p s) = s_generation s" "s_publisher (set_process i p s) = s_publisher s"
  "s_connection (set_process i p s) = s_connection s"
  "s_process (set_process i p s) = (s_process s)(i \<mapsto> p)"
  by (simp_all add: set_process_def)

text \<open>Changing one process.\<close>

lemma system_ok_set_process:
  assumes "system_ok s" and "process_ok (phase_of (s_generation s)) (s_publisher s) i p"
  shows "system_ok (set_process i p s)"
  using assms by (auto simp: system_ok_def)

lemma system_ok_start: "system_start s \<Longrightarrow> system_ok s"
  by (simp add: system_start_def system_ok_def)

lemma serve_ok:
  assumes ok: "system_ok s" and p: "s_process s i = Some p" and out: "p_outbox p = bs # rest"
    and w: "history w = []"
    and run: "run_state (ahe_broker_dispatch f (s_generation s) (decode_message bs)) w = ((keep, g), w')"
    and arr: "arrived = [] \<or> (\<exists>ab fds. arrived = [(ab, fds)] \<and> (f, ab, fds) \<in> sends (history w') \<and>
      may_arrive (decode_message bs) keep)"
  shows "system_ok (set_process i (p\<lparr>p_outbox := rest, p_inbox := p_inbox p @ arrived\<rparr>)
      (s\<lparr>s_generation := g, s_publisher := publisher_after i g s\<rparr>))"
proof -
  let ?m = "decode_message bs" and ?ph = "phase_of (s_generation s)" and ?q = "phase_of g"
  let ?pub = "publisher_after i g s" and ?p = "p\<lparr>p_outbox := rest, p_inbox := p_inbox p @ arrived\<rparr>"
  have wf: "gen_wf (s_generation s)" using ok by (simp add: system_ok_def)
  from dispatched [OF wf w run] obtain a d where wf': "gen_wf g" and sv: "served f ?m ?ph a ?q d"
    and keep: "keep = kept_open ?m d"
    and snt: "sends (history w') = {(f, encode_message (answer_message a), answer_fds a)}" by blast
  have mono: "?q = ?ph \<and> ?pub = s_publisher s" if "is_published ?ph"
    using served_published [OF sv that] that by (simp add: publisher_after_def phase_published)
  have pok: "process_ok ?q ?pub j r" if "s_process s j = Some r" for j r
    using ok that mono by (auto simp: system_ok_def intro: process_ok_mono)
  have arrived: "arrived = [] \<or> arrived = [(encode_message (answer_message a), answer_fds a)] \<and> may_arrive ?m keep"
    using arr snt by auto
  have attach: "true_attach ?q (encode_message (answer_message a))"
    using sv by (auto simp: true_attach_def answer_is_attach dest: served_attach)
  have ack: "?pub = Some i \<and> uses_cache ?q p" if st: "p_stage p = Offered" and o: "p_outbox p \<noteq> []"
    and aa: "a = Acknowledged" and ma: "may_arrive ?m keep"
  proof -
    have "stage_ok ?q ?pub i p" using pok [OF p] by (simp add: process_ok_def)
    with st o out have bs: "bs = encode_message (ready_request (p_client p) (p_globals p))"
      by (simp add: stage_ok_def)
    then have m: "?m = ready_request (p_client p) (p_globals p)" by simp
    have "d" using ma keep by (simp add: m may_arrive_def kept_open_def)
    with sv aa have "served f ?m ?ph Acknowledged ?q True" by simp
    from served_ready_ack [OF this] have "uses_cache ?q p \<and> \<not> is_published ?ph"
      by (simp add: m uses_cache_def)
    then show ?thesis
      by (auto simp: publisher_after_def uses_cache_def phase_published simp flip: phase_published
          dest: cache_at_published)
  qed
  have "stage_ok ?q ?pub i ?p"
    using pok [OF p] arrived ack out
    by (cases "p_stage p") (auto simp: process_ok_def stage_ok_def uses_cache_def answer_is_ack)
  then have "process_ok ?q ?pub i ?p"
    using pok [OF p] arrived attach by (auto simp: process_ok_def uses_cache_def)
  with pok wf' show ?thesis by (auto simp: system_ok_def)
qed

lemma hang_up_ok:
  assumes ok: "system_ok s" and run: "run_state (reset_if_creator f (s_generation s)) w = (g, w')"
  shows "system_ok (s\<lparr>s_generation := g, s_connection := connections\<rparr>)"
proof -
  have "gen_wf (s_generation s)" using ok by (simp add: system_ok_def)
  from reset_keeps [OF run this] ok show ?thesis
    by (auto simp: system_ok_def intro: process_ok_mono)
qed

lemma take_answer_ok:
  assumes ok: "process_ok ph publisher i p" and st: "p_stage p = Asked" and inb: "p_inbox p = (ab, fds) # rest"
    and run: "run_state (accept_response (p_client p) (decode_message ab) local_fds (p_size p) outputs) w =
      ((res, c, out), w')"
  shows "process_ok ph publisher i (p\<lparr>p_client := c, p_inbox := rest,
      p_stage := (if res = ZEND_OPCACHE_SHM_ALLOC_FAILURE then Settled else Working),
      p_globals := (if res = ZEND_OPCACHE_SHM_SUCCESSFULLY_REATTACHED then out_globals out else 0)\<rparr>)"
proof -
  have out: "accept_outcome (p_client p) (decode_message ab) (p_size p) (res, c, out)"
    using wp_runD [OF wp_accept_outcome run] .
  have p: "\<not> k_ready (p_client p)" "\<not> k_reattached (p_client p)" "p_outbox p = []" "rest = []"
      "true_attach ph ab"
    using ok st inb by (auto simp: process_ok_def stage_ok_def)
  have "cache_at ph (k_mapping c) (k_mapping_size c) (out_globals out)"
    if "m_type (decode_message ab) = AHE_BROKER_ATTACH" "res = ZEND_OPCACHE_SHM_SUCCESSFULLY_REATTACHED"
  proof -
    from p(5) that(1) obtain segments key sz base offset
      where ph: "ph = Published segments key sz base offset"
        and "ab = encode_message (answer_message (Granted_attach sz base offset segments))"
      by (auto simp: true_attach_def)
    then have "decode_message ab = answer_message (Granted_attach sz base offset segments)"
      by (simp only: answer_decoded)
    with out ph that show ?thesis by (simp add: accept_outcome_def)
  qed
  with out p ok inb show ?thesis
    by (auto simp: accept_outcome_def process_ok_def stage_ok_def uses_cache_def)
qed

lemma system_ok_step:
  assumes ok: "system_ok s" and step: "system_step s t"
  shows "system_ok t"
proof -
  let ?ph = "phase_of (s_generation s)"
  have pok: "process_ok ?ph (s_publisher s) j p" if "s_process s j = Some p" for j p
    using ok that by (simp add: system_ok_def)
  from step show ?thesis
  proof cases
    case (join i f key socket_fd sz)
    have "process_ok ?ph (s_publisher s) i (joining socket_fd key sz)"
      by (simp add: process_ok_def stage_ok_def joining_def AHE_BROKER_CLIENT_INITIALIZER_def)
    with ok show ?thesis unfolding join(1) by (intro system_ok_set_process) (auto simp: system_ok_def)
  next
    case (serve f i p bs rest w keep g w' arrived)
    then show ?thesis using ok by (auto intro: serve_ok)
  next
    case (hang_up f i w g w')
    then show ?thesis using ok by (auto intro: hang_up_ok)
  next
    case (take_answer i p ab fds rest local_fds outputs w res c out w')
    then show ?thesis using system_ok_set_process [OF ok take_answer_ok [OF pok]] by auto
  next
    case (publish i p globals)
    with pok [OF publish(2)] show ?thesis unfolding publish(1)
      by (intro system_ok_set_process [OF ok])
        (auto simp: process_ok_def stage_ok_def uses_cache_def publishable_def)
  next
    case (confirm i p ab fds rest)
    with pok [OF confirm(2)] show ?thesis unfolding confirm(1)
      by (intro system_ok_set_process [OF ok]) (auto simp: process_ok_def stage_ok_def uses_cache_def
        dest: cache_at_published)
  next
    case (give_up i p)
    with pok [OF give_up(2)] show ?thesis unfolding give_up(1)
      by (intro system_ok_set_process [OF ok]) (auto simp: process_ok_def stage_ok_def uses_cache_def)
  next
    case (detach i p segment address w res c w')
    from wp_runD [OF wp_detach_flags [OF detach(3,4)] detach(5)] pok [OF detach(2)] show ?thesis
      unfolding detach(1)
      by (intro system_ok_set_process [OF ok]) (auto simp: process_ok_def stage_ok_def uses_cache_def)
  next
    case (leave i p w c w')
    have "\<not> k_reattached c \<and> \<not> k_ready c \<and> \<not> k_creator c"
      using wp_runD [OF wp_shutdown_flags leave(3)] .
    with pok [OF leave(2)] show ?thesis unfolding leave(1)
      by (intro system_ok_set_process [OF ok]) (auto simp: process_ok_def stage_ok_def uses_cache_def)
  next
    case (say_anything i p bs)
    with pok [OF say_anything(2)] show ?thesis unfolding say_anything(1)
      by (intro system_ok_set_process [OF ok]) (auto simp: process_ok_def stage_ok_def uses_cache_def)
  qed
qed

interpretation sharing: invariant_machine system_start system_step system_ok
  by unfold_locales (auto intro: system_ok_start system_ok_step)

section \<open>All who share the cache agree on it\<close>

text \<open>
  A process that runs on the shared cache: attached to it, or its creator once ready, and
  OPcache has not detached the segment.
\<close>

definition sharing :: "process \<Rightarrow> bool" where
  "sharing p \<longleftrightarrow> (k_reattached (p_client p) \<or> k_ready (p_client p)) \<and> \<not> p_detached p"

lemma sharing_uses_cache:
  "system_ok s \<Longrightarrow> s_process s i = Some p \<Longrightarrow> sharing p \<Longrightarrow> uses_cache (phase_of (s_generation s)) p"
  by (auto simp: system_ok_def process_ok_def sharing_def)

lemma uses_cache_agree:
  "uses_cache ph p \<Longrightarrow> uses_cache ph q \<Longrightarrow>
   k_mapping (p_client p) = k_mapping (p_client q) \<and>
   k_mapping_size (p_client p) = k_mapping_size (p_client q) \<and> p_globals p = p_globals q"
  by (cases ph) (simp_all add: uses_cache_def)

lemma uses_cache_inside:
  "uses_cache (phase_of g) p \<Longrightarrow> gen_wf g \<Longrightarrow> k_mapping (p_client p) \<noteq> 0 \<and>
   p_globals p - k_mapping (p_client p) < k_mapping_size (p_client p)"
  by (cases "g_state g") (auto simp: uses_cache_def phase_of_def gen_wf_def)

text \<open>
  C1. Everyone who shares a cache sees the same one. Take any number of PHP processes and the
  broker, from the start on, with their messages delayed, lost or never answered, processes
  giving up, detaching, leaving, or sending whatever they like once they are done: at every
  moment, any two processes that run on the shared cache (as its creator once ready, or
  attached, and not detached yet) have
  it mapped at the same address with the same size and take the shared globals to be at the
  same address, which lies inside the mapping; and the cache has only one such creator.
\<close>

theorem participants_agree:
  assumes "system_start s0" and "reaches system_step s0 s"
    and "s_process s i = Some p" and "s_process s j = Some q" and "sharing p" and "sharing q"
  shows "k_mapping (p_client p) = k_mapping (p_client q) \<and>
    k_mapping_size (p_client p) = k_mapping_size (p_client q) \<and> p_globals p = p_globals q \<and>
    k_mapping (p_client p) \<noteq> 0 \<and> p_globals p - k_mapping (p_client p) < k_mapping_size (p_client p) \<and>
    (k_ready (p_client p) \<and> k_ready (p_client q) \<longrightarrow> i = j)"
proof -
  have ok: "system_ok s" by (rule sharing.start_reaches_inv [OF assms(1,2)])
  note u = sharing_uses_cache [OF ok assms(3,5)] sharing_uses_cache [OF ok assms(4,6)]
  have "gen_wf (s_generation s)" using ok by (simp add: system_ok_def)
  moreover have "i = j" if "k_ready (p_client p)" "k_ready (p_client q)"
  proof -
    have "process_ok (phase_of (s_generation s)) (s_publisher s) i p"
      "process_ok (phase_of (s_generation s)) (s_publisher s) j q"
      using ok assms(3,4) by (simp_all add: system_ok_def)
    with that show ?thesis by (simp add: process_ok_def)
  qed
  ultimately show ?thesis using uses_cache_agree [OF u] uses_cache_inside [OF u(1)] by blast
qed

text \<open>
  A run in which two processes come to share a cache: process 0 asks for it, is told to
  create it, publishes its globals and is acknowledged; then process 1 asks and attaches.
\<close>

definition demo_system :: "ahe_generation \<Rightarrow> (fd \<Rightarrow> nat option) \<Rightarrow> (nat \<Rightarrow> process option) \<Rightarrow> nat option \<Rightarrow> system" where
  "demo_system g connections processes publisher = \<lparr>s_generation = g, s_connection = connections,
     s_process = processes, s_publisher = publisher\<rparr>"

definition demo_process :: "ahe_broker_client \<Rightarrow> stage \<Rightarrow> u64 \<Rightarrow> char list list \<Rightarrow> (char list \<times> fd list) list \<Rightarrow> process" where
  "demo_process c st globals out inb = \<lparr>p_client = c, p_stage = st, p_size = 4096, p_globals = globals, p_detached = False,
     p_outbox = out, p_inbox = inb\<rparr>"

definition demo_newcomer :: "fd \<Rightarrow> ahe_broker_client" where
  "demo_newcomer f = AHE_BROKER_CLIENT_INITIALIZER\<lparr>k_socket_fd := f\<rparr>"

definition demo_ready :: process where
  "demo_ready = demo_process (demo_creator\<lparr>k_ready := True, k_segment_allocation := 0\<rparr>) Settled 65600 [] []"

definition demo_attached :: ahe_broker_client where
  "demo_attached = AHE_BROKER_CLIENT_INITIALIZER\<lparr>k_socket_fd := 3, k_cache_fd := 8, k_lock_fd := 9,
     k_mapping := 65536, k_mapping_size := 4096, k_segment_allocation := 4096,
     k_creator := False, k_reattached := True, k_acquired := True\<rparr>"

abbreviation demo_create_bytes :: "char list" where
  "demo_create_bytes \<equiv> encode_message (answer_message (Granted_create 4096 (5, 6)))"

lemma step_serve_kept:
  assumes "s_connection s f = Some i" and "s_process s i = Some p" and "p_outbox p = [bs]"
    and "run_state (ahe_broker_dispatch f (s_generation s) (decode_message bs)) (world_of rs) = ((True, g), w')"
    and "(f, ab, fds) \<in> sends (history w')"
  shows "system_step s (set_process i (p\<lparr>p_outbox := [], p_inbox := p_inbox p @ [(ab, fds)]\<rparr>)
      (s\<lparr>s_generation := g, s_publisher := publisher_after i g s\<rparr>))"
  by (rule system_step.serve [OF assms(1-3) _ assms(4)])
    (use assms(5) in \<open>auto simp: world_of_def may_arrive_def\<close>)

lemma demo_create: "\<exists>w'. run_state (ahe_broker_dispatch 4 ahe_generation_init demo_request)
    (world_of [returned 5, ok, returned 6, ok, sent_reply]) = ((True, demo_building), w') \<and>
  (4, encode_message (answer_message (Granted_create 4096 (5, 6))), [5, 6]) \<in> sends (history w')"
proof -
  let ?w = "world_of [returned 5, ok, returned 6, ok, sent_reply]"
  have "script ?w = [returned 5, ok, returned 6, ok, sent_reply] @ []" by (simp add: world_of_def)
  from run_grant_create [OF demo_request_read(2) this, of 4] obtain w' where
    r: "run_state (ahe_broker_handle_acquire 4 ahe_generation_init demo_request) ?w = ((0, demo_building), w')"
    and h: "hd (history w') = (Sendmsg 4 (encode_message (answer_message (Granted_create 4096 (5, 6)))) [5, 6], sent_reply)"
      "history w' \<noteq> []"
    by (auto simp: ok_def sent_reply_def demo_request_read demo_building_def)
  from h have "(4, encode_message (answer_message (Granted_create 4096 (5, 6))), [5, 6]) \<in> sends (history w')"
    by (cases "history w'") auto
  with r show ?thesis by (simp add: ahe_broker_dispatch_def demo_request_read)
qed

lemma demo_accept: "\<exists>o' w'. run_state (accept_response (AHE_BROKER_CLIENT_INITIALIZER\<lparr>k_socket_fd := 3\<rparr>)
    (answer_message (Granted_create 4096 (5, 6))) [8, 9] 4096 outputs) (world_of [ok\<lparr>r_addr := 65536\<rparr>, allocated]) =
  ((ZEND_OPCACHE_SHM_ALLOC_SUCCESS, demo_creator, o'), w')"
proof -
  have "script (world_of [ok\<lparr>r_addr := 65536\<rparr>, allocated]) = [ok\<lparr>r_addr := 65536\<rparr>, allocated] @ []"
    by (simp add: world_of_def)
  from run_accept_create [OF _ _ this, of "answer_message (Granted_create 4096 (5, 6))" 4096
      "AHE_BROKER_CLIENT_INITIALIZER\<lparr>k_socket_fd := 3\<rparr>" 8 9 outputs]
  show ?thesis by (simp add: demo_creator_def allocated_def)
qed

lemma demo_publish: "run_state (ahe_broker_dispatch 4 demo_building
    (decode_message (encode_message (ready_request demo_creator 65600))))
    (world_of [sent_reply]) = ((True, demo_published),
  answered (Sendmsg 4 (encode_message (answer_message Acknowledged)) []) sent_reply (world_of [sent_reply]))"
proof -
  have "\<not> ready_request_invalid 4 demo_building (ready_request demo_creator 65600)"
    by (simp add: ready_request_invalid_def ready_request_def demo_building_def demo_creator_def)
  from run_publish [OF this, of "world_of [sent_reply]" sent_reply "[]"] show ?thesis
    by (simp add: ahe_broker_dispatch_def world_of_def sent_reply_def demo_published_def)
qed

lemma demo_attach: "run_state (ahe_broker_dispatch 7 demo_published (decode_message (encode_message demo_request))) (world_of [sent_reply]) =
  ((True, demo_published), answered (Sendmsg 7 demo_attach_bytes [5, 6]) sent_reply (world_of [sent_reply]))"
proof -
  have g: "g_state demo_published = AHE_GENERATION_READY" "g_mapping_size demo_published = 4096"
    "g_mapping_base demo_published = 65536" "g_shared_globals_offset demo_published = 64"
    "g_cache_fd demo_published = 5" "g_lock_fd demo_published = 6"
    by (simp_all add: demo_published_def published_by_def demo_building_def ready_request_def demo_creator_def)
  have "ahe_generation_matches demo_published demo_request"
    by (simp add: ahe_generation_matches_def demo_published_def published_by_def demo_building_def
        demo_request_def)
  from run_grant_attach [OF g(1) this, of "world_of [sent_reply]" sent_reply "[]" 7] show ?thesis
    by (simp add: ahe_broker_dispatch_def demo_request_read g world_of_def sent_reply_def)
qed

lemma demo_reattach: "\<exists>o' w'. run_state (accept_response (demo_newcomer 3)
    (answer_message (Granted_attach 4096 65536 64 (5, 6))) [8, 9] 4096 outputs)
    (world_of [ok\<lparr>r_addr := 65536\<rparr>, allocated]) =
  ((ZEND_OPCACHE_SHM_SUCCESSFULLY_REATTACHED, demo_attached, o'), w') \<and> out_globals o' = 65600"
proof -
  have "script (world_of [ok\<lparr>r_addr := 65536\<rparr>, allocated]) = [ok\<lparr>r_addr := 65536\<rparr>, allocated] @ []"
    by (simp add: world_of_def)
  from run_accept_attach [OF _ _ _ _ this, of "answer_message (Granted_attach 4096 65536 64 (5, 6))" 4096
      "demo_newcomer 3" 8 9 outputs]
  show ?thesis by (fastforce simp: demo_attached_def demo_newcomer_def allocated_def)
qed

lemmas demo_defs = demo_system_def demo_process_def demo_newcomer_def set_process_def joining_def

lemma demo_join:
  assumes "connections f = None" and "processes i = None" and "connections' = connections(f \<mapsto> i)"
    and "processes' = processes(i \<mapsto> demo_process (demo_newcomer 3) Asked 0 [encode_message demo_request] [])"
  shows "system_step (demo_system g connections processes publisher) (demo_system g connections' processes' publisher)"
  using system_step.join [of "demo_system g connections processes publisher" i f "''k''" 3 4096] assms
  by (simp add: demo_defs demo_request_def)

lemma demo_serve:
  assumes "run_state (ahe_broker_dispatch f g (decode_message bs)) (world_of rs) = ((True, g'), w')"
    and "(f, ab, fds) \<in> sends (history w')"
    and "connections f = Some i" and "processes i = Some (demo_process c st globals [bs] [])"
    and "processes' = processes(i \<mapsto> demo_process c st globals [] [(ab, fds)])"
    and "publisher' = publisher_after i g' (demo_system g connections processes publisher)"
  shows "system_step (demo_system g connections processes publisher) (demo_system g' connections processes' publisher')"
proof -
  let ?s = "demo_system g connections processes publisher" and ?p = "demo_process c st globals [bs] []"
  have "system_step ?s (set_process i (?p\<lparr>p_outbox := [], p_inbox := p_inbox ?p @ [(ab, fds)]\<rparr>)
      (?s\<lparr>s_generation := g', s_publisher := publisher_after i g' ?s\<rparr>))"
    by (rule step_serve_kept [OF _ _ _ _ assms(2)])
      (use assms(1,3,4) in \<open>simp_all add: demo_system_def demo_process_def\<close>)
  then show ?thesis by (simp add: assms(5,6) demo_system_def demo_process_def set_process_def)
qed

lemma demo_take:
  assumes "run_state (accept_response c (decode_message ab) local_fds 4096 outputs) w = ((res, c', out), w')"
    and "processes i = Some (demo_process c Asked 0 [] [(ab, fds)])"
    and "res \<noteq> ZEND_OPCACHE_SHM_ALLOC_FAILURE"
    and "processes' = processes(i \<mapsto> demo_process c' Working
      (if res = ZEND_OPCACHE_SHM_SUCCESSFULLY_REATTACHED then out_globals out else 0) [] [])"
  shows "system_step (demo_system g connections processes publisher) (demo_system g connections processes' publisher)"
  using system_step.take_answer [of "demo_system g connections processes publisher" i
      "demo_process c Asked 0 [] [(ab, fds)]" ab fds "[]" local_fds outputs w res c' out w'] assms
  by (simp add: demo_defs)

lemma three_steps:
  "system_step s t \<Longrightarrow> system_step t u \<Longrightarrow> system_step u v \<Longrightarrow> reaches system_step s v"
  by (blast intro: reaches.here reaches.further)

text \<open>The run, in three stretches: the cache is created, published, and attached to.\<close>

lemma demo_run_created: "reaches system_step (demo_system ahe_generation_init Map.empty Map.empty None)
  (demo_system demo_building [4 \<mapsto> 0] [0 \<mapsto> demo_process demo_creator Working 0 [] []] None)"
proof -
  let ?p = "\<lambda>out inb. [0 \<mapsto> demo_process (demo_newcomer 3) Asked 0 out inb]"
  have 1: "system_step (demo_system ahe_generation_init Map.empty Map.empty None)
      (demo_system ahe_generation_init [4 \<mapsto> 0] (?p [encode_message demo_request] []) None)"
    by (rule demo_join) simp_all
  from demo_create obtain w' where r: "run_state (ahe_broker_dispatch 4 ahe_generation_init
      (decode_message (encode_message demo_request)))
      (world_of [returned 5, ok, returned 6, ok, sent_reply]) = ((True, demo_building), w')"
    "(4, demo_create_bytes, [5, 6]) \<in> sends (history w')" by (auto simp: demo_request_read)
  have 2: "system_step (demo_system ahe_generation_init [4 \<mapsto> 0] (?p [encode_message demo_request] []) None)
      (demo_system demo_building [4 \<mapsto> 0] (?p [] [(demo_create_bytes, [5, 6])]) None)"
    by (rule demo_serve [OF r, where i = 0 and c = "demo_newcomer 3" and st = Asked and globals = 0])
      (simp_all add: publisher_after_def demo_system_def demo_building_def)
  from demo_accept obtain o' w' where a: "run_state (accept_response (demo_newcomer 3)
      (decode_message demo_create_bytes) [8, 9] 4096 undefined) (world_of [ok\<lparr>r_addr := 65536\<rparr>, allocated]) =
    ((ZEND_OPCACHE_SHM_ALLOC_SUCCESS, demo_creator, o'), w')"
    unfolding answer_decoded demo_newcomer_def by blast
  have 3: "system_step (demo_system demo_building [4 \<mapsto> 0] (?p [] [(demo_create_bytes, [5, 6])]) None)
      (demo_system demo_building [4 \<mapsto> 0] [0 \<mapsto> demo_process demo_creator Working 0 [] []] None)"
    by (rule demo_take [OF a, where i = 0 and fds = "[5, 6]"]) simp_all
  show ?thesis by (rule three_steps [OF 1 2 3])
qed

lemma demo_run_published:
  "reaches system_step (demo_system demo_building [4 \<mapsto> 0] [0 \<mapsto> demo_process demo_creator Working 0 [] []] None)
    (demo_system demo_published [4 \<mapsto> 0] [0 \<mapsto> demo_ready] (Some 0))"
proof -
  let ?p = "\<lambda>out inb. [0 \<mapsto> demo_process demo_creator Offered 65600 out inb]"
  let ?r = "encode_message (ready_request demo_creator 65600)" and ?a = "encode_message (answer_message Acknowledged)"
  have "publishable demo_creator 65600" by (simp add: publishable_def demo_creator_def)
  then have 1: "system_step (demo_system demo_building [4 \<mapsto> 0] [0 \<mapsto> demo_process demo_creator Working 0 [] []] None)
      (demo_system demo_building [4 \<mapsto> 0] (?p [?r] []) None)"
    using system_step.publish [of "demo_system demo_building [4 \<mapsto> 0] [0 \<mapsto> demo_process demo_creator Working 0 [] []] None"
        0 "demo_process demo_creator Working 0 [] []" 65600] by (simp add: demo_defs)
  have 2: "system_step (demo_system demo_building [4 \<mapsto> 0] (?p [?r] []) None)
      (demo_system demo_published [4 \<mapsto> 0] (?p [] [(?a, [])]) (Some 0))"
    by (rule demo_serve [OF demo_publish, where i = 0 and c = demo_creator
          and st = Offered and globals = 65600])
      (simp_all add: publisher_after_def demo_system_def demo_published_def published_by_def demo_building_def)
  have "m_type (decode_message ?a) = AHE_BROKER_ACK" by (simp only: answer_decoded answer_is_ack)
  then have 3: "system_step (demo_system demo_published [4 \<mapsto> 0] (?p [] [(?a, [])]) (Some 0))
      (demo_system demo_published [4 \<mapsto> 0] [0 \<mapsto> demo_ready] (Some 0))"
    using system_step.confirm [of "demo_system demo_published [4 \<mapsto> 0] (?p [] [(?a, [])]) (Some 0)" 0
        "demo_process demo_creator Offered 65600 [] [(?a, [])]" ?a "[]" "[]"]
    by (simp add: demo_defs demo_ready_def)
  show ?thesis by (rule three_steps [OF 1 2 3])
qed

lemma demo_run_attached:
  "reaches system_step (demo_system demo_published [4 \<mapsto> 0] [0 \<mapsto> demo_ready] (Some 0))
    (demo_system demo_published [4 \<mapsto> 0, 7 \<mapsto> 1]
      [0 \<mapsto> demo_ready, 1 \<mapsto> demo_process demo_attached Working 65600 [] []] (Some 0))"
proof -
  let ?c = "[4 \<mapsto> 0, 7 \<mapsto> 1]"
  let ?p = "\<lambda>out inb. [0 \<mapsto> demo_ready, 1 \<mapsto> demo_process (demo_newcomer 3) Asked 0 out inb]"
  have 1: "system_step (demo_system demo_published [4 \<mapsto> 0] [0 \<mapsto> demo_ready] (Some 0))
      (demo_system demo_published ?c (?p [encode_message demo_request] []) (Some 0))"
    by (rule demo_join) simp_all
  have 2: "system_step (demo_system demo_published ?c (?p [encode_message demo_request] []) (Some 0))
      (demo_system demo_published ?c (?p [] [(demo_attach_bytes, [5, 6])]) (Some 0))"
    by (rule demo_serve [OF demo_attach, where i = 1 and c = "demo_newcomer 3"
          and st = Asked and globals = 0])
      (simp_all add: publisher_after_def demo_system_def)
  from demo_reattach obtain o' w' where a: "run_state (accept_response (demo_newcomer 3)
      (decode_message demo_attach_bytes) [8, 9] 4096 undefined) (world_of [ok\<lparr>r_addr := 65536\<rparr>, allocated]) =
    ((ZEND_OPCACHE_SHM_SUCCESSFULLY_REATTACHED, demo_attached, o'), w')" and o': "out_globals o' = 65600"
    unfolding answer_decoded by blast
  have 3: "system_step (demo_system demo_published ?c (?p [] [(demo_attach_bytes, [5, 6])]) (Some 0))
      (demo_system demo_published ?c [0 \<mapsto> demo_ready, 1 \<mapsto> demo_process demo_attached Working 65600 [] []] (Some 0))"
    by (rule demo_take [OF a, where i = 1 and fds = "[5, 6]"]) (simp_all add: o')
  show ?thesis by (rule three_steps [OF 1 2 3])
qed

theorem participants_agree_witness:
  "\<exists>s p q. reaches system_step (demo_system ahe_generation_init Map.empty Map.empty None) s \<and>
    s_process s 0 = Some p \<and> s_process s 1 = Some q \<and> k_ready (p_client p) \<and> k_reattached (p_client q) \<and>
    k_mapping (p_client p) = k_mapping (p_client q) \<and> p_globals p = p_globals q"
proof -
  let ?q = "demo_process demo_attached Working 65600 [] []"
  let ?s = "demo_system demo_published [4 \<mapsto> 0, 7 \<mapsto> 1] [0 \<mapsto> demo_ready, 1 \<mapsto> ?q] (Some 0)"
  have start: "system_start (demo_system ahe_generation_init Map.empty Map.empty None)"
    by (simp add: system_start_def demo_system_def)
  have run: "reaches system_step (demo_system ahe_generation_init Map.empty Map.empty None) ?s"
    using demo_run_attached demo_run_published demo_run_created by (blast intro: reaches_trans)
  have p: "s_process ?s 0 = Some demo_ready" "s_process ?s 1 = Some ?q" by (simp_all add: demo_system_def)
  have r: "k_ready (p_client demo_ready)" "k_reattached (p_client ?q)"
    by (simp_all add: demo_ready_def demo_process_def demo_attached_def)
  then have "sharing demo_ready" "sharing ?q" by (simp_all add: sharing_def demo_ready_def demo_process_def)
  from participants_agree [OF start run p this] run p r show ?thesis by blast
qed

end
