(* ===== verification/Broker_Correct.thy ===== *)
theory Broker_Correct imports Broker_Run begin

unbundle bit_operations_syntax

text \<open>
  The properties of the broker, from the whole program down to its parts, each with a
  concrete run that satisfies its hypotheses.
\<close>

section \<open>The whole program\<close>

text \<open>
  C3. Whatever the kernel answers and whatever its clients send, a broker that has run to its
  end has closed every descriptor it ever held, and it never closed one it did not hold: no
  leak and no double close on any path, errors and signals included.
\<close>

theorem broker_closes_everything:
  assumes "history w = []"
  shows "wp (ahe_broker_main name arguments) (\<lambda>_ w'. kernel_ok (history w') \<longrightarrow>
    closes_owned (history w') \<and> open_fds (history w') = {}) w"
proof (rule wp_mono [OF wp_main], intro impI)
  fix r w'
  assume p: "run_post w w'" and k: "kernel_ok (history w')"
  have "holds {#} w" using assms by (simp add: holds_def)
  with p have "holds {#} w'" by (simp add: run_post_def)
  with k have "closes_owned (history w')" and "mset_set (open_fds (history w')) = {#}"
    by (simp_all add: holds_def)
  then show "closes_owned (history w') \<and> open_fds (history w') = {}"
    by (simp add: mset_set_empty_iff finite_open_fds)
qed

definition broker_run :: "int \<times> world" where
  "broker_run = run_state (ahe_broker_main ''ahe-broker'' [''--socket'', ''/r/s'']) (world_of broker_script)"

lemma broker_run_kernel_ok: "kernel_ok (history (snd broker_run))"
  by code_simp

theorem broker_closes_everything_witness:
  "kernel_ok (history (snd broker_run)) \<and> closes_owned (history (snd broker_run)) \<and>
   open_fds (history (snd broker_run)) = {}"
proof -
  have "history (world_of broker_script) = []" by (simp add: world_of_def)
  from broker_closes_everything [OF this, of "''ahe-broker''" "[''--socket'', ''/r/s'']"] broker_run_kernel_ok
  show ?thesis by (simp add: wp_def broker_run_def split: prod.splits)
qed

text \<open>
  C4. In one run of the broker all participants are attached to the same cache: any two
  \<open>ATTACH\<close> answers it sends, to whichever clients, carry the same bytes (size, base address and
  offset of the shared globals) and the same two descriptors.
\<close>

theorem broker_attaches_all_alike:
  assumes "history w = []"
  shows "wp (ahe_broker_main name arguments) (\<lambda>_ w'. \<forall>f bs fds f' bs' fds'.
    (f, bs, fds) \<in> sends (history w') \<longrightarrow> (f', bs', fds') \<in> sends (history w') \<longrightarrow>
    m_type (decode_message bs) = AHE_BROKER_ATTACH \<longrightarrow>
    m_type (decode_message bs') = AHE_BROKER_ATTACH \<longrightarrow> bs = bs' \<and> fds = fds') w"
  by (rule wp_mono [OF wp_main])
    (use assms in \<open>simp add: run_post_def uniform_attaches_def\<close>)

text \<open>
  In \<open>attach_run\<close> the broker creates a cache for client 4, then hands it to client 7 and to
  client 4 again: both grants are there, and no \<open>ATTACH\<close> it sent differs from them.
\<close>

theorem broker_attaches_all_alike_witness:
  "(7, demo_attach_bytes, [5, 6]) \<in> sends (history (snd attach_run)) \<and>
   (4, demo_attach_bytes, [5, 6]) \<in> sends (history (snd attach_run)) \<and>
   {(bs, fds). \<exists>f. (f, bs, fds) \<in> sends (history (snd attach_run)) \<and> m_type (decode_message bs) = AHE_BROKER_ATTACH} =
     {(demo_attach_bytes, [5, 6])}"
proof -
  have t: "m_type (decode_message demo_attach_bytes) = AHE_BROKER_ATTACH"
    unfolding answer_decoded by simp
  have "history (world_of attach_script) = []" by (simp add: world_of_def)
  from broker_attaches_all_alike [OF this, of "''ahe-broker''" "[''--socket'', ''/r/s'']"]
  have "bs = demo_attach_bytes \<and> fds = [5, 6]"
    if "(f, bs, fds) \<in> sends (history (snd attach_run))" "m_type (decode_message bs) = AHE_BROKER_ATTACH" for f bs fds
    using attach_run_sends(1) t that unfolding wp_def attach_run_def by (fastforce split: prod.splits)
  with t attach_run_sends show ?thesis by blast
qed

section \<open>The protocol\<close>

text \<open>
  C5. The handlers answer every request as the abstract protocol says: whatever the
  request and the kernel, all it sends is one answer that \<open>served\<close> allows in the current phase,
  to the requesting client, with the generation's descriptors only in a grant; the generation
  moves to the phase that answer announces, a publication only when its acknowledgement was
  delivered (the last call sent it whole); the connection is kept exactly for a delivered
  answer to \<open>ACQUIRE\<close>, \<open>READY\<close> or \<open>ABORT\<close>.
\<close>

theorem dispatch_refines_protocol:
  assumes "gen_wf g"
  shows "wp (ahe_broker_dispatch f g m) (\<lambda>(keep, g') w'. \<exists>a.
    served f m (phase_of g) a (phase_of g') (delivered f a w') \<and>
    sends (history w') = insert (f, encode_message (answer_message a), answer_fds a) (sends (history w)) \<and>
    keep = kept_open m (delivered f a w')) w"
proof (rule wp_mono [OF dispatch_served [OF assms]])
  fix r w'
  assume "dispatch_post f m g w r w'"
  then show "(\<lambda>(keep, g') w'. \<exists>a.
      served f m (phase_of g) a (phase_of g') (delivered f a w') \<and>
      sends (history w') = insert (f, encode_message (answer_message a), answer_fds a) (sends (history w)) \<and>
      keep = kept_open m (delivered f a w')) r w'"
    by (cases r) (simp add: dispatch_post_def sent_answer_def)
qed

theorem dispatch_refines_protocol_witness:
  "gen_wf ahe_generation_init \<and>
   wp (ahe_broker_dispatch 4 ahe_generation_init (ahe_broker_message_init AHE_BROKER_READY)) (\<lambda>(keep, g') w'.
     \<exists>a. served 4 (ahe_broker_message_init AHE_BROKER_READY) (phase_of ahe_generation_init) a
       (phase_of g') (delivered 4 a w') \<and>
     sends (history w') = insert (4, encode_message (answer_message a), answer_fds a)
       (sends (history (world_of [sent_reply]))) \<and>
     keep = kept_open (ahe_broker_message_init AHE_BROKER_READY) (delivered 4 a w')) (world_of [sent_reply])"
  using dispatch_refines_protocol [OF gen_wf_init] by simp

text \<open>
  C6. The event loop refines the abstract protocol: from any start, however many turns it
  takes, the broker's tables stay consistent (the generation well formed, its creator
  connected, every connection inside the allocated table, the count of served clients
  within the limit) and its generation has gone through steps of the protocol only.
\<close>

theorem loop_refines_protocol:
  assumes "reaches loop_step (broker_initial listener_fd max_clients, w) (b, w')"
  shows "gen_wf (b_generation b) \<and> creator_connected (b_generation b) (b_clients b) \<and>
    length (b_clients b) \<le> unat (b_client_capacity b) \<and>
    (b_max_clients b = 0 \<or> b_handled_clients b \<le> b_max_clients b) \<and>
    reaches any_step No_generation (phase_of (b_generation b))"
proof -
  let ?s = "(broker_initial listener_fd max_clients, w)"
  have "loop_start ?s" by (auto simp: loop_start_def)
  with assms have "broker_ok b" using broker.start_reaches_inv by fastforce
  moreover have "reaches any_step (broker_phase ?s) (broker_phase (b, w'))"
    by (rule broker.reaches_sim [OF assms]) simp
  ultimately show ?thesis
    by (auto simp: broker_ok_def table_fits_def broker_phase_def broker_initial_def)
qed

definition turn_world :: world where
  "turn_world = world_of [allocated, poll_reply [1], returned 4, peer_reply, allocated]"

definition turn_broker :: ahe_broker where
  "turn_broker = (broker_initial 3 1)\<lparr>b_clients := [\<lparr>c_fd = 4, c_handled_message = False\<rparr>],
     b_client_capacity := 8, b_poll_capacity := 1\<rparr>"

lemma turn_taken:
  "loop_step (broker_initial 3 1, turn_world) (turn_broker, snd (run_state (ahe_broker_iteration (broker_initial 3 1)) turn_world))"
proof -
  have "\<not> stopping turn_world \<and>
      fst (run_state (ahe_broker_iteration (broker_initial 3 1)) turn_world) = Continue turn_broker"
    by code_simp
  then show ?thesis by (metis fst_conv loop_step_def prod.collapse snd_conv)
qed

theorem loop_refines_protocol_witness:
  "reaches loop_step (broker_initial 3 1, turn_world)
     (turn_broker, snd (run_state (ahe_broker_iteration (broker_initial 3 1)) turn_world)) \<and>
   creator_connected (b_generation turn_broker) (b_clients turn_broker) \<and>
   reaches any_step No_generation (phase_of (b_generation turn_broker))"
  using loop_refines_protocol [OF reaches_one [where step = loop_step, OF turn_taken]]
    reaches_one [where step = loop_step, OF turn_taken] by simp

text \<open>
  C7. A published generation is final: over any number of turns its size, key, base address,
  offset and descriptors stay what they were when it was published.
\<close>

theorem published_generation_is_final:
  assumes "broker_ok b" and "phase_of (b_generation b) = Published segments key sz base offset"
    and "reaches loop_step (b, w) (b', w')"
  shows "phase_of (b_generation b') = Published segments key sz base offset"
proof -
  have "reaches any_step (broker_phase (b, w)) (broker_phase (b', w'))"
    by (rule broker.reaches_sim [OF assms(3)]) (simp add: assms(1))
  from published_final [OF this, of segments key sz base offset] assms(2) show ?thesis
    by (simp add: broker_phase_def)
qed

definition ready_generation :: ahe_generation where
  "ready_generation = \<lparr>g_state = AHE_GENERATION_READY, g_cache_fd = 5, g_lock_fd = 6, g_creator_fd = -1,
     g_mapping_size = 4096, g_mapping_base = 65536, g_shared_globals_offset = 64,
     g_cache_key = ''k'' @ [NUL]\<rparr>"

definition ready_broker :: ahe_broker where
  "ready_broker = (broker_initial 3 0)\<lparr>b_generation := ready_generation\<rparr>"

lemma ready_broker_ok: "broker_ok ready_broker"
  by (simp add: broker_ok_def ready_broker_def ready_generation_def broker_initial_def gen_wf_def
      creator_connected_def table_fits_def has_nul_def)

lemma ready_turn_taken:
  "loop_step (ready_broker, world_of [allocated, failed EINTR]) (ready_broker\<lparr>b_poll_capacity := 1\<rparr>,
     snd (run_state (ahe_broker_iteration ready_broker) (world_of [allocated, failed EINTR])))"
proof -
  have "\<not> stopping (world_of [allocated, failed EINTR]) \<and>
      fst (run_state (ahe_broker_iteration ready_broker) (world_of [allocated, failed EINTR])) =
        Continue (ready_broker\<lparr>b_poll_capacity := 1\<rparr>)"
    by code_simp
  then show ?thesis by (metis fst_conv loop_step_def prod.collapse snd_conv)
qed

theorem published_generation_is_final_witness:
  "broker_ok ready_broker \<and>
   phase_of (b_generation (ready_broker\<lparr>b_poll_capacity := 1\<rparr>)) = Published (5, 6) ''k'' 4096 65536 64"
proof -
  have "phase_of (b_generation ready_broker) = Published (5, 6) ''k'' 4096 65536 64"
    by (simp add: phase_of_def ready_broker_def ready_generation_def cstr_def)
  from published_generation_is_final [OF ready_broker_ok this
      reaches_one [where step = loop_step, OF ready_turn_taken]] ready_broker_ok
  show ?thesis by simp
qed

section \<open>Clients\<close>

text \<open>
  C11. The sweep over the connections touches only those that the poll reported readable in
  their own slot: although closing a connection moves the last one into its place, no
  event is ever charged to another connection, and nothing is received from or sent to a
  descriptor that was not reported.
\<close>

theorem sweep_serves_only_readable:
  assumes "broker_ok b"
  shows "wp (serve_clients (length (b_clients b)) revents b) (\<lambda>b' w'. broker_ok b' \<and>
    talks (history w') \<subseteq> talks (history w) \<union>
      {c_fd (b_clients b ! i) | i. i < length (b_clients b) \<and> revents_at revents (i + 1) AND POLLIN \<noteq> 0}) w"
proof (rule wp_mono [OF wp_serve_clients [OF assms order_refl]], elim conjE)
  fix b' w'
  assume p: "loop_post b w b' w'"
    and t: "talks (history w') \<subseteq> talks (history w) \<union> readable_fds b revents (length (b_clients b))"
  have "readable_fds b revents (length (b_clients b)) \<subseteq>
      {c_fd (b_clients b ! i) | i. i < length (b_clients b) \<and> revents_at revents (i + 1) AND POLLIN \<noteq> 0}"
    by (force simp: readable_fds_def poll_fds_def)
  with t loop_post_ok [OF p] show "broker_ok b' \<and> talks (history w') \<subseteq> talks (history w) \<union>
      {c_fd (b_clients b ! i) | i. i < length (b_clients b) \<and> revents_at revents (i + 1) AND POLLIN \<noteq> 0}"
    by blast
qed

theorem sweep_serves_only_readable_witness:
  "broker_ok turn_broker \<and>
   wp (serve_clients (length (b_clients turn_broker)) [0, 1] turn_broker) (\<lambda>b' w'. broker_ok b' \<and>
    talks (history w') \<subseteq> talks (history (world_of [failed EAGAIN])) \<union>
      {c_fd (b_clients turn_broker ! i) | i. i < length (b_clients turn_broker) \<and>
        revents_at [0, 1] (i + 1) AND POLLIN \<noteq> 0}) (world_of [failed EAGAIN])"
proof -
  have "broker_ok turn_broker"
    by (simp add: broker_ok_def turn_broker_def broker_initial_def table_fits_def)
  with sweep_serves_only_readable [OF this] show ?thesis by simp
qed

text \<open>
  C12. Losing the creator before it published discards the unfinished cache: both of its
  descriptors are closed, then the connection's, the generation is empty again for the next
  client, and the connection is gone from the table with every other still in it.
\<close>

theorem lost_creator_discards_generation:
  assumes "i < length clients" and "g_state g = AHE_GENERATION_INITIALIZING"
    and "g_creator_fd g = c_fd (clients ! i)" and "gen_wf g"
  shows "wp (ahe_broker_close_client clients i g) (\<lambda>(clients', g') w'. g' = ahe_generation_init \<and>
    mset clients = add_mset (clients ! i) (mset clients') \<and>
    history w' = map (\<lambda>f. (Close f, returned 0)) [c_fd (clients ! i), g_lock_fd g, g_cache_fd g] @ history w) w"
proof -
  have "0 \<le> g_cache_fd g" "0 \<le> g_lock_fd g" using assms(2,4) by (simp_all add: gen_wf_def)
  then show ?thesis using assms
    by (simp add: ahe_broker_close_client_def reset_if_creator_def ahe_generation_reset_def wp_rules
        mset_swap_remove)
qed

definition building_generation :: ahe_generation where
  "building_generation = ready_generation\<lparr>g_state := AHE_GENERATION_INITIALIZING, g_creator_fd := 4,
     g_mapping_base := 0, g_shared_globals_offset := 0\<rparr>"

lemma building_generation_wf: "gen_wf building_generation"
  by (simp add: gen_wf_def building_generation_def ready_generation_def has_nul_def)

theorem lost_creator_discards_generation_witness:
  "wp (ahe_broker_close_client [\<lparr>c_fd = 4, c_handled_message = True\<rparr>, \<lparr>c_fd = 7, c_handled_message = True\<rparr>] 0
      building_generation) (\<lambda>(clients', g') w'. g' = ahe_generation_init \<and>
    mset [\<lparr>c_fd = 4, c_handled_message = True\<rparr>, \<lparr>c_fd = 7, c_handled_message = True\<rparr>] =
      add_mset \<lparr>c_fd = 4, c_handled_message = True\<rparr> (mset clients') \<and>
    history w' = map (\<lambda>f. (Close f, returned 0)) [4, 6, 5] @ history (world_of [])) (world_of [])"
  using lost_creator_discards_generation [of 0
      "[\<lparr>c_fd = 4, c_handled_message = True\<rparr>, \<lparr>c_fd = 7, c_handled_message = True\<rparr>]" building_generation "world_of []"]
    building_generation_wf
  by (simp add: building_generation_def ready_generation_def)

text \<open>
  C13. Only a live process of the broker's own user gets into the table of clients: a connection
  is added, unheard and at the end, only when the kernel had just accepted it and its
  credentials for that very descriptor then passed the check.
\<close>

theorem only_trusted_peers_join:
  "wp (accept_client b) (\<lambda>r w'. b_clients (flow_broker r) = b_clients b \<or>
     (\<exists>f a c h. b_clients (flow_broker r) = b_clients b @ [\<lparr>c_fd = f, c_handled_message = False\<rparr>] \<and>
        history w' = h @ [(Getsockopt_peercred f, c), (Accept4 (b_listener_fd b), a)] @ history w \<and> r_ret a = f \<and>
        0 \<le> r_ret c \<and> r_optlen c = UCRED_SIZE \<and> 0 < cr_pid (r_cred c) \<and> cr_uid (r_cred c) = euid w)) w"
proof -
  let ?R = "next_reply w" and ?w1 = "answered (Accept4 (b_listener_fd b)) (next_reply w) w"
  let ?c = "next_reply ?w1" and ?w2 = "answered (Getsockopt_peercred (r_ret ?R)) (next_reply ?w1) ?w1"
  let ?P = "\<lambda>r w'. b_clients (flow_broker r) = b_clients b \<or>
     (\<exists>f a c h. b_clients (flow_broker r) = b_clients b @ [\<lparr>c_fd = f, c_handled_message = False\<rparr>] \<and>
        history w' = h @ [(Getsockopt_peercred f, c), (Accept4 (b_listener_fd b), a)] @ history w \<and> r_ret a = f \<and>
        0 \<le> r_ret c \<and> r_optlen c = UCRED_SIZE \<and> 0 < cr_pid (r_cred c) \<and> cr_uid (r_cred c) = euid w)"
  have add: "wp (ahe_broker_add_client (b_clients b) (b_client_capacity b) (r_ret ?R))
      (\<lambda>(res, clients, cap) w'. (clients = b_clients b \<or>
          clients = b_clients b @ [\<lparr>c_fd = r_ret ?R, c_handled_message = False\<rparr>]) \<and>
        (\<exists>h. history w' = h @ history ?w2)) ?w2"
    by (simp add: ahe_broker_add_client_def Let_def wp_rules)
  have join: "?P (Continue (b\<lparr>b_clients := clients, b_client_capacity := cap\<rparr>)) w'"
    if "clients = b_clients b @ [\<lparr>c_fd = r_ret ?R, c_handled_message = False\<rparr>]"
      "history w' = h @ history ?w2" "\<not> peer_rejected (euid w) ?c" for clients cap w' h
    by (rule disjI2, rule exI [of _ "r_ret ?R"], rule exI [of _ ?R], rule exI [of _ ?c], rule exI [of _ h])
      (use that in \<open>auto simp: peer_rejected_def\<close>)
  have "wp (do {
         (added, clients, capacity) \<leftarrow>
           ahe_broker_add_client (b_clients b) (b_client_capacity b) (r_ret ?R);
         if added < 0
         then do {
           _ \<leftarrow> note_call (Message ''ahe-broker: client allocation'');
           _ \<leftarrow> close_fd (r_ret ?R);
           ret (Break (b\<lparr>b_exit_status := EXIT_FAILURE\<rparr>))
         }
         else ret (Continue (b\<lparr>b_clients := clients, b_client_capacity := capacity\<rparr>))
       }) ?P ?w2" if "\<not> peer_rejected (euid w) ?c"
  proof (rule wp_seq [OF add])
    fix r :: "int \<times> ahe_broker_client_connection list \<times> usize" and w3 :: world
    obtain added clients cap where r: "r = (added, clients, cap)" by (cases r) auto
    let ?m = "\<lambda>(added, clients, capacity). if added < 0
         then do {
           _ \<leftarrow> note_call (Message ''ahe-broker: client allocation'');
           _ \<leftarrow> close_fd (r_ret ?R);
           ret (Break (b\<lparr>b_exit_status := EXIT_FAILURE\<rparr>))
         }
         else ret (Continue (b\<lparr>b_clients := clients, b_client_capacity := capacity\<rparr>))"
    assume "(\<lambda>(res, clients, cap) w'. (clients = b_clients b \<or>
          clients = b_clients b @ [\<lparr>c_fd = r_ret ?R, c_handled_message = False\<rparr>]) \<and>
        (\<exists>h. history w' = h @ history ?w2)) r w3"
    then obtain h where c: "clients = b_clients b \<or> clients = b_clients b @ [\<lparr>c_fd = r_ret ?R, c_handled_message = False\<rparr>]"
      and h: "history w3 = h @ history ?w2" by (auto simp: r)
    from c have "?P (Continue (b\<lparr>b_clients := clients, b_client_capacity := cap\<rparr>)) w3"
    proof
      assume "clients = b_clients b @ [\<lparr>c_fd = r_ret ?R, c_handled_message = False\<rparr>]"
      from join [OF this h that] show ?thesis .
    qed simp
    then show "wp (?m r) ?P w3"
      by (cases "added < 0") (simp_all add: r wp_note_call wp_close_fd wp_bind wp_return)
  qed
  then show ?thesis
    unfolding accept_client_def Let_def failing_def
    by (simp add: wp_sys wp_get_errno wp_geteuid wp_close_fd wp_note_call wp_return wp_bind)
qed

text \<open>
  C19. Once the limit on served clients is reached, a turn stops listening and keeps only
  connections that have been heard from, and the loop ends when none is left.
\<close>

theorem limit_is_enforced:
  assumes "broker_ok b" and "b_max_clients b \<noteq> 0" and "b_max_clients b \<le> b_handled_clients b"
  shows "wp (enforce_limit b) (\<lambda>r w'. b_listener_fd (flow_broker r) < 0 \<and>
    (\<forall>c \<in> set (b_clients (flow_broker r)). c_handled_message c) \<and>
    (b_clients (flow_broker r) = [] \<longrightarrow> r = Break (flow_broker r))) w"
  by (rule wp_mono [OF wp_enforce_limit [OF assms(1)]]) (use assms in \<open>auto simp: limit_reached_def\<close>)

definition full_broker :: ahe_broker where
  "full_broker = turn_broker\<lparr>b_handled_clients := 1\<rparr>"

theorem limit_is_enforced_witness:
  "wp (enforce_limit full_broker) (\<lambda>r w'. b_listener_fd (flow_broker r) < 0 \<and>
    (\<forall>c \<in> set (b_clients (flow_broker r)). c_handled_message c) \<and>
    (b_clients (flow_broker r) = [] \<longrightarrow> r = Break (flow_broker r))) (world_of [])"
  by (rule limit_is_enforced)
    (simp_all add: full_broker_def turn_broker_def broker_initial_def broker_ok_def table_fits_def)

definition clients_of :: "fd list \<Rightarrow> ahe_broker_client_connection list" where
  "clients_of fds = map (\<lambda>f. \<lparr>c_fd = f, c_handled_message = False\<rparr>) fds"

text \<open>
  C31. Adding a client never overruns the table nor wraps a size: afterwards the table has room
  for all its connections, a grown capacity is the old one doubled (or the first eight), and
  the number of bytes asked for is exactly eight per slot.
\<close>

theorem client_table_never_overflows:
  assumes "length clients \<le> unat capacity"
  shows "wp (ahe_broker_add_client clients capacity f) (\<lambda>(res, clients', capacity') w'.
    length clients' \<le> unat capacity' \<and>
    (res = 0 \<and> clients' = clients @ [\<lparr>c_fd = f, c_handled_message = False\<rparr>] \<or>
     res = -1 \<and> clients' = clients \<and> capacity' = capacity) \<and>
    (capacity' = capacity \<or>
     unat capacity' = (if capacity = 0 then 8 else 2 * unat capacity) \<and>
     unat (capacity' * CONNECTION_SIZE) = 8 * unat capacity')) w"
proof (rule wp_add_client, goal_cases fits failed added)
  case (added cap w')
  then show ?case by (auto simp: table_fits_def)
qed (use assms in \<open>auto simp: table_fits_def\<close>)

theorem client_table_never_overflows_witness:
  "wp (ahe_broker_add_client (clients_of [4, 5, 7, 8, 9, 10, 11, 12]) 8 13) (\<lambda>(res, clients', capacity') w'.
    length clients' \<le> unat capacity' \<and>
    (res = 0 \<and> clients' = clients_of [4, 5, 7, 8, 9, 10, 11, 12] @ [\<lparr>c_fd = 13, c_handled_message = False\<rparr>] \<or>
     res = -1 \<and> clients' = clients_of [4, 5, 7, 8, 9, 10, 11, 12] \<and> capacity' = 8) \<and>
    (capacity' = 8 \<or> unat capacity' = 16 \<and>
     unat (capacity' * CONNECTION_SIZE) = 8 * unat capacity')) (world_of [allocated])"
  using client_table_never_overflows [of "clients_of [4, 5, 7, 8, 9, 10, 11, 12]" 8 13 "world_of [allocated]"]
  by (simp add: clients_of_def)

section \<open>Starting\<close>

text \<open>
  C21. Opening the listener either fails with nothing left open, or returns a descriptor that is
  the only new one, for a socket whose directory was found to be this user's and writable by
  nobody else, that was bound under a file mode mask of 0077 and set to mode 0600 before
  anyone could connect.
\<close>

theorem listener_is_private:
  "wp (ahe_broker_create_listener path) (\<lambda>f w'.
     f = -1 \<and> (\<forall>F. holds F w \<longrightarrow> holds F w') \<or>
     0 \<le> f \<and> (\<forall>F. holds F w \<longrightarrow> holds (add_mset f F) w') \<and> (\<exists>l c b h parent status.
       history w' = [(Listen f 16, l), (Chmod path 0x180, c), (Bind f path, b)] @ h @ history w \<and>
       0 \<le> r_ret l \<and> 0 \<le> r_ret c \<and> 0 \<le> r_ret b \<and> (Umask 0x3F, returned 0) \<in> set h \<and>
       parent_path path = Inr parent \<and> (Lstat parent, status) \<in> set h \<and> 0 \<le> r_ret status \<and>
       is_directory (st_mode (r_stat status)) \<and> st_uid (r_stat status) = euid w \<and>
       \<not> writable_by_others (st_mode (r_stat status)))) w"
proof (rule wp_create_listener, goal_cases opened failed)
  case (opened f w')
  from opened(4) obtain h parent status l c b where
    "history w' = [(Listen f 16, l), (Chmod path 0x180, c), (Bind f path, b)] @ h @ history w"
    "0 \<le> r_ret l" "0 \<le> r_ret c" "0 \<le> r_ret b" "(Umask 0x3F, returned 0) \<in> set h"
    "parent_path path = Inr parent" "(Lstat parent, status) \<in> set h" "0 \<le> r_ret status"
    "secure_directory (euid w) (r_stat status)"
    unfolding listener_secured_def listener_opened_def path_secured_def by blast
  with opened(1,3) show ?case unfolding secure_directory_def by blast
qed auto

definition listened :: "fd \<times> world" where
  "listened = run_state (ahe_broker_create_listener ''/r/s'') (world_of listener_script)"

theorem listener_is_private_witness:
  "fst listened = 3 \<and> holds {#3#} (snd listened) \<and>
   (\<exists>l c b h. history (snd listened) = [(Listen 3 16, l), (Chmod ''/r/s'' 0x180, c), (Bind 3 ''/r/s'', b)] @ h \<and>
     (Umask 0x3F, returned 0) \<in> set h)"
proof -
  have l: "fst listened = 3" by code_simp
  have "holds {#} (world_of listener_script)" by (simp add: holds_def world_of_def)
  with listener_is_private [of "''/r/s''" "world_of listener_script"] l show ?thesis
    by (auto simp: wp_def listened_def split: prod.splits)
qed

text \<open>
  C22. Clearing the way for the listener never removes a live or foreign socket: unless nothing
  is unlinked at all, the calls are exactly these, with these answers: the path was this
  user's own socket, the probing connection failed with \<open>ECONNREFUSED\<close>, and the path is still
  the same device and inode and this user's socket when it is unlinked.
\<close>

theorem only_stale_sockets_removed:
  "wp (ahe_broker_remove_stale_socket path) (\<lambda>_ w'.
     only_calls (\<lambda>c. \<forall>p. c \<noteq> Unlink p) w w' \<or>
     (\<exists>u s1 f c p s0.
       history w' = [(Unlink path, u), (Lstat path, s1), (Close f, returned 0), (Connect f path, c),
         (Socket True, p), (Lstat path, s0)] @ history w \<and>
       0 \<le> r_ret s0 \<and> 0 \<le> r_ret s1 \<and> own_socket (euid w) (r_stat s0) \<and> own_socket (euid w) (r_stat s1) \<and>
       same_file (r_stat s1) (r_stat s0) \<and> r_ret c \<noteq> 0 \<and> (0 < r_ret c \<or> r_errno c = ECONNREFUSED))) w"
proof (rule wp_remove_stale_socket, goal_cases)
  case (1 res w')
  have eq: "r \<noteq> 0 \<and> (r < 0 \<longrightarrow> P) \<longleftrightarrow> r \<noteq> 0 \<and> (0 < r \<or> P)" for r :: int and P by auto
  show ?case using 1(3) unfolding stale_socket_removed_def eq .
qed

text \<open>
  C32. The limit is parsed exactly: a string of decimal digits is accepted when its value is
  between 1 and the largest \<open>unsigned long\<close>, and then that value is the limit; zero and
  anything larger are usage errors.
\<close>

theorem max_clients_parsed_exactly:
  assumes "ds \<noteq> []" and "\<forall>c \<in> set ds. is_digit c"
  shows "ahe_broker_parse_max_clients ds =
    (if 0 < decimal_value ds \<and> decimal_value ds \<le> unat ULONG_MAX then Some (of_nat (decimal_value ds))
     else None)"
proof -
  have "(of_nat n :: u64) = 0 \<longleftrightarrow> n = 0" if "n \<le> unat ULONG_MAX" for n
  proof -
    have "unat (of_nat n :: u64) = n" using that by (simp add: unat_of_nat take_bit_nat_eq_self)
    then show ?thesis by (cases "n = 0") auto
  qed
  then show ?thesis
    by (auto simp: ahe_broker_parse_max_clients_def strtoul10_digits [OF assms])
qed

theorem max_clients_parsed_exactly_witness: "ahe_broker_parse_max_clients ''120'' = Some 120"
  using max_clients_parsed_exactly [of "''120''"] by (simp add: is_digit_def decimal_value_def)

text \<open>
  C35. A negative limit is not refused: a minus sign before digits whose value is between 1 and
  the largest \<open>unsigned long\<close> is accepted, and the limit is what is left up to the word's
  range, 2^64 minus the value.
\<close>

theorem negative_limit_accepted:
  assumes "ds \<noteq> []" and "\<forall>c \<in> set ds. is_digit c"
    and "0 < decimal_value ds" and "decimal_value ds \<le> unat ULONG_MAX"
  shows "\<exists>limit. ahe_broker_parse_max_clients (CHR ''-'' # ds) = Some limit \<and>
    unat limit = 2 ^ 64 - decimal_value ds"
proof -
  let ?v = "of_nat (decimal_value ds) :: u64"
  have v: "unat ?v = decimal_value ds" using assms(4) by (simp add: unat_of_nat take_bit_nat_eq_self)
  then have nz: "?v \<noteq> 0" using assms(3) by (metis less_numeral_extra(3) unsigned_0)
  have d: "takeWhile is_digit ds = ds" "dropWhile is_digit ds = []"
    using assms(2) by (simp_all add: takeWhile_eq_all_conv)
  have "strtoul10 (CHR ''-'' # ds) = (- ?v, [], False)"
    using assms(1,4) by (simp add: strtoul10_def Let_def is_space_def d)
  then have "ahe_broker_parse_max_clients (CHR ''-'' # ds) = Some (- ?v)"
    using nz by (simp add: ahe_broker_parse_max_clients_def)
  moreover have "unat (- ?v) = 2 ^ 64 - decimal_value ds"
  proof -
    have "- ?v = of_nat (2 ^ 64 - decimal_value ds)"
      using assms(4) by (simp add: of_nat_diff)
    then show ?thesis using assms(3) by (simp add: unat_of_nat take_bit_nat_eq_self del: of_nat_diff)
  qed
  ultimately show ?thesis by blast
qed

theorem negative_limit_accepted_witness:
  "\<exists>limit. ahe_broker_parse_max_clients ''-1'' = Some limit \<and> unat limit = 2 ^ 64 - 1"
  using negative_limit_accepted [of "''1''"] by (simp add: is_digit_def decimal_value_def)

text \<open>Leaving: only descriptors are closed before the socket path is unlinked.\<close>

definition closing :: "syscall \<Rightarrow> bool" where
  "closing c \<longleftrightarrow> (\<exists>f. c = Close f)"

lemma closing_calls [calls_intros]:
  "calls closing (close_fd f)" "calls closing (ahe_generation_reset g)" "calls closing (reset_if_creator f g)"
  "calls closing (close_listener b)" "calls closing (close_at i b)"
  by (auto simp: closing_def close_fd_def ahe_generation_reset_def reset_if_creator_def close_listener_def
      close_at_def ahe_broker_close_client_def intro!: calls_intros)

lemma closing_close_clients [calls_intros]: "calls closing (close_clients n b)"
  by (induction n arbitrary: b) (auto intro!: calls_intros)

lemma wp_close_clients_closing:
  "wp (close_clients n b) (\<lambda>b' w'. only_calls closing w w' \<and> b_exit_status b' = b_exit_status b) w"
proof (rule wp_conjI [OF calls_wp [OF closing_close_clients]])
  show "wp (close_clients n b) (\<lambda>b' w'. b_exit_status b' = b_exit_status b) w"
  proof (induction n arbitrary: b w)
    case (Suc n b w)
    have "wp (close_at n b) (\<lambda>b' w'. b_exit_status b' = b_exit_status b) w"
      by (simp add: close_at_def wp_def split: prod.splits)
    then show ?case unfolding close_clients.simps
      by (rule wp_seq) (auto intro: wp_mono [OF Suc.IH])
  qed (simp add: wp_return)
qed

definition unlinked_last :: "string \<Rightarrow> ahe_broker \<Rightarrow> world \<Rightarrow> int \<Rightarrow> world \<Rightarrow> bool" where
  "unlinked_last path b w status w' \<longleftrightarrow> (\<exists>u message closes.
     history w' = message @ (Unlink path, u) # closes @ history w \<and> list_all (\<lambda>e. closing (fst e)) closes \<and>
     (message = [] \<and> status = b_exit_status b \<and> (0 \<le> r_ret u \<or> r_errno u = ENOENT) \<or>
      length message = 1 \<and> status = EXIT_FAILURE \<and> r_ret u < 0 \<and> r_errno u \<noteq> ENOENT))"

lemma wp_unlink_last:
  assumes "only_calls closing w w1" and "b_exit_status b' = b_exit_status b"
  shows "wp (do {
      r \<leftarrow> sys (Unlink path);
      e \<leftarrow> get_errno;
      if r_ret r < 0 \<and> e \<noteq> ENOENT
      then do {note_call (Message ''ahe-broker: unlink''); ret EXIT_FAILURE}
      else ret (b_exit_status b')
    }) (unlinked_last path b w) w1"
proof -
  from assms(1) obtain h where h: "history w1 = h @ history w" "list_all (\<lambda>e. closing (fst e)) h"
    by (auto simp: only_calls_def list_all_iff)
  let ?u = "next_reply w1"
  let ?w2 = "answered (Unlink path) ?u w1"
  have "unlinked_last path b w (b_exit_status b) ?w2" if "\<not> (r_ret ?u < 0 \<and> r_errno ?u \<noteq> ENOENT)"
    unfolding unlinked_last_def
    by (rule exI [of _ ?u], rule exI [of _ "[]"], rule exI [of _ h]) (use that h in \<open>auto simp: not_less\<close>)
  moreover have "unlinked_last path b w EXIT_FAILURE (noted (Message ''ahe-broker: unlink'') ?w2)"
    if "r_ret ?u < 0 \<and> r_errno ?u \<noteq> ENOENT"
    unfolding unlinked_last_def
    by (rule exI [of _ ?u], rule exI [of _ "[(Message ''ahe-broker: unlink'', returned 0)]"], rule exI [of _ h])
      (use that h in simp)
  ultimately show ?thesis by (auto simp: wp_bind wp_sys wp_get_errno wp_note_call wp_return assms(2))
qed

lemma wp_shutdown_unlinks: "wp (ahe_broker_shutdown path b) (unlinked_last path b w) w"
  unfolding ahe_broker_shutdown_def
proof (rule wp_seq [OF wp_close_clients_closing], elim conjE)
  fix b1 :: ahe_broker and w1
  assume c: "only_calls closing w w1" and e: "b_exit_status b1 = b_exit_status b"
  show "wp (do {
      _ \<leftarrow> ahe_generation_reset (b_generation b1);
      _ \<leftarrow> close_listener b1;
      r \<leftarrow> sys (Unlink path);
      e \<leftarrow> get_errno;
      if r_ret r < 0 \<and> e \<noteq> ENOENT
      then do {note_call (Message ''ahe-broker: unlink''); ret EXIT_FAILURE}
      else ret (b_exit_status b1)
    }) (unlinked_last path b w) w1"
    by (rule wp_seq [OF calls_wp [OF closing_calls(2)]], rule wp_seq [OF calls_wp [OF closing_calls(4)]],
        rule wp_unlink_last [OF _ e]) (use c in \<open>blast intro: only_calls_trans\<close>)
qed

text \<open>
  C36. What the broker does on its way out is exactly this: it closes descriptors, then unlinks
  its socket path, whatever lies there by then and whether or not it is still listening; only
  a message may follow. The exit status is that of the loop unless the unlinking failed for
  another reason than that nothing was there.
\<close>

theorem exit_closes_then_unlinks:
  "wp (ahe_broker_shutdown path b) (\<lambda>status w'. \<exists>u message closes.
     history w' = message @ (Unlink path, u) # closes @ history w \<and>
     list_all (\<lambda>e. \<exists>f. fst e = Close f) closes \<and>
     (message = [] \<and> status = b_exit_status b \<and> (0 \<le> r_ret u \<or> r_errno u = ENOENT) \<or>
      length message = 1 \<and> status = EXIT_FAILURE \<and> r_ret u < 0 \<and> r_errno u \<noteq> ENOENT)) w"
  by (rule wp_mono [OF wp_shutdown_unlinks]) (simp only: unlinked_last_def closing_def)

section \<open>Creating a generation, and the loops\<close>

text \<open>
  C20. Creating a generation is all or nothing: for an admissible request it may return one that
  is being initialised by the requester for exactly the requested size and key, holding two
  new descriptors; in every other case, whichever call fails, it reports failure, the
  generation is empty and nothing is left open.
\<close>

theorem generation_created_or_nothing:
  "wp (ahe_generation_create ahe_generation_init f m) (\<lambda>(res, g) w'.
     res = -1 \<and> g = ahe_generation_init \<and> (\<forall>F. holds F w \<longrightarrow> holds F w') \<or>
     res = 0 \<and> acquire_request_valid m \<and> gen_wf g \<and> g_state g = AHE_GENERATION_INITIALIZING \<and>
       g_creator_fd g = f \<and> g_mapping_size g = m_mapping_size m \<and> g_cache_key g = m_cache_key m \<and>
       (\<forall>F. holds F w \<longrightarrow> holds (add_mset (g_cache_fd g) (add_mset (g_lock_fd g) F)) w')) w"
  by (rule wp_generation_create [OF refl]) (auto simp: gen_wf_fds)

definition created_demo :: "(int \<times> ahe_generation) \<times> world" where
  "created_demo = run_state (ahe_generation_create ahe_generation_init 4
     ((ahe_broker_message_init AHE_BROKER_ACQUIRE)\<lparr>m_mapping_size := 4096, m_cache_key := ''k'' @ [NUL]\<rparr>))
     (world_of [returned 5, ok, returned 6, ok])"

theorem generation_created_or_nothing_witness:
  "fst (fst created_demo) = 0 \<and> g_creator_fd (snd (fst created_demo)) = 4 \<and>
   holds {#g_cache_fd (snd (fst created_demo)), g_lock_fd (snd (fst created_demo))#} (snd created_demo)"
proof -
  have r: "fst (fst created_demo) = 0" by code_simp
  have h: "holds {#} (world_of [returned 5, ok, returned 6, ok])" by (simp add: holds_def world_of_def)
  from generation_created_or_nothing [of 4 "(ahe_broker_message_init AHE_BROKER_ACQUIRE)
      \<lparr>m_mapping_size := 4096, m_cache_key := ''k'' @ [NUL]\<rparr>" "world_of [returned 5, ok, returned 6, ok]"] r h
  show ?thesis by (auto simp: wp_def created_demo_def split: prod.splits)
qed

text \<open>
  C37. The exit status tells why the broker ended. It is \<open>EXIT_FAILURE\<close> exactly when the broker
  wrote a complaint to its standard error: a usage error, a failure to start, a failing poll,
  accept or allocation, a broken listener, a socket it could not unlink. It is \<open>EXIT_SUCCESS\<close>
  only after a run that wrote nothing, on a socket path it was given, and that ended because a
  signal asked it to stop or because a client limit had been set.
\<close>

theorem exit_status_tells_why:
  "wp (ahe_broker_main name arguments) (\<lambda>status w'.
     (\<exists>text. (Message text, returned 0) \<in> since w w') \<and> status = EXIT_FAILURE \<or>
     (\<forall>text r. (Message text, r) \<notin> since w w') \<and> status = EXIT_SUCCESS \<and>
     (\<exists>path limit. parse_arguments arguments None 0 = Some (Some path, limit) \<and> (stopping w' \<or> limit \<noteq> 0))) w"
proof -
  have "wp (ahe_broker_run path limit) (\<lambda>status w'.
     (\<exists>text. (Message text, returned 0) \<in> since w w') \<and> status = EXIT_FAILURE \<or>
     (\<forall>text r. (Message text, r) \<notin> since w w') \<and> status = EXIT_SUCCESS \<and> (stopping w' \<or> limit \<noteq> 0)) w" for path limit
    by (rule wp_mono [OF wp_run_explained])
      (use silent_not_since in \<open>fastforce simp: run_explained_def complained_def\<close>)
  moreover have "(Message t, returned 0) \<in> since w (noted (Message t) w)" for t
    by (simp add: since_append [where h = "[_]"])
  ultimately show ?thesis
    by (auto simp: ahe_broker_main_def wp_bind wp_note_call wp_return split: option.splits)
qed

text \<open>The run in which the only client hangs up and a signal stops the broker.\<close>

theorem exit_status_tells_why_witness:
  "fst broker_run = EXIT_SUCCESS \<and> stopping (snd broker_run) \<and>
   (\<forall>text r. (Message text, r) \<notin> since (world_of broker_script) (snd broker_run))"
proof -
  have f: "fst broker_run = EXIT_SUCCESS" by code_simp
  from exit_status_tells_why [of "''ahe-broker''" "[''--socket'', ''/r/s'']" "world_of broker_script"] f
  show ?thesis by (auto simp: wp_def broker_run_def split: prod.splits)
qed

text \<open>
  C38. The event loop leaves for one of three reasons only: with a complaint and the status of a
  failure; or in silence, its exit status and its limit as they were, because a stop was
  requested, or because the limit of clients is reached, the listener closed and the last
  connection gone.
\<close>

theorem loop_ends_for_a_reason:
  "wp (State (broker_loop b)) (\<lambda>b' w'.
     (\<exists>text. (Message text, returned 0) \<in> since w w') \<and> b_exit_status b' = EXIT_FAILURE \<or>
     (\<forall>text r. (Message text, r) \<notin> since w w') \<and> b_exit_status b' = b_exit_status b \<and>
     b_max_clients b' = b_max_clients b \<and>
     (stopping w' \<or> limit_reached b' \<and> b_clients b' = [] \<and> b_listener_fd b' < 0)) w"
proof -
  obtain b' w' where l: "broker_loop b w = (b', w')" by fastforce
  from broker_loop_explained [OF l] have "(\<exists>text. (Message text, returned 0) \<in> since w w') \<and> b_exit_status b' = EXIT_FAILURE \<or>
     (\<forall>text r. (Message text, r) \<notin> since w w') \<and> b_exit_status b' = b_exit_status b \<and>
     b_max_clients b' = b_max_clients b \<and> (stopping w' \<or> limit_reached b' \<and> b_clients b' = [] \<and> b_listener_fd b' < 0)"
    using silent_not_since by (fastforce simp: loop_explained_def complained_def same_terms_def limit_served_def)
  with l show ?thesis by (simp add: wp_def)
qed

text \<open>
  C39. The broker reports a message sent exactly when it was sent whole. It refuses more
  descriptors than a message can carry without a call; otherwise it sends this message to this
  client, again only after attempts that failed with \<open>EINTR\<close> while no stop was requested, and the
  last attempt decides; once a stop is requested an interrupted attempt is the last.
\<close>

theorem send_reports_last_attempt:
  "wp (ahe_broker_send_message f m fds) (\<lambda>res w'.
     AHE_BROKER_DESCRIPTOR_COUNT < length fds \<and> w' = with_errno EINVAL w \<and> res = -1 \<or>
     length fds \<le> AHE_BROKER_DESCRIPTOR_COUNT \<and> (\<exists>r interrupted_attempts.
       history w' = (Sendmsg f (encode_message m) fds, r) #
         map (Pair (Sendmsg f (encode_message m) fds)) interrupted_attempts @ history w \<and>
       list_all (\<lambda>a. r_ret a < 0 \<and> r_errno a = EINTR \<and> \<not> stopping w \<and> \<not> r_signal a) interrupted_attempts \<and>
       (0 \<le> r_ret r \<or> r_errno r \<noteq> EINTR \<or> stopping w') \<and>
       res = (if r_ret r = int MESSAGE_SIZE then 0 else -1))) w"
proof (cases "length fds > AHE_BROKER_DESCRIPTOR_COUNT")
  case True
  then have "fds \<noteq> []" by auto
  with True show ?thesis by (simp add: ahe_broker_send_message_def wp_bind wp_set_errno wp_return)
next
  case False
  let ?c = "Sendmsg f (encode_message m) fds"
  have "wp (sys_retry ?c interrupted_running) (\<lambda>r w'. \<exists>r' interrupted_attempts.
       history w' = (?c, r') # map (Pair ?c) interrupted_attempts @ history w \<and>
       list_all (\<lambda>a. r_ret a < 0 \<and> r_errno a = EINTR \<and> \<not> stopping w \<and> \<not> r_signal a) interrupted_attempts \<and>
       (0 \<le> r_ret r' \<or> r_errno r' \<noteq> EINTR \<or> stopping w') \<and>
       (if r_ret r = int MESSAGE_SIZE then 0 else -1 :: int) = (if r_ret r' = int MESSAGE_SIZE then 0 else -1)) w"
  proof (rule wp_sys_retry)
    fix r w'
    assume "retry_post ?c interrupted_running w r w'"
    then obtain fs where h: "history w' = (?c, r) # map (Pair ?c) fs @ history w"
      and fs: "\<forall>a \<in> set fs. retried interrupted_running w a"
      and last: "r_ret r < 0 \<longrightarrow> w_errno w' = r_errno r \<and> \<not> interrupted_running w'"
      by (auto simp: retry_post_def)
    have "list_all (\<lambda>a. r_ret a < 0 \<and> r_errno a = EINTR \<and> \<not> stopping w \<and> \<not> r_signal a) fs"
      using fs by (auto simp: list_all_iff dest: retried_running)
    moreover have "0 \<le> r_ret r \<or> r_errno r \<noteq> EINTR \<or> stopping w'"
      using last by (cases "r_ret r < 0") (auto simp: interrupted_running_def)
    ultimately show "\<exists>r' interrupted_attempts.
       history w' = (?c, r') # map (Pair ?c) interrupted_attempts @ history w \<and>
       list_all (\<lambda>a. r_ret a < 0 \<and> r_errno a = EINTR \<and> \<not> stopping w \<and> \<not> r_signal a) interrupted_attempts \<and>
       (0 \<le> r_ret r' \<or> r_errno r' \<noteq> EINTR \<or> stopping w') \<and>
       (if r_ret r = int MESSAGE_SIZE then 0 else -1 :: int) = (if r_ret r' = int MESSAGE_SIZE then 0 else -1)"
      using h by blast
  qed simp
  with False show ?thesis by (simp add: ahe_broker_send_message_def wp_bind wp_return)
qed

text \<open>One interrupted attempt, then the message goes out.\<close>

definition resent_demo :: "int \<times> world" where
  "resent_demo = run_state (ahe_broker_send_message 4 (ahe_broker_message_init AHE_BROKER_ACK) [])
     (world_of [failed EINTR, sent_reply])"

theorem send_reports_last_attempt_witness:
  "fst resent_demo = 0 \<and> (\<exists>r. r_ret r = int MESSAGE_SIZE \<and>
     (Sendmsg 4 (encode_message (ahe_broker_message_init AHE_BROKER_ACK)) [], r) \<in> set (history (snd resent_demo)))"
proof -
  have f: "fst resent_demo = 0"
    by (simp add: resent_demo_def ahe_broker_send_message_def sys_retry_def world_of_def sys_def next_reply_def
        answered_def failed_def interrupted_running_def sent_reply_def)
  from send_reports_last_attempt [of 4 "ahe_broker_message_init AHE_BROKER_ACK" "[]" "world_of [failed EINTR, sent_reply]"] f
  show ?thesis by (fastforce simp: wp_def resent_demo_def split: prod.splits if_splits)
qed

end
