(* ===== verification/Cache_Key.thy ===== *)
theory Cache_Key imports Posix "HOL-Library.List_Lexorder" "HOL-Library.Char_ord" begin

text \<open>
  What makes two PHP processes share a cache: the configuration digest
  (\<open>ahe_opcache_configuration_digest\<close>) and the cache key that \<open>ahe_create_segments\<close> prints,
  both of \<^verbatim>\<open>src/abyssal_hyperglyph_engine.c\<close>. The theorems show what each identifies: the
  digest's input determines the sorted OPcache settings and does not depend on the order of
  the table; the key determines every one of its components. \<open>md5\<close> is PHP's and a
  parameter.
\<close>

section \<open>The OPcache settings\<close>

record ini_entry =
  ini_name :: "string option"
  ini_value :: "string option"

definition OPCACHE_PREFIX :: string where
  "OPCACHE_PREFIX = ''opcache.''"

definition is_opcache_entry :: "ini_entry \<Rightarrow> bool" where
  "is_opcache_entry e \<longleftrightarrow> (case ini_name e of
     None \<Rightarrow> False
   | Some name \<Rightarrow> length name > length OPCACHE_PREFIX \<and>
       take (length OPCACHE_PREFIX) name = OPCACHE_PREFIX)"

type_synonym fingerprint_entry = "string \<times> string option"

definition fingerprint_entries :: "ini_entry list \<Rightarrow> fingerprint_entry list" where
  "fingerprint_entries directives =
     map (\<lambda>e. (the (ini_name e), ini_value e)) (filter is_opcache_entry directives)"

text \<open>
  \<open>qsort\<close> by \<open>strcmp\<close> of the names: \<open>strcmp\<close> compares the unsigned characters before the
  first NUL.
\<close>

definition ahe_compare_ini_fingerprint_entries :: "fingerprint_entry \<Rightarrow> fingerprint_entry \<Rightarrow> int" where
  "ahe_compare_ini_fingerprint_entries l r =
     (if cstr (fst l) < cstr (fst r) then -1 else if cstr (fst l) = cstr (fst r) then 0 else 1)"

definition sort_entries :: "fingerprint_entry list \<Rightarrow> fingerprint_entry list" where
  "sort_entries entries = sort_key (\<lambda>e. cstr (fst e)) entries"

text \<open>A field is hashed as its length, eight bytes, then its bytes; no value counts as empty.\<close>

definition ahe_md5_update_field :: "string \<Rightarrow> string" where
  "ahe_md5_update_field value = u64_bytes (of_nat (length value)) @ value"

definition entry_bytes :: "fingerprint_entry \<Rightarrow> string" where
  "entry_bytes e = ahe_md5_update_field (fst e) @
     ahe_md5_update_field (case snd e of Some value \<Rightarrow> value | None \<Rightarrow> [])"

definition digest_input :: "fingerprint_entry list \<Rightarrow> string" where
  "digest_input entries = concat (map entry_bytes entries)"

definition hex_digit :: "nat \<Rightarrow> char" where
  "hex_digit n = ''0123456789abcdef'' ! n"

definition hex_of_byte :: "char \<Rightarrow> string" where
  "hex_of_byte c = [hex_digit (of_char c div 16), hex_digit (of_char c mod 16)]"

definition digest_hex :: "string \<Rightarrow> string" where
  "digest_hex digest = concat (map hex_of_byte digest)"

text \<open>
  \<open>sizeof(ahe_ini_fingerprint_entry)\<close> is 16. \<open>None\<close> is \<open>FAILURE\<close>; \<open>directives\<close> is \<open>None\<close> when PHP
  has no table.
\<close>

definition ahe_opcache_configuration_digest ::
  "(string \<Rightarrow> string) \<Rightarrow> ini_entry list option \<Rightarrow> (world, string option) state" where
  "ahe_opcache_configuration_digest md5 directives = (case directives of
     None \<Rightarrow> ret None
   | Some table \<Rightarrow>
       let entries = fingerprint_entries table in
       if entries = [] then ret None
       else do {
         r \<leftarrow> sys (Malloc (length entries * 16));
         if r_addr r = 0 then ret None
         else do {
           _ \<leftarrow> note_call (Free (r_addr r));
           ret (Some (digest_hex (md5 (digest_input (sort_entries entries)))))
         }
       })"

section \<open>The cache key\<close>

text \<open>\<open>%PRIxPTR\<close>: lower-case hexadecimal without leading zeros.\<close>

fun hexadecimal :: "nat \<Rightarrow> string" where
  "hexadecimal n = (if n < 16 then [hex_digit n] else hexadecimal (n div 16) @ [hex_digit (n mod 16)])"

declare hexadecimal.simps [simp del]

text \<open>\<open>%.*s\<close> with the 32 characters of \<open>zend_system_id\<close>.\<close>

definition system_text :: "string \<Rightarrow> string" where
  "system_text system_id = take 32 (cstr system_id)"

definition cache_key_text ::
  "u32 \<Rightarrow> string \<Rightarrow> string \<Rightarrow> string \<Rightarrow> string \<Rightarrow> u64 \<Rightarrow> usize \<Rightarrow> string" where
  "cache_key_text uid cache_namespace sapi system_id digest execute_ex requested_size =
     ''abi=2|uid='' @ decimal (unat uid) @ ''|namespace='' @ cache_namespace @ ''|sapi='' @ sapi @
     ''|system='' @ system_text system_id @ ''|opcache='' @ digest @
     ''|execute='' @ hexadecimal (unat execute_ex) @ ''|size='' @ decimal (unat requested_size)"

section \<open>The digest\<close>

lemma field_prefix_free:
  assumes "ahe_md5_update_field a @ x = ahe_md5_update_field b @ y"
    and "length a < 2 ^ 64" and "length b < 2 ^ 64"
  shows "a = b \<and> x = y"
proof -
  from assms(1) have "u64_bytes (of_nat (length a)) = u64_bytes (of_nat (length b))"
    and r: "a @ x = b @ y"
    by (simp_all add: ahe_md5_update_field_def append_eq_append_conv)
  then have "(of_nat (length a) :: u64) = of_nat (length b)" by (metis u64_value_bytes)
  then have "unat (of_nat (length a) :: u64) = unat (of_nat (length b) :: u64)" by simp
  then have "length a = length b" using assms(2,3) by (simp add: unat_of_nat take_bit_nat_eq_self)
  with r show ?thesis by (simp add: append_eq_append_conv)
qed

definition shown_value :: "fingerprint_entry \<Rightarrow> string" where
  "shown_value e = (case snd e of Some value \<Rightarrow> value | None \<Rightarrow> [])"

definition entry_fits :: "fingerprint_entry \<Rightarrow> bool" where
  "entry_fits e \<longleftrightarrow> length (fst e) < 2 ^ 64 \<and> length (shown_value e) < 2 ^ 64"

lemma entry_bytes_prefix_free:
  assumes "entry_bytes a @ x = entry_bytes b @ y" and "entry_fits a" and "entry_fits b"
  shows "fst a = fst b \<and> shown_value a = shown_value b \<and> x = y"
proof -
  have e: "entry_bytes c @ z = ahe_md5_update_field (fst c) @ (ahe_md5_update_field (shown_value c) @ z)" for c z
    by (simp add: entry_bytes_def shown_value_def)
  from assms(1) [unfolded e] assms(2,3) have 1: "fst a = fst b"
    and "ahe_md5_update_field (shown_value a) @ x = ahe_md5_update_field (shown_value b) @ y"
    by (auto dest!: field_prefix_free simp: entry_fits_def)
  from field_prefix_free [OF this(2)] assms(2,3) 1 show ?thesis by (simp add: entry_fits_def)
qed

lemma entry_bytes_not_empty: "entry_bytes e \<noteq> []"
proof -
  have "length (u64_bytes 0) = 8" by simp
  have "8 \<le> length (entry_bytes e)" by (simp add: entry_bytes_def ahe_md5_update_field_def)
  then show ?thesis by auto
qed

lemma digest_input_injective:
  assumes "digest_input es = digest_input es'" and "\<forall>e \<in> set es. entry_fits e" and "\<forall>e \<in> set es'. entry_fits e"
  shows "map (\<lambda>e. (fst e, shown_value e)) es = map (\<lambda>e. (fst e, shown_value e)) es'"
  using assms
proof (induction es arbitrary: es')
  case Nil
  then show ?case by (cases es') (simp_all add: digest_input_def entry_bytes_not_empty)
next
  case (Cons e es)
  show ?case
  proof (cases es')
    case Nil
    with Cons.prems(1) show ?thesis by (simp add: digest_input_def entry_bytes_not_empty)
  next
    case (Cons e' es'')
    with Cons.prems have "entry_bytes e @ digest_input es = entry_bytes e' @ digest_input es''"
      and "entry_fits e" "entry_fits e'" by (simp_all add: digest_input_def)
    from entry_bytes_prefix_free [OF this] Cons Cons.prems Cons.IH show ?thesis by auto
  qed
qed

text \<open>The names of a hash table are distinct, so the sorted order is the only one.\<close>

lemma filter_same_key:
  "distinct (map f xs) \<Longrightarrow> k \<in> set xs \<Longrightarrow> filter (\<lambda>x. f k = f x) xs = [k]"
proof (induction xs)
  case (Cons x xs)
  then show ?case by (cases "k = x") (auto simp: filter_empty_conv image_iff)
qed simp

lemma sort_key_order:
  assumes m: "mset es = mset es'" and d: "distinct (map f es)"
  shows "sort_key f es = sort_key f es'"
proof (rule properties_for_sort_key)
  show "mset (sort_key f es') = mset es" using m by simp
  show "sorted (map f (sort_key f es'))" by simp
  have "mset (map f (sort_key f es')) = mset (map f es)" using m by simp
  then have d': "distinct (map f (sort_key f es'))" using d mset_eq_imp_distinct_iff by blast
  fix k
  assume k: "k \<in> set (sort_key f es')"
  then have "k \<in> set es" using m by (metis mset_eq_setD set_sort)
  with k show "filter (\<lambda>x. f k = f x) (sort_key f es') = filter (\<lambda>x. f k = f x) es"
    by (simp only: filter_same_key [OF d'] filter_same_key [OF d])
qed

lemma sort_entries_comparator:
  "sorted_wrt (\<lambda>l r. ahe_compare_ini_fingerprint_entries l r \<le> 0) (sort_entries es)"
proof -
  have "sorted (map (\<lambda>e. cstr (fst e)) (sort_entries es))" by (simp add: sort_entries_def)
  then have "sorted_wrt (\<lambda>l r. cstr (fst l) \<le> cstr (fst r)) (sort_entries es)" by (simp add: sorted_map)
  then show ?thesis
    by (rule sorted_wrt_mono_rel [rotated]) (auto simp: ahe_compare_ini_fingerprint_entries_def)
qed

section \<open>The key\<close>

lemma length_hex_digits: "n < 16 \<Longrightarrow> hex_digit n \<in> set ''0123456789abcdef''"
  unfolding hex_digit_def by (rule nth_mem) simp

lemma hex_digit_inj: "n < 16 \<Longrightarrow> m < 16 \<Longrightarrow> hex_digit n = hex_digit m \<Longrightarrow> n = m"
  unfolding hex_digit_def by (subst (asm) nth_eq_iff_index_eq) simp_all

lemma hex_no_bar: "n < 16 \<Longrightarrow> hex_digit n \<noteq> CHR ''|''"
  using length_hex_digits [of n] by auto

lemma hexadecimal_no_bar: "CHR ''|'' \<notin> set (hexadecimal n)"
proof (induction n rule: hexadecimal.induct)
  case (1 n)
  then show ?case by (subst hexadecimal.simps) (auto dest: hex_no_bar simp: hex_no_bar [symmetric])
qed

lemma hexadecimal_not_empty: "hexadecimal n \<noteq> []"
  by (subst hexadecimal.simps) simp

lemma hexadecimal_inj: "hexadecimal n = hexadecimal m \<Longrightarrow> n = m"
proof (induction n arbitrary: m rule: hexadecimal.induct)
  case (1 n)
  have big: "\<exists>x xs c. hexadecimal k = x # xs @ [c]" if "\<not> k < 16" for k
    using that hexadecimal_not_empty [of "k div 16"]
    by (subst hexadecimal.simps) (auto simp: neq_Nil_conv)
  show ?case
  proof (cases "n < 16"; cases "m < 16")
    assume "n < 16" "m < 16"
    with 1(2) show ?thesis
      by (subst (asm) (1 2) hexadecimal.simps) (simp add: hex_digit_inj)
  next
    assume "n < 16" "\<not> m < 16"
    with 1(2) big [of m] show ?thesis by (subst (asm) (1) hexadecimal.simps) auto
  next
    assume "\<not> n < 16" "m < 16"
    with 1(2) big [of n] show ?thesis by (subst (asm) (2) hexadecimal.simps) auto
  next
    assume n: "\<not> n < 16" and m: "\<not> m < 16"
    from 1(2) n m have "hexadecimal (n div 16) = hexadecimal (m div 16)" "hex_digit (n mod 16) = hex_digit (m mod 16)"
      by (subst (asm) (1 2) hexadecimal.simps, simp)+
    with 1(1) [OF n] hex_digit_inj [of "n mod 16" "m mod 16"] have "n div 16 = m div 16" "n mod 16 = m mod 16"
      by auto
    then show ?thesis by (metis div_mult_mod_eq)
  qed
qed

lemma decimal_no_bar: "CHR ''|'' \<notin> set (decimal n)"
  using decimal_digits [of n] by (auto simp: is_digit_def)

lemma decimal_unat_inj: "decimal (unat a) = decimal (unat b) \<Longrightarrow> a = b"
  by (drule decimal_inj) (rule unsigned_word_eqI)

lemma hexadecimal_unat_inj: "hexadecimal (unat a) = hexadecimal (unat b) \<Longrightarrow> a = b"
  by (drule hexadecimal_inj) (rule unsigned_word_eqI)

text \<open>A field that contains no bar can be split off the end, or the beginning, of a text.\<close>

lemma split_last_bar:
  assumes e: "x @ CHR ''|'' # a = y @ CHR ''|'' # b" and a: "CHR ''|'' \<notin> set a" and b: "CHR ''|'' \<notin> set b"
  shows "x = y \<and> a = b"
proof -
  have last: "takeWhile (\<lambda>c. c \<noteq> CHR ''|'') (rev (z @ CHR ''|'' # c)) = rev c"
    if "CHR ''|'' \<notin> set c" for z c
    using that by (simp, subst takeWhile_append2) auto
  from last [OF a, of x] last [OF b, of y] e have "rev a = rev b" by simp
  with e show ?thesis by simp
qed

lemma split_first_bar:
  assumes e: "a @ CHR ''|'' # x = b @ CHR ''|'' # y" and a: "CHR ''|'' \<notin> set a" and b: "CHR ''|'' \<notin> set b"
  shows "a = b \<and> x = y"
proof -
  have first: "takeWhile (\<lambda>c. c \<noteq> CHR ''|'') (c @ CHR ''|'' # z) = c" if "CHR ''|'' \<notin> set c" for z c
    using that by (subst takeWhile_append2) auto
  from first [OF a, of x] first [OF b, of y] e have "a = b" by simp
  with e show ?thesis by simp
qed

text \<open>
  The key determines all its components, whatever the namespace contains, as long as the
  fields after it contain no bar of their own.
\<close>

definition no_bar :: "string \<Rightarrow> bool" where
  "no_bar s \<longleftrightarrow> CHR ''|'' \<notin> set s"

lemma cache_key_text_injective:
  assumes e: "cache_key_text uid ns sapi sys_id digest exe sz =
      cache_key_text uid' ns' sapi' sys_id' digest' exe' sz'"
    and b: "no_bar sapi" "no_bar sapi'" "no_bar (system_text sys_id)" "no_bar (system_text sys_id')"
      "no_bar digest" "no_bar digest'"
  shows "uid = uid' \<and> ns = ns' \<and> sapi = sapi' \<and> system_text sys_id = system_text sys_id' \<and>
    digest = digest' \<and> exe = exe' \<and> sz = sz'"
proof -
  let ?p0 = "\<lambda>uid. ''abi=2|uid='' @ decimal (unat uid)"
  let ?p1 = "\<lambda>uid ns. ?p0 uid @ CHR ''|'' # ''namespace='' @ ns"
  let ?p2 = "\<lambda>uid ns sapi. ?p1 uid ns @ CHR ''|'' # ''sapi='' @ sapi"
  let ?p3 = "\<lambda>uid ns sapi sys_id. ?p2 uid ns sapi @ CHR ''|'' # ''system='' @ system_text sys_id"
  let ?p4 = "\<lambda>uid ns sapi sys_id d. ?p3 uid ns sapi sys_id @ CHR ''|'' # ''opcache='' @ d"
  let ?p5 = "\<lambda>uid ns sapi sys_id d x. ?p4 uid ns sapi sys_id d @ CHR ''|'' # ''execute='' @ hexadecimal (unat x)"
  have t: "cache_key_text u n s i d x z = ?p5 u n s i d x @ CHR ''|'' # ''size='' @ decimal (unat z)"
    for u n s i d x z by (simp add: cache_key_text_def)
  note nb = b [unfolded no_bar_def]
  from e [unfolded t] have 5: "?p5 uid ns sapi sys_id digest exe = ?p5 uid' ns' sapi' sys_id' digest' exe' \<and>
      ''size='' @ decimal (unat sz) = ''size='' @ decimal (unat sz')"
    by (rule split_last_bar) (simp_all add: decimal_no_bar)
  then have sz: "sz = sz'" by (intro decimal_unat_inj) (drule conjunct2, simp)
  from 5 have 4: "?p4 uid ns sapi sys_id digest = ?p4 uid' ns' sapi' sys_id' digest' \<and>
      ''execute='' @ hexadecimal (unat exe) = ''execute='' @ hexadecimal (unat exe')"
    by (intro split_last_bar) (simp_all add: hexadecimal_no_bar)
  then have exe: "exe = exe'" by (intro hexadecimal_unat_inj) (drule conjunct2, simp)
  from 4 have 3: "?p3 uid ns sapi sys_id = ?p3 uid' ns' sapi' sys_id' \<and>
      ''opcache='' @ digest = ''opcache='' @ digest'"
    by (intro split_last_bar) (simp_all add: nb)
  from 3 have 2: "?p2 uid ns sapi = ?p2 uid' ns' sapi' \<and>
      ''system='' @ system_text sys_id = ''system='' @ system_text sys_id'"
    by (intro split_last_bar) (simp_all add: nb)
  from 2 have 1: "?p1 uid ns = ?p1 uid' ns' \<and> ''sapi='' @ sapi = ''sapi='' @ sapi'"
    by (intro split_last_bar) (simp_all add: nb)
  from 1 have "decimal (unat uid) @ CHR ''|'' # ''namespace='' @ ns =
      decimal (unat uid') @ CHR ''|'' # ''namespace='' @ ns'" by simp
  then have "decimal (unat uid) = decimal (unat uid') \<and> ''namespace='' @ ns = ''namespace='' @ ns'"
    by (rule split_first_bar) (simp_all add: decimal_no_bar)
  then have "uid = uid'" "ns = ns'" by (auto intro: decimal_unat_inj)
  with 1 2 3 sz exe show ?thesis by simp
qed

lemma digest_hex_no_bar: "no_bar (digest_hex digest)"
proof -
  have "CHR ''|'' \<notin> set (hex_of_byte c)" for c
    using hex_no_bar [of "of_char c div 16"] hex_no_bar [of "of_char c mod 16"]
    by (auto simp: hex_of_byte_def less_mult_imp_div_less)
  then show ?thesis by (auto simp: no_bar_def digest_hex_def)
qed

lemma digest_hex_injective: "digest_hex d = digest_hex d' \<Longrightarrow> d = d'"
proof (induction d arbitrary: d')
  case Nil
  then show ?case by (cases d') (simp_all add: digest_hex_def hex_of_byte_def)
next
  case (Cons c d)
  then obtain c' r where d': "d' = c' # r" by (cases d') (simp_all add: digest_hex_def hex_of_byte_def)
  with Cons.prems have h: "hex_digit (of_char c div 16) = hex_digit (of_char c' div 16)"
      "hex_digit (of_char c mod 16) = hex_digit (of_char c' mod 16)" and r: "digest_hex d = digest_hex r"
    by (simp_all add: digest_hex_def hex_of_byte_def)
  from h have "(of_char c :: nat) div 16 = of_char c' div 16" "(of_char c :: nat) mod 16 = of_char c' mod 16"
    by (auto intro!: hex_digit_inj simp: less_mult_imp_div_less)
  then have "(of_char c :: nat) = of_char c'" by (metis div_mult_mod_eq)
  then have "c = c'" by simp
  with Cons.IH [OF r] d' show ?case by simp
qed

lemma length_digest_hex: "length (digest_hex d) = 2 * length d"
  by (induction d) (simp_all add: digest_hex_def hex_of_byte_def)

end
