(* ===== verification/Extension.thy ===== *)
theory Extension imports Client_Ops Cache_Key begin

unbundle bit_operations_syntax

text \<open>
  The Zend extension of \<^verbatim>\<open>src/abyssal_hyperglyph_engine.c\<close>: its startup, its handshake
  with OPcache and the callbacks it registers as a shared-memory provider. What PHP supplies
  (its configuration, its SAPI, its system identifier, \<open>md5\<close>, the provider registration
  function) is a parameter.
\<close>

section \<open>State and surroundings\<close>

record extension =
  x_opcache_seen :: bool
  x_provider_registered :: bool
  x_provider_enabled :: bool
  x_broker :: ahe_broker_client

definition extension_initial :: extension where
  "extension_initial = \<lparr>x_opcache_seen = False, x_provider_registered = False,
     x_provider_enabled = False, x_broker = AHE_BROKER_CLIENT_INITIALIZER\<rparr>"

record php =
  p_force_restart_timeout :: int
  p_ini_directives :: "ini_entry list option"
  p_sapi_name :: "string option"
  p_system_id :: string
  p_execute_ex :: u64
  p_md5 :: "string \<Rightarrow> string"

definition AHE_NAME :: string where
  "AHE_NAME = ''Abyssal Hyperglyph Engine: Gate of the Adamantine Oath''"

text \<open>\<open>zend_error(E_CORE_WARNING, "%s: ...", AHE_NAME)\<close>.\<close>

definition zend_warning :: "string \<Rightarrow> (world, unit) state" where
  "zend_warning message = note_call (Message (AHE_NAME @ '': '' @ message))"

abbreviation SUCCESS :: int where "SUCCESS \<equiv> 0"

abbreviation FAILURE :: int where "FAILURE \<equiv> -1"

section \<open>Creating the segments\<close>

definition env_or :: "string option \<Rightarrow> string \<Rightarrow> string" where
  "env_or value fallback = (case value of
     None \<Rightarrow> fallback
   | Some s \<Rightarrow> if s = [] then fallback else s)"

definition unset_outputs :: segment_outputs where
  "unset_outputs = \<lparr>out_segments = 0,
     out_segment = \<lparr>seg_size = 0, seg_end = 0, seg_pos = 0, seg_p = 0\<rparr>,
     out_count = 0, out_globals = 0, out_error = None\<rparr>"

definition segments_refused :: "string \<Rightarrow> ahe_broker_client \<Rightarrow> int \<times> ahe_broker_client \<times> segment_outputs" where
  "segments_refused error broker =
     (ZEND_OPCACHE_SHM_ALLOC_FAILURE, broker, unset_outputs\<lparr>out_error := Some error\<rparr>)"

definition acquire_segments ::
  "ahe_broker_client \<Rightarrow> string \<Rightarrow> string \<Rightarrow> usize
     \<Rightarrow> (world, int \<times> ahe_broker_client \<times> segment_outputs) state" where
  "acquire_segments broker socket_path cache_key requested_size = do {
     (result, broker, outputs) \<leftarrow>
       ahe_broker_client_acquire broker socket_path cache_key requested_size unset_outputs;
     _ \<leftarrow> (if result = ZEND_OPCACHE_SHM_ALLOC_FAILURE \<and> k_timed_out broker
       then zend_warning ''the broker did not respond; using process-local OPcache for this invocation''
       else ret ());
     ret (result, broker, outputs)
   }"

definition ahe_create_segments ::
  "php \<Rightarrow> extension \<Rightarrow> usize \<Rightarrow> (world, int \<times> ahe_broker_client \<times> segment_outputs) state" where
  "ahe_create_segments php x requested_size =
     (if \<not> x_provider_enabled x
      then ret (ZEND_OPCACHE_SHM_ALLOC_FAILURE, x_broker x, unset_outputs)
      else do {
        socket \<leftarrow> getenv ''AHE_BROKER_SOCKET'';
        if env_or socket [] = []
        then ret (ZEND_OPCACHE_SHM_ALLOC_FAILURE, x_broker x, unset_outputs)
        else do {
          cache_namespace \<leftarrow> getenv ''AHE_CACHE_NAMESPACE'';
          if p_force_restart_timeout php \<noteq> 0
          then ret (segments_refused ''AHE requires opcache.force_restart_timeout=0 to avoid killing attached CLI processes'' (x_broker x))
          else do {
            digest \<leftarrow> ahe_opcache_configuration_digest (p_md5 php) (p_ini_directives php);
            uid \<leftarrow> geteuid;
            case digest of
              None \<Rightarrow> ret (segments_refused ''AHE could not fingerprint the OPcache configuration'' (x_broker x))
            | Some configuration_digest \<Rightarrow>
                let cache_key = cache_key_text uid (env_or cache_namespace ''default'')
                      (case p_sapi_name php of Some name \<Rightarrow> name | None \<Rightarrow> ''unknown'')
                      (p_system_id php) configuration_digest (p_execute_ex php) requested_size
                in if length cache_key \<ge> AHE_BROKER_CACHE_KEY_SIZE
                   then ret (segments_refused ''AHE cache identity is too long'' (x_broker x))
                   else acquire_segments (x_broker x) (env_or socket []) cache_key requested_size
          }
        }
      })"

section \<open>The other callbacks\<close>

definition ahe_detach_segment ::
  "extension \<Rightarrow> (u64 \<times> ahe_opcache_shm_segment) option \<Rightarrow> (world, int \<times> ahe_broker_client) state" where
  "ahe_detach_segment x shared_segment = ahe_broker_client_detach (x_broker x) shared_segment"

text \<open>\<open>sizeof(ahe_opcache_shm_segment_v1)\<close>.\<close>

definition ahe_segment_type_size :: usize where
  "ahe_segment_type_size = 32"

definition ahe_get_lock_file :: "extension \<Rightarrow> fd" where
  "ahe_get_lock_file x = k_lock_fd (x_broker x)"

definition ahe_lock :: "extension \<Rightarrow> (world, int) state" where
  "ahe_lock x = ahe_broker_client_lock (x_broker x)"

definition ahe_unlock :: "extension \<Rightarrow> (world, int) state" where
  "ahe_unlock x = ahe_broker_client_unlock (x_broker x)"

definition ahe_startup_complete :: "extension \<Rightarrow> bool \<Rightarrow> u64 \<Rightarrow> (world, extension) state" where
  "ahe_startup_complete x reattached shared_globals =
     (if \<not> reattached \<and> k_creator (x_broker x)
      then do {
        (published, broker) \<leftarrow> ahe_broker_client_publish (x_broker x) shared_globals;
        if published < 0
        then do {
          _ \<leftarrow> ahe_broker_client_abort broker;
          _ \<leftarrow> zend_warning ''persistence was abandoned because the OPcache generation could not be published'';
          ret (x\<lparr>x_broker := broker\<rparr>)
        }
        else ret (x\<lparr>x_broker := broker\<rparr>)
      }
      else ret x)"

definition ahe_startup_aborted :: "extension \<Rightarrow> string \<Rightarrow> (world, unit) state" where
  "ahe_startup_aborted x reason = ahe_broker_client_abort (x_broker x)"

definition ahe_provider_shutdown :: "extension \<Rightarrow> (world, extension) state" where
  "ahe_provider_shutdown x = do {
     broker \<leftarrow> ahe_broker_client_shutdown (x_broker x);
     ret (x\<lparr>x_broker := broker\<rparr>)
   }"

section \<open>The provider table\<close>

text \<open>
  The table of callbacks the extension hands to OPcache (\<open>ahe_opcache_shm_provider_v2\<close>): its
  context is the extension's state. \<open>sizeof\<close> the table is 96: two 32-bit fields and eleven
  pointers.
\<close>

record ahe_opcache_shm_provider =
  v_abi_version :: u32
  v_struct_size :: u32
  v_name :: string
  v_create_segments :: "extension \<Rightarrow> usize \<Rightarrow> (world, int \<times> ahe_broker_client \<times> segment_outputs) state"
  v_detach_segment :: "extension \<Rightarrow> (u64 \<times> ahe_opcache_shm_segment) option \<Rightarrow> (world, int \<times> ahe_broker_client) state"
  v_segment_type_size :: usize
  v_get_lock_file :: "extension \<Rightarrow> fd"
  v_lock :: "extension \<Rightarrow> (world, int) state"
  v_unlock :: "extension \<Rightarrow> (world, int) state"
  v_startup_complete :: "extension \<Rightarrow> bool \<Rightarrow> u64 \<Rightarrow> (world, extension) state"
  v_startup_aborted :: "extension \<Rightarrow> string \<Rightarrow> (world, unit) state"
  v_shutdown :: "extension \<Rightarrow> (world, extension) state"

definition ahe_opcache_provider :: "php \<Rightarrow> ahe_opcache_shm_provider" where
  "ahe_opcache_provider php = \<lparr>v_abi_version = 2, v_struct_size = 96,
     v_name = ''abyssal-hyperglyph-engine'', v_create_segments = ahe_create_segments php,
     v_detach_segment = ahe_detach_segment, v_segment_type_size = ahe_segment_type_size,
     v_get_lock_file = ahe_get_lock_file, v_lock = ahe_lock, v_unlock = ahe_unlock,
     v_startup_complete = ahe_startup_complete, v_startup_aborted = ahe_startup_aborted,
     v_shutdown = ahe_provider_shutdown\<rparr>"

section \<open>Loading\<close>

text \<open>
  A loaded Zend extension: its name and its handle (0 when it is linked in). \<open>fetch\<close> looks up
  a symbol in a handle; the symbol found is OPcache's registration function, which takes the
  provider's table and answers with a status.
\<close>

record zend_extension =
  z_name :: string
  z_handle :: u64

abbreviation ZEND_EXTMSG_NEW_EXTENSION :: int where "ZEND_EXTMSG_NEW_EXTENSION \<equiv> 1"

definition OPCACHE_NAME :: string where
  "OPCACHE_NAME = ''Zend OPcache''"

definition REGISTER_SYMBOL :: string where
  "REGISTER_SYMBOL = ''zend_opcache_register_shared_memory_provider_v2''"

definition ahe_message_handler ::
  "php \<Rightarrow> (u64 \<Rightarrow> string \<Rightarrow> (ahe_opcache_shm_provider \<Rightarrow> int) option)
     \<Rightarrow> extension \<Rightarrow> int \<Rightarrow> zend_extension option \<Rightarrow> extension" where
  "ahe_message_handler php fetch x message arg =
     (if message \<noteq> ZEND_EXTMSG_NEW_EXTENSION \<or> arg = None then x
      else
        let loaded_extension = the arg in
        if z_name loaded_extension \<noteq> OPCACHE_NAME then x
        else
          let x = x\<lparr>x_opcache_seen := True\<rparr> in
          if z_handle loaded_extension = 0 then x
          else case fetch (z_handle loaded_extension) REGISTER_SYMBOL of
              None \<Rightarrow> x
            | Some register_provider \<Rightarrow>
                if register_provider (ahe_opcache_provider php) = ZEND_OPCACHE_SHM_PROVIDER_SUCCESS
                then x\<lparr>x_provider_registered := True\<rparr>
                else x)"

primrec ahe_opcache_is_loaded :: "zend_extension list \<Rightarrow> bool" where
  "ahe_opcache_is_loaded [] = False"
| "ahe_opcache_is_loaded (e # es) = (if z_name e = OPCACHE_NAME then True else ahe_opcache_is_loaded es)"

abbreviation READ_PERSONALITY :: u64 where "READ_PERSONALITY \<equiv> 0xffffffff"

text \<open>\<open>current_personality & ADDR_NO_RANDOMIZE\<close> of an \<open>int\<close>.\<close>

definition no_randomize :: "int \<Rightarrow> bool" where
  "no_randomize personality \<longleftrightarrow> (word_of_int personality :: u32) AND 0x0040000 \<noteq> 0"

definition ahe_verify_aslr_contract :: "(world, int) state" where
  "ahe_verify_aslr_contract = do {
     broker_socket \<leftarrow> getenv ''AHE_BROKER_SOCKET'';
     expected \<leftarrow> getenv ''AHE_EXPECT_NO_ASLR'';
     if expected = None \<and> env_or broker_socket [] = [] then ret SUCCESS
     else do {
       r \<leftarrow> sys (Personality READ_PERSONALITY);
       if r_ret r \<noteq> -1 \<and> no_randomize (r_ret r) then ret SUCCESS
       else do {_ \<leftarrow> zend_warning ''the launcher did not disable ASLR''; ret FAILURE}
     }
   }"

definition ahe_startup ::
  "zend_extension list \<Rightarrow> extension \<Rightarrow> zend_extension \<Rightarrow> (world, int \<times> extension \<times> zend_extension) state" where
  "ahe_startup loaded x self =
     (if (x_opcache_seen x \<or> ahe_opcache_is_loaded loaded) \<and> \<not> x_provider_registered x
      then do {
        _ \<leftarrow> zend_warning ''Zend OPcache does not expose the shared-memory provider ABI'';
        ret (FAILURE, x, self)
      }
      else do {
        let self = (if x_provider_registered x then self\<lparr>z_handle := 0\<rparr> else self);
        verified \<leftarrow> ahe_verify_aslr_contract;
        if verified \<noteq> SUCCESS then ret (FAILURE, x, self)
        else ret (SUCCESS, x\<lparr>x_provider_enabled := True\<rparr>, self)
      })"

section \<open>What creating the segments does\<close>

text \<open>
  The digest of a configuration. There is none when PHP has no table of settings, and none
  when the table holds no setting of OPcache.
\<close>

definition configuration_digest_of :: "php \<Rightarrow> string option" where
  "configuration_digest_of php = (case p_ini_directives php of
     None \<Rightarrow> None
   | Some table \<Rightarrow> (case fingerprint_entries table of
       [] \<Rightarrow> None
     | e # es \<Rightarrow> Some (digest_hex (p_md5 php (digest_input (sort_entries (e # es)))))))"

lemma configuration_digest_of_None_iff:
  "configuration_digest_of php = None \<longleftrightarrow> p_ini_directives php = None \<or>
     (\<exists>table. p_ini_directives php = Some table \<and> list_all (\<lambda>e. \<not> is_opcache_entry e) table)"
  by (auto simp: configuration_digest_of_def fingerprint_entries_def filter_empty_conv filter_eq_Cons_iff list_all_iff
      split: option.splits list.splits)

text \<open>\<open>undisturbed w w'\<close>: nothing was sent, opened, closed or mapped in between.\<close>

definition undisturbed :: "world \<Rightarrow> world \<Rightarrow> bool" where
  "undisturbed w w' \<longleftrightarrow> quiet w w' \<and> extends w w' \<and> only_calls memless w w' \<and>
     (\<forall>F. holds F w \<longrightarrow> holds F w')"

lemma undisturbed_refl [simp]: "undisturbed w w"
  by (simp add: undisturbed_def extends_refl)

lemma wp_configuration_digest:
  "wp (ahe_opcache_configuration_digest (p_md5 php) (p_ini_directives php))
     (\<lambda>d w'. undisturbed w w' \<and> (d = None \<or> d = configuration_digest_of php)) w"
proof (cases "p_ini_directives php")
  case None
  then show ?thesis
    by (simp add: ahe_opcache_configuration_digest_def configuration_digest_of_def wp_return)
next
  case (Some table)
  let ?c = "Malloc (length (fingerprint_entries table) * 16)"
  let ?w1 = "answered ?c (next_reply w) w"
  let ?w2 = "noted (Free (r_addr (next_reply w))) ?w1"
  have "undisturbed w ?w1" "undisturbed w ?w2"
    by (auto simp: undisturbed_def extends_def intro!: quiet_intros only_calls_intros holds_none_intros)
  then show ?thesis
    by (cases "fingerprint_entries table")
      (simp_all add: Some ahe_opcache_configuration_digest_def configuration_digest_of_def Let_def
        wp_bind wp_sys wp_note_call wp_return)
qed

text \<open>The calls that only allocate and free memory.\<close>

fun allocates :: "syscall \<Rightarrow> bool" where
  "allocates (Malloc n) = True"
| "allocates (Free a) = True"
| "allocates c = False"

lemma calls_configuration_digest: "calls allocates (ahe_opcache_configuration_digest md5 directives)"
  by (auto simp: ahe_opcache_configuration_digest_def Let_def intro!: calls_intros)

definition segment_key :: "php \<Rightarrow> world \<Rightarrow> string \<Rightarrow> usize \<Rightarrow> string" where
  "segment_key php w digest sz = cache_key_text (euid w) (env_or (environ w ''AHE_CACHE_NAMESPACE'') ''default'')
     (case p_sapi_name php of Some name \<Rightarrow> name | None \<Rightarrow> ''unknown'') (p_system_id php) digest
     (p_execute_ex php) sz"

text \<open>
  Whatever comes of it, the caller owns what the returned client owns; the only thing that
  can leave the process is one request for the key of this very configuration, to a broker
  that was found trustworthy at the configured path.
\<close>

definition create_post :: "php \<Rightarrow> extension \<Rightarrow> usize \<Rightarrow> world
     \<Rightarrow> int \<times> ahe_broker_client \<times> segment_outputs \<Rightarrow> world \<Rightarrow> bool" where
  "create_post php x sz w = (\<lambda>(res, c', o') w'.
     (\<forall>F. holds F w \<longrightarrow> holds (client_owned c' + F) w') \<and>
     (\<forall>M. maps M w \<longrightarrow> maps (client_maps c' + M) w') \<and>
     (res = ZEND_OPCACHE_SHM_ALLOC_FAILURE \<and> released c' \<or>
      (\<exists>response. handed_over sz res c' o' response)) \<and>
     (\<forall>s \<in> sends (history w'). s \<in> sends (history w) \<or>
        (\<exists>f path digest. x_provider_enabled x \<and> p_force_restart_timeout php = 0 \<and>
           environ w ''AHE_BROKER_SOCKET'' = Some path \<and> path \<noteq> [] \<and>
           configuration_digest_of php = Some digest \<and> length (segment_key php w digest sz) < AHE_BROKER_CACHE_KEY_SIZE \<and>
           s = (f, encode_message (acquire_request (segment_key php w digest sz) sz), []) \<and>
           broker_trusted path f w w')))"

lemma create_post_refused:
  assumes "released (x_broker x)" and "undisturbed w w'"
  shows "create_post php x sz w (ZEND_OPCACHE_SHM_ALLOC_FAILURE, x_broker x, o') w'"
  using assms by (auto simp: create_post_def undisturbed_def released_def client_maps_def quiet_def maps_memless)

lemma wp_acquire_segments:
  assumes rel: "released (x_broker x)" and u: "undisturbed w w1"
    and on: "x_provider_enabled x" "p_force_restart_timeout php = 0"
      "environ w ''AHE_BROKER_SOCKET'' = Some path" "path \<noteq> []"
    and d: "configuration_digest_of php = Some digest" "key = segment_key php w digest sz"
      "length key < AHE_BROKER_CACHE_KEY_SIZE"
  shows "wp (acquire_segments (x_broker x) path key sz) (create_post php x sz w) w1"
  unfolding acquire_segments_def
proof (rule wp_seq [OF wp_acquire [OF rel]])
  fix r w2
  assume a: "acquire_post path key sz w1 r w2"
  obtain res c' o' where r: "r = (res, c', o')" by (cases r) auto
  have s: "sends (history w1) = sends (history w)" and e: "euid w1 = euid w"
    using u by (auto simp: undisturbed_def quiet_def)
  have p: "create_post php x sz w (res, c', o') w3"
    if h: "\<And>F. holds F w2 \<Longrightarrow> holds F w3" and m: "\<And>M. maps M w2 \<Longrightarrow> maps M w3"
      and snt: "sends (history w3) = sends (history w2)" and x3: "extends w2 w3" for w3
  proof -
    have 1: "holds (client_owned c' + F) w3" if "holds F w" for F
      using a h u that by (auto simp: acquire_post_def r undisturbed_def)
    have 2: "maps (client_maps c' + M) w3" if "maps M w" for M
      using a m u that by (auto simp: acquire_post_def r undisturbed_def maps_memless)
    have 3: "res = ZEND_OPCACHE_SHM_ALLOC_FAILURE \<and> released c' \<or> (\<exists>response. handed_over sz res c' o' response)"
      using a by (auto simp: acquire_post_def r)
    have 4: "s \<in> sends (history w) \<or> (\<exists>f. s = (f, encode_message (acquire_request key sz), []) \<and>
        broker_trusted path f w w3)" if "s \<in> sends (history w3)" for s
    proof -
      have "s \<in> sends (history w1) \<or> (\<exists>f. s = (f, encode_message (acquire_request key sz), []) \<and>
          broker_trusted path f w1 w2)"
        using a that snt by (simp add: acquire_post_def r)
      moreover have "extends w w1" using u by (simp add: undisturbed_def)
      ultimately show ?thesis using s x3 by (auto intro: broker_trusted_extends)
    qed
    have "s \<in> sends (history w) \<or> (\<exists>f path digest. x_provider_enabled x \<and> p_force_restart_timeout php = 0 \<and>
        environ w ''AHE_BROKER_SOCKET'' = Some path \<and> path \<noteq> [] \<and>
        configuration_digest_of php = Some digest \<and> length (segment_key php w digest sz) < AHE_BROKER_CACHE_KEY_SIZE \<and>
        s = (f, encode_message (acquire_request (segment_key php w digest sz) sz), []) \<and>
        broker_trusted path f w w3)" if "s \<in> sends (history w3)" for s
      using 4 [OF that] on d by fast
    with 1 2 3 show ?thesis unfolding create_post_def prod.case by simp
  qed
  let ?t = "AHE_NAME @ '': '' @ ''the broker did not respond; using process-local OPcache for this invocation''"
  have "only_calls memless w2 (noted (Message ?t) w2)" by (rule only_calls_noted) simp_all
  then have "create_post php x sz w (res, c', o') (noted (Message ?t) w2)"
    by (intro p) (auto simp: maps_memless intro: holds_noted_none extends_noted extends_refl)
  moreover have "create_post php x sz w (res, c', o') w2" by (rule p) (auto intro: extends_refl)
  ultimately show "wp (case r of (result, broker, outputs) \<Rightarrow> do {
      _ \<leftarrow> (if result = ZEND_OPCACHE_SHM_ALLOC_FAILURE \<and> k_timed_out broker
        then zend_warning ''the broker did not respond; using process-local OPcache for this invocation''
        else ret ());
      ret (result, broker, outputs)
    }) (create_post php x sz w) w2"
    by (auto simp add: r zend_warning_def wp_bind wp_note_call wp_return)
qed

lemma wp_create_segments:
  assumes rel: "released (x_broker x)"
  shows "wp (ahe_create_segments php x sz) (create_post php x sz w) w"
proof -
  let ?ns = "env_or (environ w ''AHE_CACHE_NAMESPACE'') ''default''"
  let ?sapi = "case p_sapi_name php of Some name \<Rightarrow> name | None \<Rightarrow> ''unknown''"
  let ?path = "env_or (environ w ''AHE_BROKER_SOCKET'') []"
  note refused = create_post_refused [OF rel]
  have go: "wp (ahe_opcache_configuration_digest (p_md5 php) (p_ini_directives php)) (\<lambda>digest. wp (do {
        uid \<leftarrow> geteuid;
        case digest of
          None \<Rightarrow> ret (segments_refused ''AHE could not fingerprint the OPcache configuration'' (x_broker x))
        | Some configuration_digest \<Rightarrow>
            let cache_key = cache_key_text uid ?ns ?sapi (p_system_id php) configuration_digest
                  (p_execute_ex php) sz
            in if length cache_key \<ge> AHE_BROKER_CACHE_KEY_SIZE
               then ret (segments_refused ''AHE cache identity is too long'' (x_broker x))
               else acquire_segments (x_broker x) ?path cache_key sz
      }) (create_post php x sz w)) w"
    if on: "x_provider_enabled x" "p_force_restart_timeout php = 0" "?path \<noteq> []"
  proof (rule wp_mono [OF wp_configuration_digest], elim conjE)
    fix d w1
    assume u: "undisturbed w w1" and d: "d = None \<or> d = configuration_digest_of php"
    have e: "euid w1 = euid w" using u by (simp add: undisturbed_def quiet_def)
    have path: "environ w ''AHE_BROKER_SOCKET'' = Some ?path"
      using on(3) by (auto simp: env_or_def split: option.splits if_splits)
    show "wp (do {
        uid \<leftarrow> geteuid;
        case d of
          None \<Rightarrow> ret (segments_refused ''AHE could not fingerprint the OPcache configuration'' (x_broker x))
        | Some configuration_digest \<Rightarrow>
            let cache_key = cache_key_text uid ?ns ?sapi (p_system_id php) configuration_digest
                  (p_execute_ex php) sz
            in if length cache_key \<ge> AHE_BROKER_CACHE_KEY_SIZE
               then ret (segments_refused ''AHE cache identity is too long'' (x_broker x))
               else acquire_segments (x_broker x) ?path cache_key sz
      }) (create_post php x sz w) w1"
    proof (cases d)
      case None
      with refused [OF u] show ?thesis by (simp add: wp_rules segments_refused_def)
    next
      case (Some digest)
      with d have c: "configuration_digest_of php = Some digest" by simp
      have "wp (acquire_segments (x_broker x) ?path (segment_key php w digest sz) sz) (create_post php x sz w) w1"
        if "length (segment_key php w digest sz) < AHE_BROKER_CACHE_KEY_SIZE"
        by (rule wp_acquire_segments [OF rel u on(1,2) path on(3) c refl that])
      with Some refused [OF u] show ?thesis
        by (simp add: wp_bind wp_geteuid wp_return e segment_key_def Let_def segments_refused_def)
    qed
  qed
  show ?thesis
    unfolding ahe_create_segments_def
    using refused [OF undisturbed_refl] go
    by (simp add: wp_bind wp_getenv wp_return segments_refused_def)
qed

section \<open>Startup, completion, shutdown\<close>

definition aslr_verified :: "world \<Rightarrow> world \<Rightarrow> bool" where
  "aslr_verified w w' \<longleftrightarrow>
     environ w ''AHE_EXPECT_NO_ASLR'' = None \<and> env_or (environ w ''AHE_BROKER_SOCKET'') [] = [] \<or>
     (\<exists>p. (Personality READ_PERSONALITY, p) \<in> since w w' \<and> no_randomize (r_ret p))"

lemma wp_verify_aslr:
  "wp ahe_verify_aslr_contract (\<lambda>r w'. undisturbed w w' \<and> (r = SUCCESS \<longrightarrow> aslr_verified w w')) w"
proof -
  let ?w1 = "answered (Personality READ_PERSONALITY) (next_reply w) w"
  have "undisturbed w ?w1" "undisturbed w (noted (Message t) ?w1)" for t
    by (auto simp: undisturbed_def extends_def intro!: quiet_intros only_calls_intros holds_none_intros)
  moreover have "aslr_verified w ?w1" if "no_randomize (r_ret (next_reply w))"
    unfolding aslr_verified_def by (rule disjI2, rule exI [of _ "next_reply w"]) (use that in \<open>simp add: since_append [where h = "[_]"]\<close>)
  moreover have "aslr_verified w w"
    if "environ w ''AHE_EXPECT_NO_ASLR'' = None" "env_or (environ w ''AHE_BROKER_SOCKET'') [] = []"
    using that by (simp add: aslr_verified_def)
  ultimately show ?thesis
    by (simp add: ahe_verify_aslr_contract_def zend_warning_def wp_bind wp_getenv wp_sys wp_note_call wp_return)
qed

text \<open>
  The provider is enabled only when startup succeeded; then OPcache, if loaded, has accepted
  the provider, the extension stays loaded, and a configured broker implies that addresses
  are not randomised.
\<close>

definition startup_post ::
  "zend_extension list \<Rightarrow> extension \<Rightarrow> world \<Rightarrow> int \<times> extension \<times> zend_extension \<Rightarrow> world \<Rightarrow> bool" where
  "startup_post loaded x w = (\<lambda>(r, x', self') w'. undisturbed w w' \<and>
     (if r = SUCCESS
      then x' = x\<lparr>x_provider_enabled := True\<rparr> \<and> aslr_verified w w' \<and>
        (x_opcache_seen x \<or> OPCACHE_NAME \<in> z_name ` set loaded \<longrightarrow> x_provider_registered x) \<and>
        (x_provider_registered x \<longrightarrow> z_handle self' = 0)
      else r = FAILURE \<and> x' = x))"

lemma opcache_is_loaded_iff: "ahe_opcache_is_loaded es \<longleftrightarrow> OPCACHE_NAME \<in> z_name ` set es"
  by (induction es) auto

lemma wp_startup: "wp (ahe_startup loaded x self) (startup_post loaded x w) w"
proof -
  let ?self = "if x_provider_registered x then self\<lparr>z_handle := 0\<rparr> else self"
  have "undisturbed w (noted (Message t) w)" for t
    by (auto simp: undisturbed_def extends_def intro!: quiet_intros only_calls_intros holds_none_intros)
  moreover have "wp (do {
      verified \<leftarrow> ahe_verify_aslr_contract;
      if verified \<noteq> SUCCESS then ret (FAILURE, x, ?self)
      else ret (SUCCESS, x\<lparr>x_provider_enabled := True\<rparr>, ?self)
    }) (startup_post loaded x w) w"
    if "\<not> ((x_opcache_seen x \<or> ahe_opcache_is_loaded loaded) \<and> \<not> x_provider_registered x)"
    by (rule wp_seq [OF wp_verify_aslr])
      (use that in \<open>auto simp: startup_post_def wp_return opcache_is_loaded_iff\<close>)
  ultimately show ?thesis
    by (auto simp: ahe_startup_def Let_def zend_warning_def wp_bind wp_note_call wp_return startup_post_def)
qed

text \<open>Completion changes neither the descriptors nor the mapping the client owns.\<close>

definition completed_post :: "extension \<Rightarrow> world \<Rightarrow> extension \<Rightarrow> world \<Rightarrow> bool" where
  "completed_post x w x' w' \<longleftrightarrow> (\<forall>F. holds F w \<longrightarrow> holds F w') \<and> (\<forall>M. maps M w \<longrightarrow> maps M w') \<and>
     client_owned (x_broker x') = client_owned (x_broker x) \<and>
     k_mapping (x_broker x') = k_mapping (x_broker x) \<and>
     k_mapping_size (x_broker x') = k_mapping_size (x_broker x)"

lemma told_completed: "told f m w w1 \<Longrightarrow> completed_post x w x w1"
  by (auto simp: told_def completed_post_def maps_memless)

lemma wp_abort:
  "wp (ahe_broker_client_abort c) (\<lambda>_ w'. (\<forall>F. holds F w \<longrightarrow> holds F w') \<and> (\<forall>M. maps M w \<longrightarrow> maps M w')) w"
proof -
  have "wp (ahe_broker_client_notify c AHE_BROKER_ABORT)
      (\<lambda>_ w'. (\<forall>F. holds F w \<longrightarrow> holds F w') \<and> (\<forall>M. maps M w \<longrightarrow> maps M w')) w"
    by (rule wp_notify) (auto simp: told_def maps_memless)
  then show ?thesis by (simp add: ahe_broker_client_abort_def wp_bind wp_return)
qed

lemma wp_startup_complete: "wp (ahe_startup_complete x reattached globals) (completed_post x w) w"
proof -
  have same: "completed_post x w x w" by (simp add: completed_post_def)
  have abandon: "wp (do {
      _ \<leftarrow> ahe_broker_client_abort (x_broker x);
      _ \<leftarrow> zend_warning t;
      ret (x\<lparr>x_broker := x_broker x\<rparr>)
    }) (completed_post x w) w1" if "completed_post x w x w1" for t w1
  proof (rule wp_seq [OF wp_abort], elim conjE)
    fix u :: unit and w2
    assume h: "\<forall>F. holds F w1 \<longrightarrow> holds F w2" and m: "\<forall>M. maps M w1 \<longrightarrow> maps M w2"
    let ?w3 = "noted (Message (AHE_NAME @ '': '' @ t)) w2"
    have "only_calls memless w2 ?w3" by (rule only_calls_noted) simp_all
    then have "completed_post x w (x\<lparr>x_broker := x_broker x\<rparr>) ?w3"
      using that h m by (auto simp: completed_post_def maps_memless intro: holds_noted_none)
    then show "wp (do {_ \<leftarrow> zend_warning t; ret (x\<lparr>x_broker := x_broker x\<rparr>)}) (completed_post x w) w2"
      by (simp add: zend_warning_def wp_bind wp_note_call wp_return)
  qed
  have "wp (ahe_broker_client_publish (x_broker x) globals) (\<lambda>r. wp (case r of (published, broker) \<Rightarrow>
      if published < 0
      then do {
        _ \<leftarrow> ahe_broker_client_abort broker;
        _ \<leftarrow> zend_warning ''persistence was abandoned because the OPcache generation could not be published'';
        ret (x\<lparr>x_broker := broker\<rparr>)
      }
      else ret (x\<lparr>x_broker := broker\<rparr>)) (completed_post x w)) w"
  proof (rule wp_publish, goal_cases refused failed published)
    case refused
    with abandon [OF same] show ?case by simp
  next
    case (failed w1)
    then have "completed_post x w x w1" by (blast intro: told_completed)
    with abandon show ?case by simp
  next
    case (published m w1)
    then show ?case
      by (auto simp: wp_return completed_post_def told_def maps_memless client_owned_def)
  qed
  with same show ?thesis by (simp add: ahe_startup_complete_def wp_bind wp_return)
qed

section \<open>A session of the provider\<close>

text \<open>
  The calls OPcache makes while it uses a provider, between creating the segments and giving
  them up: it locks and unlocks, reports that its startup was completed (reattached or not, with
  the address of the shared globals) or aborted (with a reason). Which calls it makes, how
  often, in which order and with which arguments is OPcache's choice.
\<close>

datatype opcache_call =
    Lock
  | Unlock
  | Startup_complete bool u64
  | Startup_aborted string

primrec opcache_calls ::
  "('c \<Rightarrow> opcache_call \<Rightarrow> (world, 'c) state) \<Rightarrow> 'c \<Rightarrow> opcache_call list \<Rightarrow> (world, 'c) state" where
  "opcache_calls call c [] = ret c"
| "opcache_calls call c (i # is) = do {c \<leftarrow> call c i; opcache_calls call c is}"

text \<open>
  A provider's whole life, as \<^verbatim>\<open>patches/php/8.4/0001-external-shared-memory-provider.patch\<close>
  drives it: create the segments (\<open>zend_shared_alloc_startup\<close>); when that failed, only shut
  down; otherwise any calls, then detach the segment that was handed out
  (\<open>zend_shared_alloc_shutdown\<close>, or \<open>zend_shared_alloc_try\<close> when OPcache rejects it), then shut
  down. OPcache passes a copy of the segment: \<open>leave = Some (address, pos)\<close> is a detach of the
  copy at \<open>address\<close>, whose allocator stands at \<open>pos\<close>; with \<open>None\<close> it shuts down without detaching.
\<close>

definition opcache_session ::
  "('c \<Rightarrow> usize \<Rightarrow> (world, int \<times> 'c \<times> segment_outputs) state)
     \<Rightarrow> ('c \<Rightarrow> opcache_call \<Rightarrow> (world, 'c) state)
     \<Rightarrow> ('c \<Rightarrow> (u64 \<times> ahe_opcache_shm_segment) option \<Rightarrow> (world, int \<times> 'c) state)
     \<Rightarrow> ('c \<Rightarrow> (world, 'c) state)
     \<Rightarrow> 'c \<Rightarrow> usize \<Rightarrow> opcache_call list \<Rightarrow> (u64 \<times> usize) option \<Rightarrow> (world, 'c) state" where
  "opcache_session create call detach shutdown c sz uses leave = do {
     (res, c, outputs) \<leftarrow> create c sz;
     if res = ZEND_OPCACHE_SHM_ALLOC_FAILURE then shutdown c
     else do {
       c \<leftarrow> opcache_calls call c uses;
       c \<leftarrow> (case leave of
           None \<Rightarrow> ret c
         | Some (address, pos) \<Rightarrow> do {
             (_, c) \<leftarrow> detach c (Some (address, (out_segment outputs)\<lparr>seg_pos := pos\<rparr>));
             ret c
           });
       shutdown c
     }
   }"

text \<open>
  \<open>resources_follow\<close>: the descriptors and mappings a context accounts for are exactly what
  the process gained or lost in between.
\<close>

definition resources_follow :: "('c \<Rightarrow> fd multiset) \<Rightarrow> ('c \<Rightarrow> (u64 \<times> usize) multiset)
     \<Rightarrow> 'c \<Rightarrow> world \<Rightarrow> 'c \<Rightarrow> world \<Rightarrow> bool" where
  "resources_follow owned mapping c w c' w' \<longleftrightarrow>
     (\<forall>F. holds (owned c + F) w \<longrightarrow> holds (owned c' + F) w') \<and>
     (\<forall>M. maps (mapping c + M) w \<longrightarrow> maps (mapping c' + M) w')"

lemma resources_follow_refl [simp]: "resources_follow owned mapping c w c w"
  by (simp add: resources_follow_def)

lemma resources_follow_trans:
  "resources_follow owned mapping c w c1 w1 \<Longrightarrow> resources_follow owned mapping c1 w1 c2 w2 \<Longrightarrow>
   resources_follow owned mapping c w c2 w2"
  by (simp add: resources_follow_def)

text \<open>
  What OPcache relies on in a provider, and what it gets from it over a whole session.
  \<open>backs c s\<close>: the segment \<open>s\<close> is exactly the mapping the context accounts for.
\<close>

locale shm_provider =
  fixes create :: "'c \<Rightarrow> usize \<Rightarrow> (world, int \<times> 'c \<times> segment_outputs) state"
    and call :: "'c \<Rightarrow> opcache_call \<Rightarrow> (world, 'c) state"
    and detach :: "'c \<Rightarrow> (u64 \<times> ahe_opcache_shm_segment) option \<Rightarrow> (world, int \<times> 'c) state"
    and shutdown :: "'c \<Rightarrow> (world, 'c) state"
    and idle :: "'c \<Rightarrow> bool"
    and sound :: "'c \<Rightarrow> bool"
    and backs :: "'c \<Rightarrow> ahe_opcache_shm_segment \<Rightarrow> bool"
    and owned :: "'c \<Rightarrow> fd multiset"
    and mapping :: "'c \<Rightarrow> (u64 \<times> usize) multiset"
  assumes create_law: "idle c \<Longrightarrow> sz \<noteq> 0 \<Longrightarrow> wp (create c sz)
      (\<lambda>(res, c', outputs) w'. resources_follow owned mapping c w c' w' \<and> sound c' \<and>
        (res \<noteq> ZEND_OPCACHE_SHM_ALLOC_FAILURE \<longrightarrow> backs c' (out_segment outputs))) w"
    and call_law: "sound c \<Longrightarrow> wp (call c i)
      (\<lambda>c' w'. resources_follow owned mapping c w c' w' \<and> sound c' \<and> backs c' = backs c) w"
    and detach_law: "sound c \<Longrightarrow> backs c s \<Longrightarrow> wp (detach c (Some (address, s\<lparr>seg_pos := pos\<rparr>)))
      (\<lambda>(res, c') w'. resources_follow owned mapping c w c' w' \<and> sound c') w"
    and shutdown_law: "sound c \<Longrightarrow> wp (shutdown c)
      (\<lambda>c' w'. resources_follow owned mapping c w c' w' \<and> idle c') w"
    and idle_law: "idle c \<Longrightarrow> owned c = {#} \<and> mapping c = {#}"
begin

lemma calls_follow:
  "sound c \<Longrightarrow> wp (opcache_calls call c is)
     (\<lambda>c' w'. resources_follow owned mapping c w c' w' \<and> sound c' \<and> backs c' = backs c) w"
proof (induction "is" arbitrary: c w)
  case Nil
  then show ?case by (simp add: wp_return)
next
  case (Cons i "is")
  show ?case
    unfolding opcache_calls.simps
    by (rule wp_seq [OF call_law [OF Cons.prems]], elim conjE, rule wp_mono [OF Cons.IH])
      (auto intro: resources_follow_trans)
qed

lemma leave_follows:
  assumes "sound c" and "backs c s"
  shows "wp (case leave of None \<Rightarrow> ret c
      | Some (address, pos) \<Rightarrow> do {(_, c) \<leftarrow> detach c (Some (address, s\<lparr>seg_pos := pos\<rparr>)); ret c})
    (\<lambda>c' w'. resources_follow owned mapping c w c' w' \<and> sound c') w"
proof (cases leave)
  case None
  with assms(1) show ?thesis by (simp add: wp_return)
next
  case (Some l)
  obtain address pos where "l = (address, pos)" by (cases l)
  with Some show ?thesis
    by (auto simp: wp_bind wp_return intro!: wp_mono [OF detach_law [OF assms]])
qed

lemma session_follows:
  assumes "idle c" and "sz \<noteq> 0"
  shows "wp (opcache_session create call detach shutdown c sz uses leave)
    (\<lambda>c' w'. resources_follow owned mapping c w c' w' \<and> idle c') w"
  unfolding opcache_session_def
proof (rule wp_seq [OF create_law [OF assms]])
  fix r :: "int \<times> 'c \<times> segment_outputs" and w1
  assume 1: "(\<lambda>(res, c', outputs) w'. resources_follow owned mapping c w c' w' \<and> sound c' \<and>
    (res \<noteq> ZEND_OPCACHE_SHM_ALLOC_FAILURE \<longrightarrow> backs c' (out_segment outputs))) r w1"
  obtain res c1 outputs where r: "r = (res, c1, outputs)" by (cases r) auto
  note ends = wp_mono [OF shutdown_law]
  let ?leave = "\<lambda>c. case leave of None \<Rightarrow> ret c | Some (address, pos) \<Rightarrow>
      do {(_, c) \<leftarrow> detach c (Some (address, (out_segment outputs)\<lparr>seg_pos := pos\<rparr>)); ret c}"
  have "wp (do {c \<leftarrow> opcache_calls call c1 uses; c \<leftarrow> ?leave c; shutdown c})
      (\<lambda>c' w'. resources_follow owned mapping c w c' w' \<and> idle c') w1" if "res \<noteq> ZEND_OPCACHE_SHM_ALLOC_FAILURE"
  proof (rule wp_seq [OF calls_follow])
    show "sound c1" using 1 r by simp
    fix c2 w2
    assume 2: "resources_follow owned mapping c1 w1 c2 w2 \<and> sound c2 \<and> backs c2 = backs c1"
    with 1 r that have "sound c2" "backs c2 (out_segment outputs)" by simp_all
    then have l: "wp (?leave c2) (\<lambda>c' w'. resources_follow owned mapping c2 w2 c' w' \<and> sound c') w2"
      by (rule leave_follows)
    show "wp (do {c \<leftarrow> ?leave c2; shutdown c})
        (\<lambda>c' w'. resources_follow owned mapping c w c' w' \<and> idle c') w2"
      by (rule wp_seq [OF l], elim conjE, erule ends) (use 1 2 r in \<open>auto intro: resources_follow_trans\<close>)
  qed
  moreover have "wp (shutdown c1) (\<lambda>c' w'. resources_follow owned mapping c w c' w' \<and> idle c') w1"
    by (rule ends) (use 1 r in \<open>auto intro: resources_follow_trans\<close>)
  ultimately show "wp (case r of (res, c, outputs) \<Rightarrow>
      if res = ZEND_OPCACHE_SHM_ALLOC_FAILURE then shutdown c
      else do {
        c \<leftarrow> opcache_calls call c uses;
        c \<leftarrow> (case leave of
            None \<Rightarrow> ret c
          | Some (address, pos) \<Rightarrow> do {
              (_, c) \<leftarrow> detach c (Some (address, (out_segment outputs)\<lparr>seg_pos := pos\<rparr>));
              ret c
            });
        shutdown c
      })
    (\<lambda>c' w'. resources_follow owned mapping c w c' w' \<and> idle c') w1" by (simp add: r)
qed

lemma session_releases:
  assumes "idle c" and "sz \<noteq> 0"
  shows "wp (opcache_session create call detach shutdown c sz uses leave) (\<lambda>c' w'. idle c' \<and>
    (\<forall>F. holds F w \<longrightarrow> holds F w') \<and> (\<forall>M. maps M w \<longrightarrow> maps M w')) w"
  by (rule wp_mono [OF session_follows [OF assms]])
    (use idle_law assms(1) in \<open>auto simp: resources_follow_def\<close>)

end

text \<open>The extension's table is such a provider; its context is the extension's state.\<close>

definition provider_create :: "php \<Rightarrow> extension \<Rightarrow> usize \<Rightarrow> (world, int \<times> extension \<times> segment_outputs) state" where
  "provider_create php x sz = do {
     (res, broker, outputs) \<leftarrow> v_create_segments (ahe_opcache_provider php) x sz;
     ret (res, x\<lparr>x_broker := broker\<rparr>, outputs)
   }"

definition provider_detach ::
  "php \<Rightarrow> extension \<Rightarrow> (u64 \<times> ahe_opcache_shm_segment) option \<Rightarrow> (world, int \<times> extension) state" where
  "provider_detach php x shared_segment = do {
     (res, broker) \<leftarrow> v_detach_segment (ahe_opcache_provider php) x shared_segment;
     ret (res, x\<lparr>x_broker := broker\<rparr>)
   }"

primrec provider_call :: "php \<Rightarrow> extension \<Rightarrow> opcache_call \<Rightarrow> (world, extension) state" where
  "provider_call php x Lock = do {_ \<leftarrow> v_lock (ahe_opcache_provider php) x; ret x}"
| "provider_call php x Unlock = do {_ \<leftarrow> v_unlock (ahe_opcache_provider php) x; ret x}"
| "provider_call php x (Startup_complete reattached globals) =
     v_startup_complete (ahe_opcache_provider php) x reattached globals"
| "provider_call php x (Startup_aborted reason) =
     do {_ \<leftarrow> v_startup_aborted (ahe_opcache_provider php) x reason; ret x}"

definition mapping_sized :: "extension \<Rightarrow> bool" where
  "mapping_sized x \<longleftrightarrow> (k_mapping (x_broker x) \<noteq> 0 \<longrightarrow> k_mapping_size (x_broker x) \<noteq> 0)"

definition backed_by_mapping :: "extension \<Rightarrow> ahe_opcache_shm_segment \<Rightarrow> bool" where
  "backed_by_mapping x s \<longleftrightarrow> seg_p s = k_mapping (x_broker x) \<and> seg_size s = k_mapping_size (x_broker x)"

text \<open>What every one of OPcache's calls keeps.\<close>

lemma wp_set_lock_completed:
  "wp (ahe_broker_client_set_lock c ty command)
     (\<lambda>_ w'. (\<forall>F. holds F w \<longrightarrow> holds F w') \<and> (\<forall>M. maps M w \<longrightarrow> maps M w')) w"
proof (rule wp_set_lock)
  fix r w'
  assume p: "retry_post (Fcntl_lock (k_lock_fd c) ty command) interrupted w r w'"
  then have "only_calls memless w w'" by (auto simp: retry_post_def only_calls_def)
  with holds_retry_none [OF p] show "(\<forall>F. holds F w \<longrightarrow> holds F w') \<and> (\<forall>M. maps M w \<longrightarrow> maps M w')"
    by (simp add: maps_memless)
qed simp

lemma wp_provider_call: "wp (provider_call php x i) (completed_post x w) w"
proof (cases i)
  case Lock
  then show ?thesis
    by (auto simp: ahe_opcache_provider_def ahe_lock_def ahe_broker_client_lock_def wp_bind wp_return completed_post_def
        intro!: wp_mono [OF wp_set_lock_completed])
next
  case Unlock
  then show ?thesis
    by (auto simp: ahe_opcache_provider_def ahe_unlock_def ahe_broker_client_unlock_def wp_bind wp_return completed_post_def
        intro!: wp_mono [OF wp_set_lock_completed])
next
  case (Startup_complete reattached globals)
  then show ?thesis by (simp add: ahe_opcache_provider_def wp_startup_complete)
next
  case (Startup_aborted reason)
  then show ?thesis
    by (auto simp: ahe_opcache_provider_def ahe_startup_aborted_def wp_bind wp_return completed_post_def
        intro!: wp_mono [OF wp_abort])
qed

interpretation ahe: shm_provider "provider_create php" "provider_call php" "provider_detach php"
  "v_shutdown (ahe_opcache_provider php)" "\<lambda>x. released (x_broker x)" mapping_sized backed_by_mapping
  "\<lambda>x. client_owned (x_broker x)" "\<lambda>x. client_maps (x_broker x)"
  for php
proof (unfold_locales, goal_cases create call detach shutdown idle)
  case (create x sz w)
  show ?case
    unfolding provider_create_def
    by (rule wp_seq [where P = "create_post php x sz w"])
      (use create wp_create_segments [OF create(1)] in \<open>auto simp: ahe_opcache_provider_def wp_return backed_by_mapping_def
        create_post_def resources_follow_def mapping_sized_def released_def client_maps_def handed_over_def\<close>)
next
  case (call x i w)
  show ?case
    by (rule wp_mono [OF wp_provider_call])
      (use call in \<open>auto simp: completed_post_def resources_follow_def mapping_sized_def client_maps_def
        backed_by_mapping_def fun_eq_iff\<close>)
next
  case (detach x s address pos w)
  then have "wp (ahe_broker_client_detach (x_broker x) (Some (address, s\<lparr>seg_pos := pos\<rparr>))) (\<lambda>(res, c') w'.
      (\<forall>F. holds F w \<longrightarrow> holds F w') \<and> client_owned c' = client_owned (x_broker x) \<and>
      (\<forall>M. maps (client_maps (x_broker x) + M) w \<longrightarrow> maps (client_maps c' + M) w') \<and>
      (res = ZEND_OPCACHE_SHM_PROVIDER_SUCCESS \<and> k_mapping c' = 0 \<or>
       res = ZEND_OPCACHE_SHM_PROVIDER_FAILURE \<and> c' = x_broker x)) w"
    by (intro wp_detach) (simp_all add: backed_by_mapping_def)
  then show ?case
    unfolding provider_detach_def ahe_opcache_provider_def
    by (simp add: ahe_detach_segment_def wp_bind wp_return)
      (erule wp_mono, use detach(1) in \<open>auto simp: wp_return resources_follow_def mapping_sized_def\<close>)
next
  case (shutdown x w)
  have "k_mapping (x_broker x) \<noteq> 0 \<Longrightarrow> k_mapping_size (x_broker x) \<noteq> 0" using shutdown by (simp add: mapping_sized_def)
  then have "wp (ahe_broker_client_shutdown (x_broker x)) (shutdown_post (x_broker x) w) w"
    by (rule wp_client_shutdown)
  then show ?case
    unfolding ahe_opcache_provider_def by (simp add: ahe_provider_shutdown_def wp_bind wp_return)
      (erule wp_mono, auto simp: shutdown_post_def resources_follow_def released_def client_maps_def)
next
  case (idle x)
  then show ?case by (simp add: released_def client_maps_def)
qed

definition provider_session ::
  "php \<Rightarrow> extension \<Rightarrow> usize \<Rightarrow> opcache_call list \<Rightarrow> (u64 \<times> usize) option \<Rightarrow> (world, extension) state" where
  "provider_session php = opcache_session (provider_create php) (provider_call php) (provider_detach php)
     (v_shutdown (ahe_opcache_provider php))"

lemma wp_provider_session:
  "released (x_broker x) \<Longrightarrow> sz \<noteq> 0 \<Longrightarrow>
   wp (provider_session php x sz uses leave) (\<lambda>x' w'. released (x_broker x') \<and>
    (\<forall>F. holds F w \<longrightarrow> holds F w') \<and> (\<forall>M. maps M w \<longrightarrow> maps M w')) w"
  unfolding provider_session_def by (rule ahe.session_releases)

end
