(* ===== verification/Launcher.thy ===== *)
theory Launcher imports Extension begin

unbundle bit_operations_syntax

text \<open>
  The launcher \<^verbatim>\<open>src/ahe_php.c\<close>: turns off address randomisation, announces it in the
  environment and replaces itself by PHP. \<open>php_binary\<close> and \<open>strerror\<close> are parameters: the
  build and the C library choose them.
\<close>

section \<open>The program\<close>

abbreviation ADDR_NO_RANDOMIZE :: u64 where "ADDR_NO_RANDOMIZE \<equiv> 0x0040000"

text \<open>
  \<open>None\<close> means that \<open>execv\<close> succeeded and the process is now PHP; \<open>Some n\<close> is the launcher's
  own exit status. \<open>argv\<close> is the whole argument vector.
\<close>

definition launcher_failed :: "(errno \<Rightarrow> string) \<Rightarrow> string \<Rightarrow> (world, int option) state" where
  "launcher_failed strerror message = do {
     e \<leftarrow> get_errno;
     _ \<leftarrow> note_call (Message (''ahe-php: '' @ message @ '': '' @ strerror e));
     ret (Some 126)
   }"

definition ahe_php_exec :: "(errno \<Rightarrow> string) \<Rightarrow> string \<Rightarrow> string list \<Rightarrow> (world, int option) state" where
  "ahe_php_exec strerror php_binary argv = do {
     r \<leftarrow> sys (Execv php_binary (argv[0 := php_binary]));
     e \<leftarrow> get_errno;
     if r_ret r \<ge> 0 then ret None
     else do {
       _ \<leftarrow> note_call (Message (''ahe-php: cannot execute '' @ php_binary @ '': '' @ strerror e));
       ret (Some (if e = ENOENT then 127 else 126))
     }
   }"

definition disable_aslr :: "int \<Rightarrow> (world, bool) state" where
  "disable_aslr current_personality =
     (if no_randomize current_personality then ret True
      else do {
        r \<leftarrow> sys (Personality (word_of_int current_personality OR ADDR_NO_RANDOMIZE));
        ret (r_ret r \<noteq> -1)
      })"

definition ahe_php_main :: "(errno \<Rightarrow> string) \<Rightarrow> string \<Rightarrow> string list \<Rightarrow> (world, int option) state" where
  "ahe_php_main strerror php_binary argv = do {
     _ \<leftarrow> set_errno E_OK;
     r \<leftarrow> sys (Personality READ_PERSONALITY);
     if r_ret r = -1 then launcher_failed strerror ''cannot read process personality''
     else do {
       disabled \<leftarrow> disable_aslr (r_ret r);
       if \<not> disabled then launcher_failed strerror ''cannot disable ASLR''
       else do {
         set \<leftarrow> setenv ''AHE_EXPECT_NO_ASLR'' ''1'';
         if set = -1 then launcher_failed strerror ''cannot prepare the PHP environment''
         else ahe_php_exec strerror php_binary argv
       }
     }
   }"

section \<open>What the launcher guarantees\<close>

text \<open>
  PHP is started only without address randomisation and with the announcement in its
  environment; otherwise the exit status is 126, or 127 when PHP was not found.
\<close>

definition aslr_disabled :: "event list \<Rightarrow> bool" where
  "aslr_disabled h \<longleftrightarrow> (\<exists>p. (Personality READ_PERSONALITY, p) \<in> set h \<and> r_ret p \<noteq> -1 \<and>
     (no_randomize (r_ret p) \<or>
      (\<exists>q. (Personality (word_of_int (r_ret p) OR ADDR_NO_RANDOMIZE), q) \<in> set h \<and> r_ret q \<noteq> -1)))"

definition launcher_post :: "string \<Rightarrow> string list \<Rightarrow> world \<Rightarrow> int option \<Rightarrow> world \<Rightarrow> bool" where
  "launcher_post php_binary argv w r w' \<longleftrightarrow> (case r of
     None \<Rightarrow> (\<exists>x h. history w' = (Execv php_binary (argv[0 := php_binary]), x) # h @ history w \<and> 0 \<le> r_ret x \<and>
       aslr_disabled h) \<and> environ w' ''AHE_EXPECT_NO_ASLR'' = Some ''1''
   | Some n \<Rightarrow> n = 126 \<or> n = 127 \<and>
       (\<exists>t x h. history w' = (Message t, returned 0) # (Execv php_binary (argv[0 := php_binary]), x) # h @ history w \<and>
         r_ret x < 0 \<and> r_errno x = ENOENT))"

lemma wp_setenv:
  "wp (setenv name value) Q w \<longleftrightarrow> (let w1 = answered (Setenv name value) (next_reply w) w in
     Q (r_ret (next_reply w)) (if r_ret (next_reply w) = -1 then w1
       else w1\<lparr>environ := (environ w1)(name := Some value)\<rparr>))"
  by (simp add: setenv_def wp_rules Let_def)

lemma wp_launcher_failed:
  "wp (launcher_failed strerror message) (launcher_post php_binary argv w0) w"
  by (simp add: launcher_failed_def wp_rules launcher_post_def)

lemma wp_php_exec:
  assumes "history w = h @ history w0" and "aslr_disabled h" and "environ w ''AHE_EXPECT_NO_ASLR'' = Some ''1''"
  shows "wp (ahe_php_exec strerror php_binary argv) (launcher_post php_binary argv w0) w"
  using assms by (auto simp: ahe_php_exec_def wp_rules launcher_post_def not_le)

lemma aslr_disabled_cons: "aslr_disabled h \<Longrightarrow> aslr_disabled (e # h)"
  unfolding aslr_disabled_def by (meson list.set_intros(2))

lemma wp_disable_aslr:
  assumes "history w = (Personality READ_PERSONALITY, p) # history w0" and "r_ret p \<noteq> -1"
  shows "wp (disable_aslr (r_ret p)) (\<lambda>ok w'. ok \<longrightarrow> (\<exists>h. history w' = h @ history w0 \<and> aslr_disabled h)) w"
proof -
  let ?c = "Personality (word_of_int (r_ret p) OR ADDR_NO_RANDOMIZE)"
  let ?read = "(Personality READ_PERSONALITY, p)"
  have "\<exists>h. history w = h @ history w0 \<and> aslr_disabled h" if "no_randomize (r_ret p)"
    by (rule exI [of _ "[?read]"]) (use assms that in \<open>auto simp: aslr_disabled_def\<close>)
  moreover have "\<exists>h. history (answered ?c (next_reply w) w) = h @ history w0 \<and> aslr_disabled h"
    if "r_ret (next_reply w) \<noteq> -1"
    by (rule exI [of _ "[(?c, next_reply w), ?read]"]) (use assms that in \<open>auto simp: aslr_disabled_def\<close>)
  ultimately show ?thesis by (simp add: disable_aslr_def wp_bind wp_sys wp_return)
qed

lemma wp_launcher: "wp (ahe_php_main strerror php_binary argv) (launcher_post php_binary argv w) w"
proof -
  let ?w1 = "with_errno E_OK w"
  let ?p = "next_reply ?w1"
  let ?w2 = "answered (Personality READ_PERSONALITY) ?p ?w1"
  have exec: "wp (do {
      set \<leftarrow> setenv ''AHE_EXPECT_NO_ASLR'' ''1'';
      if set = -1 then launcher_failed strerror ''cannot prepare the PHP environment''
      else ahe_php_exec strerror php_binary argv
    }) (launcher_post php_binary argv w) w3" if "history w3 = h @ history w" "aslr_disabled h" for w3 h
    unfolding wp_bind wp_setenv Let_def
    using that wp_launcher_failed
    by (auto intro!: wp_php_exec [where h = "(Setenv ''AHE_EXPECT_NO_ASLR'' ''1'', next_reply w3) # h"] aslr_disabled_cons)
  have "wp (disable_aslr (r_ret ?p)) (\<lambda>disabled. wp (
      if \<not> disabled then launcher_failed strerror ''cannot disable ASLR''
      else do {
        set \<leftarrow> setenv ''AHE_EXPECT_NO_ASLR'' ''1'';
        if set = -1 then launcher_failed strerror ''cannot prepare the PHP environment''
        else ahe_php_exec strerror php_binary argv
      }) (launcher_post php_binary argv w)) ?w2" if "r_ret ?p \<noteq> -1"
    by (rule wp_mono [OF wp_disable_aslr [where ?w0.0 = w]]) (use that exec wp_launcher_failed in auto)
  then show ?thesis
    using wp_launcher_failed by (auto simp: ahe_php_main_def wp_bind wp_set_errno wp_sys)
qed

end
