(* ===== verification/Client_Correct.thy ===== *)
theory Client_Correct imports Launcher Exchange Concrete_Worlds begin

unbundle bit_operations_syntax

text \<open>
  The properties of the PHP side: the broker's client, the extension around it, the identity
  of a cache, and the launcher, each with a concrete input that satisfies its hypotheses.
\<close>

section \<open>The client\<close>

text \<open>
  C8. Acquiring the cache is all or nothing. A client that owns nothing either reports failure
  with a reason and still owns nothing (no descriptor and no mapping is left, whichever step
  failed), or is handed the cache by an answer that came in meanwhile from a broker that had
  passed the check: one segment over exactly the requested size at the address of the
  mapping; on \<open>CREATE\<close> as creator, on \<open>ATTACH\<close> mapped exactly at the base address the answer
  names, with the shared globals at base plus offset, the offset inside the mapping. It sends
  nothing but its request, and that only to a broker that had passed the check.
\<close>

theorem acquire_all_or_nothing:
  assumes "released c"
  shows "wp (ahe_broker_client_acquire c path key sz outputs) (\<lambda>(res, c', o') w'.
    (\<forall>F. holds F w \<longrightarrow> holds (client_owned c' + F) w') \<and>
    (\<forall>M. maps M w \<longrightarrow> maps (client_maps c' + M) w') \<and>
    (res = ZEND_OPCACHE_SHM_ALLOC_FAILURE \<and> released c' \<and> out_error o' \<noteq> None \<or>
     (\<exists>f m. broker_trusted path f w w' \<and> heard f m w w' \<and>
       k_acquired c' \<and> k_mapping_size c' = sz \<and>
       out_segment o' = \<lparr>seg_size = sz, seg_end = sz, seg_pos = 0, seg_p = k_mapping c'\<rparr> \<and>
       (m_type m = AHE_BROKER_CREATE \<and> res = ZEND_OPCACHE_SHM_ALLOC_SUCCESS \<and>
          k_creator c' \<and> \<not> k_reattached c' \<or>
        m_type m = AHE_BROKER_ATTACH \<and> res = ZEND_OPCACHE_SHM_SUCCESSFULLY_REATTACHED \<and>
          k_reattached c' \<and> \<not> k_creator c' \<and> m_mapping_base m \<noteq> 0 \<and>
          m_shared_globals_offset m < sz \<and> k_mapping c' = m_mapping_base m \<and>
          out_globals o' = m_mapping_base m + m_shared_globals_offset m))) \<and>
    (\<forall>s \<in> sends (history w'). s \<in> sends (history w) \<or>
       (\<exists>f. s = (f, encode_message (acquire_request key sz), []) \<and> broker_trusted path f w w'))) w"
proof (rule wp_mono [OF wp_acquire [OF assms]])
  fix r w'
  assume a: "acquire_post path key sz w r w'"
  obtain res c' o' where r: "r = (res, c', o')" by (cases r) auto
  let ?given = "\<lambda>m. k_acquired c' \<and> k_mapping_size c' = sz \<and>
       out_segment o' = \<lparr>seg_size = sz, seg_end = sz, seg_pos = 0, seg_p = k_mapping c'\<rparr> \<and>
       (m_type m = AHE_BROKER_CREATE \<and> res = ZEND_OPCACHE_SHM_ALLOC_SUCCESS \<and>
          k_creator c' \<and> \<not> k_reattached c' \<or>
        m_type m = AHE_BROKER_ATTACH \<and> res = ZEND_OPCACHE_SHM_SUCCESSFULLY_REATTACHED \<and>
          k_reattached c' \<and> \<not> k_creator c' \<and> m_mapping_base m \<noteq> 0 \<and>
          m_shared_globals_offset m < sz \<and> k_mapping c' = m_mapping_base m \<and>
          out_globals o' = m_mapping_base m + m_shared_globals_offset m)"
  have "?given m" if "handed_over sz res c' o' m" for m
    using that by (auto simp: handed_over_def split: if_splits)
  with a have "res = ZEND_OPCACHE_SHM_ALLOC_FAILURE \<and> released c' \<and> out_error o' \<noteq> None \<or>
      (\<exists>f m. broker_trusted path f w w' \<and> heard f m w w' \<and> ?given m)"
    unfolding r acquire_post_def prod.case by blast
  with a show "(\<lambda>(res, c', o') w'.
    (\<forall>F. holds F w \<longrightarrow> holds (client_owned c' + F) w') \<and>
    (\<forall>M. maps M w \<longrightarrow> maps (client_maps c' + M) w') \<and>
    (res = ZEND_OPCACHE_SHM_ALLOC_FAILURE \<and> released c' \<and> out_error o' \<noteq> None \<or>
     (\<exists>f m. broker_trusted path f w w' \<and> heard f m w w' \<and>
       k_acquired c' \<and> k_mapping_size c' = sz \<and>
       out_segment o' = \<lparr>seg_size = sz, seg_end = sz, seg_pos = 0, seg_p = k_mapping c'\<rparr> \<and>
       (m_type m = AHE_BROKER_CREATE \<and> res = ZEND_OPCACHE_SHM_ALLOC_SUCCESS \<and>
          k_creator c' \<and> \<not> k_reattached c' \<or>
        m_type m = AHE_BROKER_ATTACH \<and> res = ZEND_OPCACHE_SHM_SUCCESSFULLY_REATTACHED \<and>
          k_reattached c' \<and> \<not> k_creator c' \<and> m_mapping_base m \<noteq> 0 \<and>
          m_shared_globals_offset m < sz \<and> k_mapping c' = m_mapping_base m \<and>
          out_globals o' = m_mapping_base m + m_shared_globals_offset m))) \<and>
    (\<forall>s \<in> sends (history w'). s \<in> sends (history w) \<or>
       (\<exists>f. s = (f, encode_message (acquire_request key sz), []) \<and> broker_trusted path f w w'))) r w'"
    unfolding r acquire_post_def prod.case by blast
qed

text \<open>A broker that is there but refuses the connection.\<close>

definition refusing :: "reply list" where
  "refusing = [returned 3, ok, ok, failed ECONNREFUSED]"

text \<open>A broker that offers a published cache, and a kernel that maps it where it must lie.\<close>

definition offer :: reply where
  "offer = (message_reply (answer_message (Granted_attach 4096 65536 64 (5, 6))))
     \<lparr>r_ctl := [\<lparr>cmsg_level = SOL_SOCKET, cmsg_type = SCM_RIGHTS, cmsg_len = 24, cmsg_fds = [5, 6]\<rparr>]\<rparr>"

definition attaching :: "reply list" where
  "attaching = [returned 3, ok, ok, ok, peer_reply, stat_reply 0xC180, sent_reply, offer,
     ok\<lparr>r_addr := 65536\<rparr>, allocated]"

definition attached :: "(int \<times> ahe_broker_client \<times> segment_outputs) \<times> world" where
  "attached = run_state (ahe_broker_client_acquire AHE_BROKER_CLIENT_INITIALIZER ''/r/s'' ''key'' 4096 unset_outputs)
     (world_of attaching)"

theorem acquire_all_or_nothing_witness:
  "fst (fst attached) = ZEND_OPCACHE_SHM_SUCCESSFULLY_REATTACHED \<and>
   holds (client_owned (fst (snd (fst attached)))) (snd attached) \<and>
   (\<exists>f m. heard f m (world_of attaching) (snd attached) \<and> k_mapping (fst (snd (fst attached))) = m_mapping_base m)"
proof -
  have s: "script (world_of attaching) = [returned 3, ok, ok, ok, peer_reply, stat_reply 0xC180, sent_reply, offer,
      ok\<lparr>r_addr := 65536\<rparr>, allocated] @ []" by (simp add: world_of_def attaching_def)
  obtain c o' w where a: "run_state (ahe_broker_client_acquire AHE_BROKER_CLIENT_INITIALIZER ''/r/s'' ''key'' 4096
      unset_outputs) (world_of attaching) = ((ZEND_OPCACHE_SHM_SUCCESSFULLY_REATTACHED, c, o'), w)"
    using run_acquire_attach [OF _ _ _ s, of "''key''" "''/r/s''" 4096 65536 64 "(5, 6)" 5 6
        AHE_BROKER_CLIENT_INITIALIZER unset_outputs]
    by (auto simp: world_of_def ok_def peer_reply_def stat_reply_def sent_reply_def offer_def message_reply_def
        allocated_def broker_rejected_def private_socket_def is_socket_def user_def returned_def failed_def)
  have "holds {#} (world_of attaching)" by (simp add: holds_def world_of_def)
  with wp_runD [OF acquire_all_or_nothing [OF released_initializer] a] show ?thesis
    by (auto simp: attached_def a dest: spec [of _ "{#}"])
qed

text \<open>
  C9. A whole life of the provider leaves nothing behind. OPcache creates the segments; when
  that succeeded it locks, unlocks, completes or aborts its startup, in any order and with any
  arguments, and detaches the segment it was given, or does not; then it shuts the provider
  down. Whatever the kernel and the broker answer, at the end every descriptor is closed, none
  was closed twice, nothing is mapped, and no region was unmapped that was not mapped then: the
  segment that was detached is not unmapped again by shutting down.
\<close>

theorem provider_session_releases_everything:
  assumes "history w = []" and "released (x_broker x)" and "sz \<noteq> 0"
  shows "wp (provider_session php x sz uses leave) (\<lambda>x' w'. released (x_broker x') \<and>
    (kernel_ok (history w') \<longrightarrow> closes_owned (history w') \<and> open_fds (history w') = {}) \<and>
    (list_all memory_ok (history w') \<longrightarrow> unmaps_owned (history w') \<and> mapped (history w') = {#})) w"
proof (rule wp_mono [OF wp_provider_session [OF assms(2,3)]], elim conjE)
  fix x' w'
  assume rel: "released (x_broker x')"
    and h: "\<forall>F. holds F w \<longrightarrow> holds F w'" and m: "\<forall>M. maps M w \<longrightarrow> maps M w'"
  have "holds {#} w" and "maps {#} w" using assms(1) by (simp_all add: holds_def maps_def mapped_def)
  with h m have "holds {#} w'" and "maps {#} w'" by blast+
  with rel show "released (x_broker x') \<and>
    (kernel_ok (history w') \<longrightarrow> closes_owned (history w') \<and> open_fds (history w') = {}) \<and>
    (list_all memory_ok (history w') \<longrightarrow> unmaps_owned (history w') \<and> mapped (history w') = {#})"
    by (simp add: holds_def maps_def mset_set_empty_iff finite_open_fds)
qed

definition some_php :: php where
  "some_php = \<lparr>p_force_restart_timeout = 0,
     p_ini_directives = Some [\<lparr>ini_name = Some ''opcache.enable'', ini_value = Some ''1''\<rparr>],
     p_sapi_name = Some ''cli'', p_system_id = ''0123'', p_execute_ex = 65536,
     p_md5 = (\<lambda>_. ''0123456789abcdef'')\<rparr>"

definition enabled :: extension where
  "enabled = extension_initial\<lparr>x_provider_enabled := True\<rparr>"

text \<open>
  A session that attaches to a published cache, locks and unlocks it, detaches its segment and
  shuts down, stage by stage.
\<close>

definition session_key :: string where
  "session_key = cache_key_text user ''default'' ''cli'' ''0123'' (digest_hex ''0123456789abcdef'') 65536 4096"

definition session_script :: "reply list" where
  "session_script = allocated # attaching @ [ok, ok, ok, sent_reply, message_reply (answer_message Acknowledged)]"

definition fingerprinted :: world where
  "fingerprinted = noted (Free 4096) (answered (Malloc 16) allocated (world_of session_script))"

definition joined :: world where
  "joined = after_calls (attaching_calls ''/r/s'' session_key 4096 65536 5 attaching) fingerprinted"

definition session_client :: ahe_broker_client where
  "session_client = AHE_BROKER_CLIENT_INITIALIZER\<lparr>k_socket_fd := 3, k_cache_fd := 5, k_lock_fd := 6,
     k_mapping := 65536, k_mapping_size := 4096, k_segment_allocation := 4096, k_creator := False,
     k_reattached := True, k_acquired := True\<rparr>"

lemma session_key_fits: "length session_key < AHE_BROKER_CACHE_KEY_SIZE"
  by code_simp

lemma session_create: "\<exists>o'. run_state (provider_create some_php enabled 4096) (world_of session_script) =
    ((ZEND_OPCACHE_SHM_SUCCESSFULLY_REATTACHED, enabled\<lparr>x_broker := session_client\<rparr>, o'), joined) \<and>
  out_segment o' = \<lparr>seg_size = 4096, seg_end = 4096, seg_pos = 0, seg_p = 65536\<rparr>"
proof -
  have s: "script fingerprinted = [returned 3, ok, ok, ok, peer_reply, stat_reply 0xC180, sent_reply, offer,
      ok\<lparr>r_addr := 65536\<rparr>, allocated] @ [ok, ok, ok, sent_reply, message_reply (answer_message Acknowledged)]"
    by (simp add: fingerprinted_def world_of_def session_script_def attaching_def)
  have u: "euid fingerprinted = user" by (simp add: fingerprinted_def world_of_def)
  have a: "run_state (ahe_broker_client_acquire AHE_BROKER_CLIENT_INITIALIZER ''/r/s'' session_key 4096 unset_outputs)
      fingerprinted = ((ZEND_OPCACHE_SHM_SUCCESSFULLY_REATTACHED, session_client,
        unset_outputs\<lparr>out_segments := 4096, out_count := 1,
          out_segment := \<lparr>seg_size = 4096, seg_end = 4096, seg_pos = 0, seg_p = 65536\<rparr>,
          out_globals := 65600\<rparr>), joined)"
    using run_acquire_attach_calls [OF session_key_fits _ _ s, of "''/r/s''" 4096 65536 64 "(5, 6)" 5 6
        AHE_BROKER_CLIENT_INITIALIZER unset_outputs] u
    by (simp add: joined_def session_client_def attaching_def AHE_BROKER_CLIENT_INITIALIZER_def ok_def peer_reply_def
        stat_reply_def sent_reply_def offer_def message_reply_def allocated_def broker_rejected_def private_socket_def
        is_socket_def user_def returned_def failed_def)
  have d: "run_state (ahe_opcache_configuration_digest (p_md5 some_php) (p_ini_directives some_php)) (world_of session_script) =
      (Some (digest_hex ''0123456789abcdef''), fingerprinted)"
    by (simp add: ahe_opcache_configuration_digest_def some_php_def fingerprint_entries_def is_opcache_entry_def
        OPCACHE_PREFIX_def sys_def next_reply_def note_call_def fingerprinted_def session_script_def world_of_def
        allocated_def)
  have e: "environ (world_of session_script) ''AHE_BROKER_SOCKET'' = Some ''/r/s''"
    "environ (world_of session_script) ''AHE_CACHE_NAMESPACE'' = None" "x_provider_enabled enabled"
    "x_broker enabled = AHE_BROKER_CLIENT_INITIALIZER"
    by (simp_all add: world_of_def enabled_def extension_initial_def)
  have k: "cache_key_text user ''default'' (case p_sapi_name some_php of Some name \<Rightarrow> name | None \<Rightarrow> ''unknown'')
      (p_system_id some_php) (digest_hex ''0123456789abcdef'') (p_execute_ex some_php) 4096 = session_key"
    by (simp add: session_key_def some_php_def)
  have "p_force_restart_timeout some_php = 0" by (simp add: some_php_def)
  with session_key_fits show ?thesis
    by (simp add: provider_create_def ahe_opcache_provider_def ahe_create_segments_def getenv_def geteuid_def e d u k
        env_or_def acquire_segments_def a)
qed

definition session_uses :: "opcache_call list" where
  "session_uses = [Startup_complete True 65600, Lock, Unlock]"

definition parted :: world where
  "parted = after_calls [(Fcntl_lock 6 F_WRLCK F_SETLKW, ok), (Fcntl_lock 6 F_UNLCK F_SETLK, ok), (Munmap 65536 4096, ok)] joined"

definition closed_down :: world where
  "closed_down = noted (Close 3) (noted (Close 6) (noted (Close 5) (noted (Free 4096)
     (after_calls (exchange_calls 3 (ahe_broker_message_init AHE_BROKER_DETACH) sent_reply
       (message_reply (answer_message Acknowledged))) parted))))"

definition session_run :: "extension \<times> world" where
  "session_run = run_state (provider_session some_php enabled 4096 session_uses (Some (8192, 64))) (world_of session_script)"

lemma joined_script: "script joined = [ok, ok, ok, sent_reply, message_reply (answer_message Acknowledged)]"
  by (simp add: joined_def fingerprinted_def attaching_calls_def connecting_calls_def exchange_calls_def
      mapping_calls_def session_script_def attaching_def world_of_def)

lemma session_use: "run_state (opcache_calls (provider_call some_php) (enabled\<lparr>x_broker := session_client\<rparr>) session_uses) joined =
    (enabled\<lparr>x_broker := session_client\<rparr>,
     after_calls [(Fcntl_lock 6 F_WRLCK F_SETLKW, ok), (Fcntl_lock 6 F_UNLCK F_SETLK, ok)] joined)"
  by (simp add: session_uses_def ahe_opcache_provider_def ahe_startup_complete_def ahe_lock_def ahe_unlock_def
      ahe_broker_client_lock_def ahe_broker_client_unlock_def ahe_broker_client_set_lock_def session_client_def
      run_sys_retry_ok next_reply_def joined_script ok_def)

lemma session_detach: "run_state (provider_detach some_php (enabled\<lparr>x_broker := session_client\<rparr>)
    (Some (8192, \<lparr>seg_size = 4096, seg_end = 4096, seg_pos = 64, seg_p = 65536\<rparr>)))
    (after_calls [(Fcntl_lock 6 F_WRLCK F_SETLKW, ok), (Fcntl_lock 6 F_UNLCK F_SETLK, ok)] joined) =
  ((ZEND_OPCACHE_SHM_PROVIDER_SUCCESS,
    enabled\<lparr>x_broker := session_client\<lparr>k_mapping := 0, k_mapping_size := 0\<rparr>\<rparr>), parted)"
  by (simp add: provider_detach_def ahe_opcache_provider_def ahe_detach_segment_def ahe_broker_client_detach_def
      sys_def next_reply_def joined_script session_client_def parted_def Let_def ok_def)

lemma session_shutdown: "\<exists>x'. run_state (v_shutdown (ahe_opcache_provider some_php)
    (enabled\<lparr>x_broker := session_client\<lparr>k_mapping := 0, k_mapping_size := 0\<rparr>\<rparr>)) parted = (x', closed_down)"
proof -
  let ?c = "session_client\<lparr>k_mapping := 0, k_mapping_size := 0\<rparr>"
  have "script parted = [sent_reply, message_reply (answer_message Acknowledged)] @ []"
    by (simp add: parted_def joined_script)
  from run_notify [OF _ this, of ?c AHE_BROKER_DETACH]
  have "run_state (ahe_broker_client_notify ?c AHE_BROKER_DETACH) parted =
      (0, after_calls (exchange_calls 3 (ahe_broker_message_init AHE_BROKER_DETACH) sent_reply
        (message_reply (answer_message Acknowledged))) parted)"
    by (simp add: session_client_def sent_reply_def message_reply_def)
  then show ?thesis
    by (simp add: ahe_opcache_provider_def ahe_provider_shutdown_def ahe_broker_client_shutdown_def
        session_client_def ahe_broker_client_close_descriptors_def close_fd_def note_call_def closed_down_def Let_def)
qed

lemma session_ran: "snd session_run = closed_down"
proof -
  obtain o' where "run_state (provider_create some_php enabled 4096) (world_of session_script) =
      ((ZEND_OPCACHE_SHM_SUCCESSFULLY_REATTACHED, enabled\<lparr>x_broker := session_client\<rparr>, o'), joined)"
    and "out_segment o' = \<lparr>seg_size = 4096, seg_end = 4096, seg_pos = 0, seg_p = 65536\<rparr>"
    using session_create by blast
  with session_use session_detach session_shutdown show ?thesis
    by (auto simp: session_run_def provider_session_def opcache_session_def)
qed

theorem provider_session_releases_everything_witness:
  "Munmap 65536 4096 \<in> fst ` set (history (snd session_run)) \<and> Fcntl_lock 6 F_WRLCK F_SETLKW \<in> fst ` set (history (snd session_run)) \<and>
   closes_owned (history (snd session_run)) \<and> open_fds (history (snd session_run)) = {} \<and>
   unmaps_owned (history (snd session_run)) \<and> mapped (history (snd session_run)) = {#}"
proof -
  note history = session_ran closed_down_def parted_def joined_def fingerprinted_def attaching_calls_def connecting_calls_def
    exchange_calls_def mapping_calls_def attaching_def world_of_def
  note replies = ok_def returned_def failed_def peer_reply_def stat_reply_def sent_reply_def offer_def message_reply_def
    allocated_def
  have k: "kernel_ok (history (snd session_run))"
    by (simp add: history) (simp add: replies is_rights_def rights_fds_def)
  have m: "list_all memory_ok (history (snd session_run))"
    by (simp add: history) (simp add: replies)
  have e: "Munmap 65536 4096 \<in> fst ` set (history (snd session_run))"
    "Fcntl_lock 6 F_WRLCK F_SETLKW \<in> fst ` set (history (snd session_run))"
    by (simp_all add: history)
  have "history (world_of session_script) = []" "released (x_broker enabled)" "(4096 :: usize) \<noteq> 0"
    by (simp_all add: world_of_def enabled_def extension_initial_def)
  from provider_session_releases_everything [OF this, of some_php session_uses "Some (8192, 64)"] k m e show ?thesis
    by (auto simp: wp_def session_run_def split: prod.splits)
qed

text \<open>
  C17. Nothing is announced but the truth about this process: all that creating the segments
  sends is a request, only when the provider is enabled, forced restarts are off and a broker
  is configured; it asks for the key made of this process's own user, namespace, SAPI,
  system identifier, OPcache configuration, executor address and requested size, which fits
  the message with its terminator, and it goes to a broker that had passed the check at the
  configured path.
\<close>

theorem segments_ask_for_own_key:
  assumes "released (x_broker x)"
  shows "wp (ahe_create_segments php x sz) (\<lambda>_ w'. \<forall>s \<in> sends (history w'). s \<in> sends (history w) \<or>
    (\<exists>f path digest key. x_provider_enabled x \<and> p_force_restart_timeout php = 0 \<and>
       environ w ''AHE_BROKER_SOCKET'' = Some path \<and> path \<noteq> [] \<and>
       configuration_digest_of php = Some digest \<and>
       key = cache_key_text (euid w) (env_or (environ w ''AHE_CACHE_NAMESPACE'') ''default'')
         (case p_sapi_name php of Some name \<Rightarrow> name | None \<Rightarrow> ''unknown'') (p_system_id php) digest
         (p_execute_ex php) sz \<and>
       length key < AHE_BROKER_CACHE_KEY_SIZE \<and>
       s = (f, encode_message (acquire_request key sz), []) \<and>
       broker_trusted path f w w')) w"
proof (rule wp_mono [OF wp_create_segments [OF assms]], rule ballI)
  fix r w' s
  assume c: "create_post php x sz w r w'" and s: "s \<in> sends (history w')"
  obtain res c' o' where r: "r = (res, c', o')" by (cases r) auto
  from c s have "s \<in> sends (history w) \<or>
        (\<exists>f path digest. x_provider_enabled x \<and> p_force_restart_timeout php = 0 \<and>
           environ w ''AHE_BROKER_SOCKET'' = Some path \<and> path \<noteq> [] \<and>
           configuration_digest_of php = Some digest \<and> length (segment_key php w digest sz) < AHE_BROKER_CACHE_KEY_SIZE \<and>
           s = (f, encode_message (acquire_request (segment_key php w digest sz) sz), []) \<and>
           broker_trusted path f w w')"
    unfolding create_post_def r prod.case by blast
  then show "s \<in> sends (history w) \<or>
    (\<exists>f path digest key. x_provider_enabled x \<and> p_force_restart_timeout php = 0 \<and>
       environ w ''AHE_BROKER_SOCKET'' = Some path \<and> path \<noteq> [] \<and>
       configuration_digest_of php = Some digest \<and>
       key = cache_key_text (euid w) (env_or (environ w ''AHE_CACHE_NAMESPACE'') ''default'')
         (case p_sapi_name php of Some name \<Rightarrow> name | None \<Rightarrow> ''unknown'') (p_system_id php) digest
         (p_execute_ex php) sz \<and>
       length key < AHE_BROKER_CACHE_KEY_SIZE \<and>
       s = (f, encode_message (acquire_request key sz), []) \<and>
       broker_trusted path f w w')"
    unfolding segment_key_def by blast
qed

text \<open>A broker that answers the request, so that one is really sent.\<close>

definition answering :: "reply list" where
  "answering = [allocated, returned 3, ok, ok, ok, peer_reply, stat_reply 0xC180, failed EIO]"

definition asked :: "(int \<times> ahe_broker_client \<times> segment_outputs) \<times> world" where
  "asked = run_state (ahe_create_segments some_php enabled 4096) (world_of answering)"

theorem segments_ask_for_own_key_witness:
  "released (x_broker enabled) \<and> (\<exists>f path key. (f, encode_message (acquire_request key 4096), []) \<in> sends (history (snd asked)) \<and>
     environ (world_of answering) ''AHE_BROKER_SOCKET'' = Some path \<and>
     broker_trusted path f (world_of answering) (snd asked))"
proof -
  have rel: "released (x_broker enabled)" by (simp add: enabled_def extension_initial_def)
  have "concat (map sent_of (history (snd asked))) \<noteq> []" by code_simp
  then obtain s where s: "s \<in> sends (history (snd asked))"
    unfolding sends_def by (metis hd_in_set)
  have n: "s \<notin> sends (history (world_of answering))" by (simp add: sends_def world_of_def)
  obtain r where a: "asked = (r, snd asked)" by (metis surjective_pairing)
  from wp_runD [OF segments_ask_for_own_key [OF rel] a [unfolded asked_def]] s n
  obtain f path key where "s = (f, encode_message (acquire_request key 4096), [])"
    "environ (world_of answering) ''AHE_BROKER_SOCKET'' = Some path"
    "broker_trusted path f (world_of answering) (snd asked)"
    unfolding asked_def by blast
  with rel s show ?thesis by blast
qed

text \<open>
  C15. Refusing is quiet: when the provider is not enabled, no broker is configured, forced
  restarts are on, PHP has no table of settings or no setting of OPcache in it, or the key would
  not fit,
  creating the segments fails with the client as it was, having done nothing but allocate and
  free memory: no connection, no message, no descriptor, no mapping. A reason is reported
  exactly when a broker is configured and the provider enabled.
\<close>

theorem early_refusal_is_silent:
  assumes "\<not> x_provider_enabled x \<or> env_or (environ w ''AHE_BROKER_SOCKET'') [] = [] \<or>
    p_force_restart_timeout php \<noteq> 0 \<or> p_ini_directives php = None \<or>
    (\<exists>table. p_ini_directives php = Some table \<and> list_all (\<lambda>e. \<not> is_opcache_entry e) table) \<or>
    (\<exists>digest. configuration_digest_of php = Some digest \<and>
       AHE_BROKER_CACHE_KEY_SIZE \<le> length (segment_key php w digest sz))"
  shows "wp (ahe_create_segments php x sz) (\<lambda>(res, c', o') w'.
    res = ZEND_OPCACHE_SHM_ALLOC_FAILURE \<and> c' = x_broker x \<and>
    only_calls allocates w w' \<and> out_segments o' = 0 \<and>
    (out_error o' \<noteq> None \<longleftrightarrow> x_provider_enabled x \<and> env_or (environ w ''AHE_BROKER_SOCKET'') [] \<noteq> [])) w"
proof -
  have digest: "wp (ahe_opcache_configuration_digest (p_md5 php) (p_ini_directives php))
      (\<lambda>d w'. only_calls allocates w w' \<and> undisturbed w w' \<and> (d = None \<or> d = configuration_digest_of php)) w"
    by (rule wp_conjI [OF calls_wp [OF calls_configuration_digest] wp_configuration_digest])
  have reasons: "\<not> x_provider_enabled x \<or> env_or (environ w ''AHE_BROKER_SOCKET'') [] = [] \<or>
    p_force_restart_timeout php \<noteq> 0 \<or> configuration_digest_of php = None \<or>
    (\<exists>digest. configuration_digest_of php = Some digest \<and>
       AHE_BROKER_CACHE_KEY_SIZE \<le> length (segment_key php w digest sz))"
    using assms configuration_digest_of_None_iff by blast
  show ?thesis
  proof (cases "x_provider_enabled x \<and> env_or (environ w ''AHE_BROKER_SOCKET'') [] \<noteq> [] \<and> p_force_restart_timeout php = 0")
    case False
    then show ?thesis
      by (auto simp: ahe_create_segments_def wp_bind wp_getenv wp_return segments_refused_def unset_outputs_def)
  next
    case True
    show ?thesis
      unfolding ahe_create_segments_def
      by (simp add: True wp_bind wp_getenv, rule wp_mono [OF digest])
        (use True reasons in \<open>auto simp: wp_geteuid wp_bind wp_return segments_refused_def unset_outputs_def Let_def
          segment_key_def undisturbed_def quiet_def split: option.splits\<close>)
  qed
qed

text \<open>A PHP whose settings hold none of OPcache: refused, with a reason.\<close>

definition unset_php :: php where
  "unset_php = some_php\<lparr>p_ini_directives := Some [\<lparr>ini_name = Some ''memory_limit'', ini_value = Some ''1G''\<rparr>]\<rparr>"

definition refused_run :: "(int \<times> ahe_broker_client \<times> segment_outputs) \<times> world" where
  "refused_run = run_state (ahe_create_segments unset_php enabled 4096) (world_of answering)"

theorem early_refusal_is_silent_witness:
  "fst (fst refused_run) = ZEND_OPCACHE_SHM_ALLOC_FAILURE \<and> out_error (snd (snd (fst refused_run))) \<noteq> None \<and>
   only_calls allocates (world_of answering) (snd refused_run)"
proof -
  obtain res c o' w where a: "refused_run = ((res, c, o'), w)" by (metis prod_cases3 surj_pair)
  have "wp (ahe_create_segments unset_php enabled 4096) (\<lambda>(res, c', o') w'.
      res = ZEND_OPCACHE_SHM_ALLOC_FAILURE \<and> c' = x_broker enabled \<and>
      only_calls allocates (world_of answering) w' \<and> out_segments o' = 0 \<and>
      (out_error o' \<noteq> None \<longleftrightarrow> x_provider_enabled enabled \<and>
        env_or (environ (world_of answering) ''AHE_BROKER_SOCKET'') [] \<noteq> [])) (world_of answering)"
    by (rule early_refusal_is_silent) (simp add: unset_php_def is_opcache_entry_def OPCACHE_PREFIX_def)
  from wp_runD [OF this a [unfolded refused_run_def]] show ?thesis
    by (simp add: a enabled_def world_of_def env_or_def)
qed

text \<open>
  C16. Publishing tells the broker where the shared globals really are: the client becomes
  ready only after a \<open>READY\<close> request, the only thing it sends, that names its own mapping and an
  offset which leads from its base to the globals without wrapping and stays inside, and
  only by an acknowledgement that came in meanwhile on its connection; a client that did not create
  the cache, or whose globals lie outside, sends nothing.
\<close>

theorem publish_names_the_globals:
  "wp (ahe_broker_client_publish c globals) (\<lambda>(res, c') w'.
     res = -1 \<and> c' = c \<and> (w' = w \<or> publishable c globals) \<or>
     res = 0 \<and> c' = c\<lparr>k_ready := True, k_segment_allocation := 0\<rparr> \<and> k_creator c \<and>
       (\<exists>ack. heard (k_socket_fd c) ack w w' \<and> m_type ack = AHE_BROKER_ACK) \<and>
       (\<exists>m. sends (history w') = insert (k_socket_fd c, encode_message m, []) (sends (history w)) \<and>
          m_type m = AHE_BROKER_READY \<and> m_mapping_size m = k_mapping_size c \<and>
          m_mapping_base m = k_mapping c \<and> k_mapping c \<noteq> 0 \<and>
          m_shared_globals_offset m < k_mapping_size c \<and>
          unat (k_mapping c) + unat (m_shared_globals_offset m) = unat globals)) w"
proof (rule wp_publish, goal_cases refused failed published)
  case (published ack w')
  have "k_mapping c \<le> globals" using published(1) by (simp add: publishable_def not_less)
  then have u: "unat (globals - k_mapping c) = unat globals - unat (k_mapping c)" by (rule unat_sub)
  have "unat (k_mapping c) \<le> unat globals" using \<open>k_mapping c \<le> globals\<close> by (simp add: word_le_nat_alt)
  with u published have "\<exists>m. sends (history w') = insert (k_socket_fd c, encode_message m, []) (sends (history w)) \<and>
      m_type m = AHE_BROKER_READY \<and> m_mapping_size m = k_mapping_size c \<and>
      m_mapping_base m = k_mapping c \<and> k_mapping c \<noteq> 0 \<and>
      m_shared_globals_offset m < k_mapping_size c \<and>
      unat (k_mapping c) + unat (m_shared_globals_offset m) = unat globals"
    by (intro exI [of _ "ready_request c globals"])
      (auto simp: told_def publishable_def ready_request_def not_le)
  with published show ?case by (auto simp: publishable_def)
qed simp_all

text \<open>
  C18. Descriptors that arrive with a message are never lost and never overrun the caller's
  array: whatever the peer sends, the caller gets at most as many as it has room for,
  and every descriptor the kernel delivered is either among them or closed; a message that
  is too short, truncated, or not of this protocol yields none.
\<close>

theorem received_descriptors_accounted_for:
  "wp (ahe_client_receive_message f cap) (\<lambda>(res, m, fds) w'. length fds \<le> cap \<and>
     (\<forall>F. holds F w \<longrightarrow> holds (mset fds + F) w') \<and> sends (history w') = sends (history w) \<and>
     (res = -1 \<and> fds = [] \<or> res = 0 \<and> heard f m w w' \<and> m_magic m = AHE_BROKER_PROTOCOL_MAGIC \<and>
       m_version m = AHE_BROKER_PROTOCOL_VERSION)) w"
proof (rule wp_client_receive_message, goal_cases)
  case (1 res m fds w')
  from 1(5) have "res = 0 \<Longrightarrow> m_magic m = AHE_BROKER_PROTOCOL_MAGIC \<and> m_version m = AHE_BROKER_PROTOCOL_VERSION"
    by (auto simp: heard_def message_accepted_def)
  with 1 show ?case by (auto simp: quiet_def)
qed

text \<open>Three descriptors where there is room for two: all three are closed.\<close>

definition too_many :: reply where
  "too_many = (returned 296)\<lparr>r_ctl := [\<lparr>cmsg_level = 1, cmsg_type = 1, cmsg_len = 28, cmsg_fds = [5, 6, 7]\<rparr>]\<rparr>"

definition overfull :: "(int \<times> ahe_broker_message \<times> fd list) \<times> world" where
  "overfull = run_state (ahe_client_receive_message 3 2) (world_of [too_many])"

theorem received_descriptors_accounted_for_witness:
  "kernel_ok (history (snd overfull)) \<and> holds {#} (snd overfull) \<and> snd (snd (fst overfull)) = [] \<and>
   map fst (take 3 (history (snd overfull))) = [Close 7, Close 6, Close 5]"
proof -
  have k: "kernel_ok (history (snd overfull)) \<and> snd (snd (fst overfull)) = [] \<and>
      map fst (take 3 (history (snd overfull))) = [Close 7, Close 6, Close 5]" by code_simp
  have h: "holds {#} (world_of [too_many])" by (simp add: holds_def world_of_def)
  from received_descriptors_accounted_for [of 3 2 "world_of [too_many]"] h k show ?thesis
    by (auto simp: wp_def overfull_def split: prod.splits)
qed

text \<open>
  C14. Connecting either fails with nothing left open, or returns a connection whose other end
  the kernel reported to be a live process of this user, over a socket file of this user
  with mode exactly 0600; nothing has been sent yet.
\<close>

theorem connection_is_trusted:
  "wp (ahe_broker_connect path) (\<lambda>f w'. sends (history w') = sends (history w) \<and>
     (f = -1 \<and> (\<forall>F. holds F w \<longrightarrow> holds F w') \<or>
      0 \<le> f \<and> (\<forall>F. holds F w \<longrightarrow> holds (add_mset f F) w') \<and> (\<exists>c s.
        (Getsockopt_peercred f, c) \<in> since w w' \<and> 0 \<le> r_ret c \<and> 0 < cr_pid (r_cred c) \<and>
        cr_uid (r_cred c) = euid w \<and> (Lstat path, s) \<in> since w w' \<and> 0 \<le> r_ret s \<and>
        is_socket (st_mode (r_stat s)) \<and> st_uid (r_stat s) = euid w \<and>
        st_mode (r_stat s) AND 0x1FF = 0x180))) w"
proof (rule wp_connect, goal_cases connected failed)
  case (connected f w')
  from connected(4) obtain c s where in_history: "(Getsockopt_peercred f, c) \<in> since w w'"
      "(Lstat path, s) \<in> since w w'" "0 \<le> r_ret s"
    and "\<not> broker_rejected (euid w) c" and "private_socket (euid w) (r_stat s)" unfolding broker_trusted_def by blast
  then have "0 \<le> r_ret c" "0 < cr_pid (r_cred c)" "cr_uid (r_cred c) = euid w"
    "is_socket (st_mode (r_stat s))" "st_uid (r_stat s) = euid w" "st_mode (r_stat s) AND 0x1FF = 0x180"
    by (simp_all add: broker_rejected_def private_socket_def not_less not_le)
  moreover have "sends (history w') = sends (history w)" using connected(2) by (simp add: quiet_def)
  ultimately show ?case using connected(1,3) in_history by blast
qed (auto simp: quiet_def)

definition connected_demo :: "fd \<times> world" where
  "connected_demo = run_state (ahe_broker_connect ''/r/s'')
     (world_of [returned 3, ok, ok, ok, peer_reply, stat_reply 0xC180])"

theorem connection_is_trusted_witness:
  "fst connected_demo = 3 \<and> holds {#3#} (snd connected_demo) \<and> sends (history (snd connected_demo)) = {}"
proof -
  have f: "fst connected_demo = 3" by code_simp
  have "holds {#} (world_of [returned 3, ok, ok, ok, peer_reply, stat_reply 0xC180]) \<and>
      sends (history (world_of [returned 3, ok, ok, ok, peer_reply, stat_reply 0xC180])) = {}"
    by (simp add: holds_def world_of_def)
  with connection_is_trusted [of "''/r/s''" "world_of [returned 3, ok, ok, ok, peer_reply, stat_reply 0xC180]"] f
  show ?thesis by (auto simp: wp_def connected_demo_def split: prod.splits)
qed

text \<open>
  C27. Detaching the client's own segment hands the mapping over once: when the region was
  unmapped the client no longer records a mapping, so shutting down cannot unmap it again;
  when it could not be unmapped the client is unchanged.
\<close>

theorem detach_hands_mapping_over_once:
  assumes "seg_p segment = k_mapping c" and "seg_size segment = k_mapping_size c"
    and "k_mapping c \<noteq> 0" and "k_mapping_size c \<noteq> 0"
  shows "wp (ahe_broker_client_detach c (Some (address, segment))) (\<lambda>(res, c') w'.
    (\<forall>F. holds F w \<longrightarrow> holds F w') \<and> client_owned c' = client_owned c \<and>
    (\<forall>M. maps (client_maps c + M) w \<longrightarrow> maps (client_maps c' + M) w') \<and>
    (res = ZEND_OPCACHE_SHM_PROVIDER_SUCCESS \<and> k_mapping c' = 0 \<or>
     res = ZEND_OPCACHE_SHM_PROVIDER_FAILURE \<and> c' = c)) w"
  by (rule wp_detach [OF assms(1,2)])

definition mapped_client :: ahe_broker_client where
  "mapped_client = AHE_BROKER_CLIENT_INITIALIZER\<lparr>k_mapping := 65536, k_mapping_size := 4096\<rparr>"

definition own_segment :: ahe_opcache_shm_segment where
  "own_segment = \<lparr>seg_size = 4096, seg_end = 4096, seg_pos = 0, seg_p = 65536\<rparr>"

definition mapped_world :: world where
  "mapped_world = (world_of [ok])\<lparr>history := [(Mmap 0 4096 1 5, ok\<lparr>r_addr := 65536\<rparr>)]\<rparr>"

definition detached_demo :: "(int \<times> ahe_broker_client) \<times> world" where
  "detached_demo = run_state (ahe_broker_client_detach mapped_client (Some (8, own_segment))) mapped_world"

theorem detach_hands_mapping_over_once_witness:
  "fst (fst detached_demo) = 0 \<and> k_mapping (snd (fst detached_demo)) = 0 \<and> maps {#} (snd detached_demo)"
proof -
  have f: "fst (fst detached_demo) = 0" by code_simp
  have m: "maps (client_maps mapped_client + {#}) mapped_world"
    by (simp add: maps_def mapped_def mapped_world_def client_maps_def mapped_client_def)
  have "seg_p own_segment = k_mapping mapped_client" "seg_size own_segment = k_mapping_size mapped_client"
    "k_mapping mapped_client \<noteq> 0" "k_mapping_size mapped_client \<noteq> 0"
    by (simp_all add: own_segment_def mapped_client_def)
  from detach_hands_mapping_over_once [OF this, of 8 mapped_world] f m show ?thesis
    by (fastforce simp: wp_def detached_demo_def client_maps_def split: prod.splits)
qed

text \<open>
  C33. The shared lock is reported taken exactly when it was taken: after any number of
  interrupted attempts, each failed with \<open>EINTR\<close>, the last attempt on the client's own lock
  descriptor decides; without a descriptor no call is made.
\<close>

theorem lock_reports_last_attempt:
  "wp (ahe_broker_client_lock c) (\<lambda>res w'.
     k_lock_fd c < 0 \<and> w' = w \<and> res = ZEND_OPCACHE_SHM_PROVIDER_FAILURE \<or>
     0 \<le> k_lock_fd c \<and> (\<exists>r interrupted_attempts.
       history w' = (Fcntl_lock (k_lock_fd c) F_WRLCK F_SETLKW, r) #
         map (Pair (Fcntl_lock (k_lock_fd c) F_WRLCK F_SETLKW)) interrupted_attempts @ history w \<and>
       list_all (\<lambda>a. r_ret a < 0 \<and> r_errno a = EINTR) interrupted_attempts \<and>
       (0 \<le> r_ret r \<or> r_errno r \<noteq> EINTR) \<and>
       res = (if r_ret r = 0 then ZEND_OPCACHE_SHM_PROVIDER_SUCCESS else ZEND_OPCACHE_SHM_PROVIDER_FAILURE))) w"
  unfolding ahe_broker_client_lock_def
proof (rule wp_set_lock, goal_cases none held)
  case (held r w')
  then obtain fs where "history w' = (Fcntl_lock (k_lock_fd c) F_WRLCK F_SETLKW, r) #
      map (Pair (Fcntl_lock (k_lock_fd c) F_WRLCK F_SETLKW)) fs @ history w"
    and fs: "\<forall>f \<in> set fs. retried interrupted w f"
    and "r_ret r < 0 \<longrightarrow> w_errno w' = r_errno r \<and> \<not> interrupted w'"
    by (auto simp: retry_post_def)
  moreover from this(3) have "0 \<le> r_ret r \<or> r_errno r \<noteq> EINTR" by (cases "r_ret r < 0") (auto simp: interrupted_def)
  moreover have "list_all (\<lambda>a. r_ret a < 0 \<and> r_errno a = EINTR) fs"
    using fs by (auto simp: list_all_iff dest: retried_interrupted)
  ultimately show ?case using held(1)
    by - (rule disjI2, intro conjI exI [of _ r] exI [of _ fs], simp_all)
qed simp

definition lock_client :: ahe_broker_client where
  "lock_client = AHE_BROKER_CLIENT_INITIALIZER\<lparr>k_lock_fd := 6\<rparr>"

definition locked_demo :: "int \<times> world" where
  "locked_demo = run_state (ahe_broker_client_lock lock_client) (world_of [failed EINTR, ok])"

theorem lock_reports_last_attempt_witness:
  "fst locked_demo = 0 \<and> (\<exists>r. r_ret r = 0 \<and> (Fcntl_lock 6 F_WRLCK F_SETLKW, r) \<in> set (history (snd locked_demo)))"
proof -
  have f: "fst locked_demo = 0" by code_simp
  from lock_reports_last_attempt [of lock_client "world_of [failed EINTR, ok]"] f show ?thesis
    by (fastforce simp: wp_def locked_demo_def lock_client_def split: prod.splits if_splits)
qed


section \<open>The identity of a cache\<close>

lemma mapped_sort_entries:
  "map (\<lambda>e. (fst e, shown_value e)) (sort_entries es) =
   sort_key (\<lambda>p. cstr (fst p)) (map (\<lambda>e. (fst e, shown_value e)) es)"
proof (rule sym, rule properties_for_sort_key)
  let ?f = "\<lambda>e. (fst e, shown_value e)" and ?k = "\<lambda>p :: string \<times> string. cstr (fst p)"
  have k: "?k \<circ> ?f = (\<lambda>e. cstr (fst e))" by (simp add: comp_def)
  show "mset (map ?f (sort_entries es)) = mset (map ?f es)" by (simp add: sort_entries_def)
  show "sorted (map ?k (map ?f (sort_entries es)))" by (simp add: sort_entries_def k)
  fix p :: "string \<times> string"
  have "filter (\<lambda>e. cstr (fst p) = cstr (fst e)) (sort_entries es) = filter (\<lambda>e. cstr (fst p) = cstr (fst e)) es"
    unfolding sort_entries_def eq_commute [of "cstr (fst p)"] by (rule sort_key_stable)
  then show "filter (\<lambda>q. ?k p = ?k q) (map ?f (sort_entries es)) = filter (\<lambda>q. ?k p = ?k q) (map ?f es)"
    by (simp add: filter_map comp_def)
qed

lemma digest_input_shown:
  "map (\<lambda>e. (fst e, shown_value e)) es = map (\<lambda>e. (fst e, shown_value e)) es' \<Longrightarrow>
   digest_input es = digest_input es'"
proof -
  have d: "digest_input es = concat (map (\<lambda>(n, v). ahe_md5_update_field n @ ahe_md5_update_field v)
      (map (\<lambda>e. (fst e, shown_value e)) es))" for es
    by (simp add: digest_input_def entry_bytes_def [abs_def] shown_value_def comp_def)
  assume "map (\<lambda>e. (fst e, shown_value e)) es = map (\<lambda>e. (fst e, shown_value e)) es'"
  then show ?thesis by (simp only: d)
qed

text \<open>
  C28. What is fed to MD5 identifies the OPcache settings: for two tables of settings, whose
  names are distinct, the digested bytes agree exactly when the tables hold the same
  \<open>opcache.*\<close> names with the same values (no value counting as the empty one), in
  whatever order the hash tables list them.
\<close>

theorem digest_identifies_settings:
  assumes "distinct (map (\<lambda>e. cstr (fst e)) (fingerprint_entries table))"
    and "distinct (map (\<lambda>e. cstr (fst e)) (fingerprint_entries table'))"
    and "\<forall>e \<in> set (fingerprint_entries table). entry_fits e"
    and "\<forall>e \<in> set (fingerprint_entries table'). entry_fits e"
  shows "digest_input (sort_entries (fingerprint_entries table)) =
      digest_input (sort_entries (fingerprint_entries table')) \<longleftrightarrow>
    (\<lambda>e. (fst e, shown_value e)) ` set (fingerprint_entries table) =
      (\<lambda>e. (fst e, shown_value e)) ` set (fingerprint_entries table')"
proof
  let ?f = "\<lambda>e. (fst e, shown_value e)"
  let ?es = "fingerprint_entries table" and ?es' = "fingerprint_entries table'"
  have s: "set (sort_entries es) = set es" for es by (simp add: sort_entries_def)
  {
    assume "digest_input (sort_entries ?es) = digest_input (sort_entries ?es')"
    then have "map ?f (sort_entries ?es) = map ?f (sort_entries ?es')"
      by (rule digest_input_injective) (use assms(3,4) in \<open>simp_all add: s\<close>)
    then have "set (map ?f (sort_entries ?es)) = set (map ?f (sort_entries ?es'))" by simp
    then show "?f ` set ?es = ?f ` set ?es'" by (simp add: s)
  next
    assume "?f ` set ?es = ?f ` set ?es'"
    then have st: "set (map ?f ?es) = set (map ?f ?es')" by simp
    have d: "distinct (map ?f es)" if "distinct (map (\<lambda>e. cstr (fst e)) es)" for es :: "fingerprint_entry list"
      using that by (auto simp: distinct_map inj_on_def)
    have m: "mset (map ?f ?es) = mset (map ?f ?es')"
      using st d [OF assms(1)] d [OF assms(2)] set_eq_iff_mset_eq_distinct by blast
    have "map (\<lambda>p. cstr (fst p)) (map ?f ?es) = map (\<lambda>e. cstr (fst e)) ?es" by simp
    with assms(1) have "distinct (map (\<lambda>p. cstr (fst p)) (map ?f ?es))" by metis
    from sort_key_order [OF m this] have "map ?f (sort_entries ?es) = map ?f (sort_entries ?es')"
      by (simp only: mapped_sort_entries)
    then show "digest_input (sort_entries ?es) = digest_input (sort_entries ?es')" by (rule digest_input_shown)
  }
qed

text \<open>The same two settings in both orders, beside settings of other extensions.\<close>

definition setting :: "string \<Rightarrow> string option \<Rightarrow> ini_entry" where
  "setting name value = \<lparr>ini_name = Some name, ini_value = value\<rparr>"

definition one_order :: "ini_entry list" where
  "one_order = [setting ''opcache.enable'' (Some ''1''), setting ''memory_limit'' (Some ''1G''),
     setting ''opcache.preload'' None]"

definition other_order :: "ini_entry list" where
  "other_order = [setting ''opcache.preload'' (Some []), setting ''opcache.enable'' (Some ''1'')]"

theorem digest_identifies_settings_witness:
  "digest_input (sort_entries (fingerprint_entries one_order)) =
   digest_input (sort_entries (fingerprint_entries other_order))"
proof -
  have es: "fingerprint_entries one_order = [(''opcache.enable'', Some ''1''), (''opcache.preload'', None)]"
    "fingerprint_entries other_order = [(''opcache.preload'', Some []), (''opcache.enable'', Some ''1'')]"
    by code_simp+
  have "distinct (map (\<lambda>e. cstr (fst e)) (fingerprint_entries one_order))"
    "distinct (map (\<lambda>e. cstr (fst e)) (fingerprint_entries other_order))" by code_simp+
  moreover have "\<forall>e \<in> set (fingerprint_entries one_order). entry_fits e"
    "\<forall>e \<in> set (fingerprint_entries other_order). entry_fits e"
    unfolding es by (simp_all add: entry_fits_def shown_value_def)
  ultimately show ?thesis
    by (rule digest_identifies_settings [THEN iffD2]) (auto simp: es shown_value_def)
qed

section \<open>Startup and launch\<close>

definition announced ::
  "php \<Rightarrow> (u64 \<Rightarrow> string \<Rightarrow> (ahe_opcache_shm_provider \<Rightarrow> int) option)
     \<Rightarrow> (int \<times> zend_extension option) list \<Rightarrow> extension" where
  "announced php fetch messages =
     fold (\<lambda>(message, arg) x. ahe_message_handler php fetch x message arg) messages extension_initial"

definition announces_opcache :: "int \<times> zend_extension option \<Rightarrow> bool" where
  "announces_opcache m \<longleftrightarrow> fst m = ZEND_EXTMSG_NEW_EXTENSION \<and>
     (\<exists>e. snd m = Some e \<and> z_name e = OPCACHE_NAME)"

definition accepts_provider ::
  "php \<Rightarrow> (u64 \<Rightarrow> string \<Rightarrow> (ahe_opcache_shm_provider \<Rightarrow> int) option)
     \<Rightarrow> int \<times> zend_extension option \<Rightarrow> bool" where
  "accepts_provider php fetch m \<longleftrightarrow> announces_opcache m \<and> (\<exists>e register. snd m = Some e \<and> z_handle e \<noteq> 0 \<and>
     fetch (z_handle e) REGISTER_SYMBOL = Some register \<and>
     register (ahe_opcache_provider php) = ZEND_OPCACHE_SHM_PROVIDER_SUCCESS)"

lemma announced_flags:
  "x_opcache_seen (fold (\<lambda>(message, arg) x. ahe_message_handler php fetch x message arg) ms x) \<longleftrightarrow>
     x_opcache_seen x \<or> (\<exists>m \<in> set ms. announces_opcache m)"
  "x_provider_registered (fold (\<lambda>(message, arg) x. ahe_message_handler php fetch x message arg) ms x) \<longleftrightarrow>
     x_provider_registered x \<or> (\<exists>m \<in> set ms. accepts_provider php fetch m)"
  "x_provider_enabled (fold (\<lambda>(message, arg) x. ahe_message_handler php fetch x message arg) ms x) =
     x_provider_enabled x"
  by (induction ms arbitrary: x)
    (auto simp: ahe_message_handler_def announces_opcache_def accepts_provider_def Let_def split: if_splits option.splits)

text \<open>
  C29. The provider is switched on only when it can work: after any messages of the engine,
  startup either fails and leaves the provider off, or succeeds, and then some announced
  OPcache accepted the provider (and this extension's handle is cleared, so that it is never
  unloaded) unless no OPcache was announced or loaded at all, and, when a broker is
  configured or the launcher promised it, the kernel reported address randomisation off.
  Startup opens, maps and sends nothing.
\<close>

theorem startup_gates_provider:
  "wp (ahe_startup loaded (announced php fetch messages) self) (\<lambda>(r, x', self') w'.
     (\<forall>F. holds F w \<longrightarrow> holds F w') \<and> sends (history w') = sends (history w) \<and>
     (r = FAILURE \<and> \<not> x_provider_enabled x' \<or>
      r = SUCCESS \<and> x_provider_enabled x' \<and>
        ((\<exists>m \<in> set messages. accepts_provider php fetch m) \<and> z_handle self' = 0 \<or>
         \<not> (\<exists>m \<in> set messages. announces_opcache m) \<and> OPCACHE_NAME \<notin> z_name ` set loaded) \<and>
        (environ w ''AHE_EXPECT_NO_ASLR'' = None \<and> env_or (environ w ''AHE_BROKER_SOCKET'') [] = [] \<or>
         (\<exists>p. (Personality READ_PERSONALITY, p) \<in> since w w' \<and> no_randomize (r_ret p))))) w"
proof (rule wp_mono [OF wp_startup])
  fix r :: "int \<times> extension \<times> zend_extension" and w'
  obtain res x' self' where r: "r = (res, x', self')" by (cases r) auto
  have f: "x_opcache_seen (announced php fetch messages) \<longleftrightarrow> (\<exists>m \<in> set messages. announces_opcache m)"
    "x_provider_registered (announced php fetch messages) \<longleftrightarrow> (\<exists>m \<in> set messages. accepts_provider php fetch m)"
    "\<not> x_provider_enabled (announced php fetch messages)"
    by (simp_all add: announced_def announced_flags extension_initial_def)
  assume "startup_post loaded (announced php fetch messages) w r w'"
  then show "(\<lambda>(r, x', self') w'.
     (\<forall>F. holds F w \<longrightarrow> holds F w') \<and> sends (history w') = sends (history w) \<and>
     (r = FAILURE \<and> \<not> x_provider_enabled x' \<or>
      r = SUCCESS \<and> x_provider_enabled x' \<and>
        ((\<exists>m \<in> set messages. accepts_provider php fetch m) \<and> z_handle self' = 0 \<or>
         \<not> (\<exists>m \<in> set messages. announces_opcache m) \<and> OPCACHE_NAME \<notin> z_name ` set loaded) \<and>
        (environ w ''AHE_EXPECT_NO_ASLR'' = None \<and> env_or (environ w ''AHE_BROKER_SOCKET'') [] = [] \<or>
         (\<exists>p. (Personality READ_PERSONALITY, p) \<in> since w w' \<and> no_randomize (r_ret p))))) r w'"
    unfolding r startup_post_def prod.case f aslr_verified_def undisturbed_def quiet_def
    by (cases "res = SUCCESS") (use f(3) in \<open>simp_all, blast+\<close>)
qed

text \<open>OPcache announces itself, accepts, and the personality has the bit.\<close>

definition opcache :: zend_extension where
  "opcache = \<lparr>z_name = OPCACHE_NAME, z_handle = 4096\<rparr>"

definition accept_version_2 :: "u64 \<Rightarrow> string \<Rightarrow> (ahe_opcache_shm_provider \<Rightarrow> int) option" where
  "accept_version_2 handle symbol = Some (\<lambda>v. if v_abi_version v = 2 \<and> v_struct_size v = 96 then 0 else -1)"

definition started :: "(int \<times> extension \<times> zend_extension) \<times> world" where
  "started = run_state (ahe_startup [opcache] (announced some_php accept_version_2 [(1, Some opcache)]) \<lparr>z_name = ''AHE'', z_handle = 8192\<rparr>)
     (world_of [returned 0x0040000])"

theorem startup_gates_provider_witness:
  "fst (fst started) = SUCCESS \<and> x_provider_enabled (fst (snd (fst started))) \<and>
   z_handle (snd (snd (fst started))) = 0"
proof -
  have f: "fst (fst started) = SUCCESS" by code_simp
  from startup_gates_provider [of "[opcache]" some_php accept_version_2 "[(1, Some opcache)]"
      "\<lparr>z_name = ''AHE'', z_handle = 8192\<rparr>" "world_of [returned 0x0040000]"] f
  show ?thesis by (auto simp: wp_def started_def opcache_def split: prod.splits)
qed

text \<open>
  C30. The launcher starts PHP only with address randomisation off: when the program is
  replaced, the personality had the bit already or the kernel accepted setting it on top of
  the bits that were there, the announcement is in the environment, and the arguments are the
  launcher's own with the first one replaced; otherwise the exit status is 126, or 127 when the
  kernel did not find PHP.
\<close>

theorem php_starts_without_aslr:
  "wp (ahe_php_main strerror php_binary argv) (\<lambda>r w'.
     r = None \<and> environ w' ''AHE_EXPECT_NO_ASLR'' = Some ''1'' \<and>
       (\<exists>x h. history w' = (Execv php_binary (argv[0 := php_binary]), x) # h @ history w \<and> 0 \<le> r_ret x \<and>
         (\<exists>p. (Personality READ_PERSONALITY, p) \<in> set h \<and> r_ret p \<noteq> -1 \<and>
           (no_randomize (r_ret p) \<or>
            (\<exists>q. (Personality (word_of_int (r_ret p) OR ADDR_NO_RANDOMIZE), q) \<in> set h \<and> r_ret q \<noteq> -1)))) \<or>
     r = Some 126 \<or>
     r = Some 127 \<and> (\<exists>e x h. history w' = e # (Execv php_binary (argv[0 := php_binary]), x) # h @ history w \<and>
       r_ret x < 0 \<and> r_errno x = ENOENT)) w"
  by (rule wp_mono [OF wp_launcher])
    (auto simp: launcher_post_def aslr_disabled_def split: option.splits)

end
