(* ===== verification/Spec2Isabelle.thy ===== *)
theory Spec2Isabelle imports Sharing Broker_Correct Client_Correct begin

text \<open>
  A verification development for the Abyssal Hyperglyph Engine: a broker, a client library
  inside a Zend extension, and a launcher, which together let independent PHP command-line
  processes share one OPcache.

  The program. The broker (\<^verbatim>\<open>src/src/ahe_broker.c\<close>) listens on a private Unix socket and
  keeps one cache generation: two memory files (the cache and its lock file), the size and
  key they were asked for, and, once published, the address they must be mapped at. A PHP
  process loads the extension (\<^verbatim>\<open>src/src/abyssal_hyperglyph_engine.c\<close>), which registers itself
  with OPcache as the provider of its shared memory. When OPcache asks for segments, the
  extension prints a cache key that identifies user, namespace, SAPI, PHP build, settings
  and executor, and its client (\<^verbatim>\<open>src/src/ahe_broker_client.c\<close>, \<^verbatim>\<open>.h\<close>) sends
  \<open>ACQUIRE\<close>. The broker answers \<open>CREATE\<close> to the first, \<open>ATTACH\<close> to later ones with the same
  key and size, \<open>DECLINE\<close> otherwise; both grants carry the two descriptors. The creator
  fills the cache and sends \<open>READY\<close> with its mapping's base and the offset of the globals;
  from then on others are mapped at the same base. The creator may send \<open>ABORT\<close>, and a
  creator whose connection is lost before \<open>READY\<close> takes the generation with it. Messages and
  constants are those of \<^verbatim>\<open>src/src/ahe_broker_protocol.h\<close>, the provider's interface that of
  \<^verbatim>\<open>src/src/ahe_opcache_provider.h\<close>. The launcher (\<^verbatim>\<open>src/src/ahe_php.c\<close>) turns off address
  space randomisation, which sharing raw pointers needs, and executes PHP.

  The theories, in the order of their imports:

  \<^item> \<open>Ahe_Prelude\<close>: machine integers, C strings and buffers, a weakest-precondition calculus
    over the library's state monad (\<open>wp_rules\<close>), the locales \<open>invariant_machine\<close> and \<open>simulation\<close>.
  \<^item> \<open>Posix\<close>: the kernel and C library as the sources use them, as calls with scripted answers;
    which descriptors a history of calls leaves open and who owns them.
  \<^item> \<open>Broker_Protocol\<close>: the message struct, its constants and layout (locale
    \<open>fixed_layout\<close>, interpreted on the codec).
  \<^item> \<open>Broker_Io\<close>, \<open>Generation\<close>, \<open>Broker_Handlers\<close>, \<open>Broker_Clients\<close>, \<open>Broker_Loop\<close>,
    \<open>Broker_Listener\<close>, \<open>Broker_Main\<close>: \<^verbatim>\<open>ahe_broker.c\<close>, function by function under the source's
    names. The body of \<open>main\<close>'s loop is one definition per stretch (\<open>enforce_limit\<close>,
    \<open>grow_poll_array\<close>, \<open>poll_fds\<close>, \<open>serve_clients\<close>, \<open>accept_client\<close>), composed in its order by
    \<open>ahe_broker_iteration\<close>; the locals of \<open>main\<close> are the record \<open>ahe_broker\<close>.
  \<^item> \<open>Generation_Spec\<close>: what the broker promises, as an abstract machine with three phases
    (\<open>protocol_step\<close>, \<open>served\<close>), and the proof that handlers and loop refine it.
  \<^item> \<open>Client_Io\<close>, \<open>Client_Ops\<close>: \<^verbatim>\<open>ahe_broker_client.c\<close>; the long
    \<open>ahe_broker_client_acquire\<close> is cut into \<open>exchange\<close>, \<open>accept_response\<close>, \<open>map_cache\<close> and
    \<open>acquire_completed\<close>.
  \<^item> \<open>Cache_Key\<close>, \<open>Extension\<close>: \<^verbatim>\<open>abyssal_hyperglyph_engine.c\<close>: the settings digest, the key,
    the provider's callbacks and its table, loading and startup. The locale \<open>shm_provider\<close>
    states what OPcache may rely on from a provider and is interpreted on the callbacks;
    \<open>opcache_session\<close> is OPcache's side of it, as the first patch under \<^verbatim>\<open>src/patches\<close> drives
    a provider: any calls, in any order, between creating the segments and giving them up.
  \<^item> \<open>Launcher\<close>: \<^verbatim>\<open>ahe_php.c\<close>.
  \<^item> \<open>Exchange\<close>, \<open>Sharing\<close>: both ends together: each reads what the other wrote; then one
    broker with any number of processes as a step relation, and its invariant.
  \<^item> \<open>Concrete_Worlds\<close>, \<open>Broker_Run\<close>: kernels for the witnesses; a whole life of the broker in
    which two clients attach, evaluated turn by turn.
  \<^item> \<open>Broker_Correct\<close>, \<open>Client_Correct\<close> and this theory: the properties.

  How state and effects are modelled. An operation is a function on a \<open>world\<close>: the answers
  the kernel will still give (\<open>script\<close>), \<open>errno\<close>, the flag the signal handler sets, user,
  environment, and the calls made so far with their answers (\<open>history\<close>). A theorem over all
  worlds is a theorem over every behaviour of the kernel and of every peer, errors, short
  reads and signals included. What is documented of the kernel enters as \<open>kernel_ok\<close>: a
  new descriptor is nonnegative and not one the process holds, and a message carries at most
  one rights message, as long as its descriptors. C structs are records passed and returned; a pointer
  to one is the record, the address of a mapping or an allocation a 64-bit word. Integers
  that can wrap are words.

  Termination and bounds. Every loop is total. The retry loop \<open>sys_retry\<close> recurses on the answers
  left and is the source's do-while loop (\<open>sys_retry_unfold\<close>); every turn of the event loop polls
  and so uses an answer, hence \<open>broker_loop\<close> recurses on their number, and no turn is cut short.
  Once the script is used up, calls fail with \<open>EIO\<close>, which ends both loops; a run that ends
  uses finitely many answers, so each is the run of some script. That the real loops end is
  therefore not claimed: the theorems say how they end when they do. No other fuel is used.

  What the groups of lemmas show. Descriptors: \<open>holds F w\<close> says that the process holds exactly
  \<open>F\<close> beyond what it began with; each operation states how it changes \<open>F\<close>, whence no leak and no
  double close for whole programs. Memory: \<open>maps M w\<close> says the same of mappings, with
  \<open>unmaps_owned\<close>: no region is unmapped that is not mapped then. Retries: \<open>retry_post\<close> says which
  attempts came before the last one and why each was retried. Why the broker ends:
  \<open>flow_explained\<close>, \<open>loop_explained\<close> and \<open>run_explained\<close> tie exit status and complaints together.
  Calls: \<open>calls P m\<close> says that \<open>m\<close> makes only calls in \<open>P\<close>; the
  security properties (unlinking, listening, executing) rest on it. Contracts:
  \<open>handler_post\<close>, \<open>serve_post\<close>, \<open>acquire_post\<close>, \<open>create_post\<close>, \<open>startup_post\<close> and the like say
  what an operation does on each branch; \<open>since w w'\<close> is what was called in
  between, and \<open>heard\<close> and \<open>broker_trusted\<close> tie what a client concludes to calls of that very run.
  Runs (\<open>run_acquire_attach\<close>, \<open>run_grant_create\<close>, with \<open>after_calls\<close> for the calls they make)
  say that with a cooperating kernel the operation succeeds. Refinement: \<open>phase_of\<close> maps a generation to its abstract phase.
  Sharing: the invariant \<open>system_ok\<close>, shown once for the locale's reachable states.

  Choices. The platform is little-endian LP64 Linux and defines \<open>MFD_EXEC\<close>. \<open>close\<close> always
  releases its descriptor, and results the sources ignore are not modelled. The broker's two
  arrays are lists: growing one is a \<open>realloc\<close> that may fail, freeing it at exit has no effect. The signal
  handler's only effect, setting the flag, may happen at any call. Descriptors received over
  a socket have the numbers the receiver's kernel gave them. MD5, \<open>strerror\<close>, the name of the PHP
  binary, PHP's settings, SAPI and system identifier and OPcache's registration function are
  parameters. OPcache's calls of the provider are arguments of the session. In \<open>Sharing\<close> a served request is any datagram in the connection's queue, answers
  may be lost after a send, any process may give up, detach its segment or shut down at any moment, and one that is
  done with the protocol or gave up may send arbitrary bytes; the steps run the code's \<open>ahe_broker_dispatch\<close>,
  \<open>reset_if_creator\<close>, \<open>accept_response\<close>, \<open>ahe_broker_client_detach\<close> and \<open>ahe_broker_client_shutdown\<close>.
  There the first datagram of every connection is an \<open>ACQUIRE\<close>; the theorems of the broker alone
  hold for any bytes from the start.

  Not modelled. The contents of the shared memory (OPcache's own data), and the timing of
  time-outs beyond a call failing with \<open>EAGAIN\<close>. The text of diagnostics is modelled only as far as
  the sources fix it. The module header \<^verbatim>\<open>abyssal_hyperglyph_engine.h\<close>, the static module tables
  and \<^verbatim>\<open>config.m4\<close> carry no behaviour. The patches under \<^verbatim>\<open>src/patches\<close> change PHP's own
  sources, which are not in the repository. Tests, fixtures, benchmarks, scripts,
  packaging and documentation are not part of the program.

  What the modelling showed. A negative \<open>--max-clients\<close> is accepted and wraps to a huge
  limit. A creator that gave up waiting for the acknowledgement of \<open>READY\<close> believes
  persistence abandoned while the broker keeps the cache published. At exit the broker unlinks
  its socket path without looking at what lies there by then, which may be another broker's
  socket once this one stopped listening at its client limit.
\<close>

section \<open>The two ends of the protocol\<close>

text \<open>
  C26. The broker understands what the client asks: the bytes of a client's request for a C
  string of at least one and at most 255 characters and a size that fits \<open>off_t\<close> are accepted
  as a message, and read back they are an admissible request for exactly that key and that
  size.
\<close>

theorem request_understood:
  assumes "key \<noteq> []" and "NUL \<notin> set key" and "length key < AHE_BROKER_CACHE_KEY_SIZE"
    and "sz \<noteq> 0" and "sz \<le> INT64_MAX"
  shows "message_accepted (encode_message (acquire_request key sz)) \<and>
    acquire_request_valid (decode_message (encode_message (acquire_request key sz))) \<and>
    m_type (decode_message (encode_message (acquire_request key sz))) = AHE_BROKER_ACQUIRE \<and>
    same_request (decode_message (encode_message (acquire_request key sz))) key sz"
proof -
  let ?m = "acquire_request key sz"
  have wf: "wf_message ?m" by (rule acquire_request_wf [OF assms(3)])
  have "hd (m_cache_key ?m) \<noteq> NUL"
    using cstr_empty_iff [of "m_cache_key ?m"] assms(1) by (simp add: acquire_request_key [OF assms(2)])
  moreover have "sz \<le> SIZE_MAX" by (rule order_trans [OF assms(5)]) simp
  ultimately show ?thesis
    using assms by (simp add: decode_encode_message [OF wf] message_accepted_encode [OF wf]
        acquire_request_valid_def same_request_def acquire_request_key not_less)
qed

theorem request_understood_witness:
  "acquire_request_valid (decode_message (encode_message (acquire_request ''abi=2'' 4096))) \<and>
   same_request (decode_message (encode_message (acquire_request ''abi=2'' 4096))) ''abi=2'' 4096"
  using request_understood [of "''abi=2''" 4096] by simp

text \<open>
  C2. A client that attaches sees the globals its creator published. Let a creator publish
  \<open>globals\<close>, inside its own mapping, to the broker that is waiting for it. Whenever
  the broker took the request, then any later client that accepts the broker's answer, on
  whatever kernel, either fails or is mapped at the creator's own base address with the
  creator's size and is told exactly the creator's address \<open>globals\<close>, so every pointer in the
  shared memory means the same in both processes.
\<close>

theorem attach_sees_published_globals:
  assumes "publishable c globals" and "g_state g = AHE_GENERATION_INITIALIZING"
    and "g_creator_fd g = f" and "g_mapping_size g = k_mapping_size c"
  shows "wp (ahe_broker_handle_ready f g (decode_message (encode_message (ready_request c globals))))
    (\<lambda>(res, g') _. res = -1 \<and> g' = g \<or> res = 0 \<and>
      (\<forall>c2 fds outputs w2. wp (accept_response c2 (decode_message (encode_message (grant_message g'))) fds
          (k_mapping_size c) outputs)
        (\<lambda>(res2, c3, o') _. res2 = ZEND_OPCACHE_SHM_ALLOC_FAILURE \<or>
          res2 = ZEND_OPCACHE_SHM_SUCCESSFULLY_REATTACHED \<and> k_mapping c3 = k_mapping c \<and>
          k_mapping_size c3 = k_mapping_size c \<and> out_globals o' = globals) w2)) w"
proof -
  let ?m = "ready_request c globals" and ?g = "published_by g (ready_request c globals)"
  have valid: "\<not> ready_request_invalid f g ?m"
    using assms by (auto simp: ready_request_invalid_def ready_request_def publishable_def not_le)
  have attach: "wp (accept_response c2 (grant_message ?g) fds (k_mapping_size c) outputs)
      (\<lambda>(res2, c3, o') _. res2 = ZEND_OPCACHE_SHM_ALLOC_FAILURE \<or>
        res2 = ZEND_OPCACHE_SHM_SUCCESSFULLY_REATTACHED \<and> k_mapping c3 = k_mapping c \<and>
        k_mapping_size c3 = k_mapping_size c \<and> out_globals o' = globals) w2" for c2 fds outputs w2
  proof -
    have m: "grant_message ?g = (ahe_broker_message_init AHE_BROKER_ATTACH)\<lparr>m_mapping_size := k_mapping_size c,
        m_mapping_base := k_mapping c, m_shared_globals_offset := globals - k_mapping c\<rparr>"
      using assms(4) by (simp add: grant_message_def published_by_def ready_request_def)
    show ?thesis unfolding m
      by (rule wp_mono [OF wp_accept_outcome]) (auto simp: accept_outcome_def)
  qed
  show ?thesis
    unfolding ahe_broker_handle_ready_def decoded if_not_P [OF valid] wp_bind
    by (rule wp_send_message) (use attach in \<open>auto simp: wp_return\<close>)
qed

text \<open>A creator mapped at 65536 whose globals lie 64 bytes into its mapping.\<close>

definition creator :: ahe_broker_client where
  "creator = mapped_client\<lparr>k_creator := True, k_acquired := True, k_socket_fd := 3\<rparr>"

definition published_demo :: "(int \<times> ahe_generation) \<times> world" where
  "published_demo = run_state (ahe_broker_handle_ready 4 building_generation
     (decode_message (encode_message (ready_request creator 65600)))) (world_of [sent_reply])"

theorem attach_sees_published_globals_witness:
  "publishable creator 65600 \<and> (\<exists>g'. fst (fst published_demo) = 0 \<and> snd (fst published_demo) = g' \<and>
     wp (accept_response AHE_BROKER_CLIENT_INITIALIZER (decode_message (encode_message (grant_message g'))) [5, 6]
       (k_mapping_size creator) unset_outputs)
      (\<lambda>(res, c', o') _. res = ZEND_OPCACHE_SHM_ALLOC_FAILURE \<or>
        res = ZEND_OPCACHE_SHM_SUCCESSFULLY_REATTACHED \<and> k_mapping c' = k_mapping creator \<and>
        k_mapping_size c' = k_mapping_size creator \<and> out_globals o' = 65600) (world_of []))"
proof -
  have p: "publishable creator 65600"
    by (simp add: publishable_def creator_def mapped_client_def)
  have r: "fst (fst published_demo) = 0" by code_simp
  have g: "g_state building_generation = AHE_GENERATION_INITIALIZING" "g_creator_fd building_generation = 4"
    "g_mapping_size building_generation = k_mapping_size creator"
    by (simp_all add: building_generation_def ready_generation_def creator_def mapped_client_def)
  from attach_sees_published_globals [OF p g, of "world_of [sent_reply]"] p r show ?thesis
    by (auto simp: wp_def [of "ahe_broker_handle_ready _ _ _"] published_demo_def split: prod.splits)
qed

text \<open>
  C10. Only processes with the same identity ever share a cache. A generation that was begun for
  one process's request and is granted to another's was asked for by the same user, under the
  same cache namespace, SAPI, OPcache system identifier, OPcache settings (up to MD5), executor
  address and size. SAPI name and system identifier are assumed free of the separator, and the
  keys are C strings that fit a message, as \<open>ahe_create_segments\<close> checks.
\<close>

theorem shared_cache_same_identity:
  assumes "ahe_generation_matches g (decode_message (encode_message (acquire_request (segment_key php' w' digest' sz') sz')))"
    and "g_cache_key g = m_cache_key (decode_message (encode_message (acquire_request (segment_key php w digest sz) sz)))"
    and "g_mapping_size g = sz"
    and "length (segment_key php w digest sz) < AHE_BROKER_CACHE_KEY_SIZE"
    and "length (segment_key php' w' digest' sz') < AHE_BROKER_CACHE_KEY_SIZE"
    and "NUL \<notin> set (segment_key php w digest sz)" and "NUL \<notin> set (segment_key php' w' digest' sz')"
    and "configuration_digest_of php = Some digest" and "configuration_digest_of php' = Some digest'"
    and "no_bar (case p_sapi_name php of Some name \<Rightarrow> name | None \<Rightarrow> ''unknown'')"
    and "no_bar (case p_sapi_name php' of Some name \<Rightarrow> name | None \<Rightarrow> ''unknown'')"
    and "no_bar (system_text (p_system_id php))" and "no_bar (system_text (p_system_id php'))"
  shows "sz = sz' \<and> euid w = euid w' \<and>
    env_or (environ w ''AHE_CACHE_NAMESPACE'') ''default'' = env_or (environ w' ''AHE_CACHE_NAMESPACE'') ''default'' \<and>
    (case p_sapi_name php of Some name \<Rightarrow> name | None \<Rightarrow> ''unknown'') =
      (case p_sapi_name php' of Some name \<Rightarrow> name | None \<Rightarrow> ''unknown'') \<and>
    system_text (p_system_id php) = system_text (p_system_id php') \<and>
    p_execute_ex php = p_execute_ex php' \<and>
    (\<exists>table table'. p_ini_directives php = Some table \<and> p_ini_directives php' = Some table' \<and>
       p_md5 php (digest_input (sort_entries (fingerprint_entries table))) =
       p_md5 php' (digest_input (sort_entries (fingerprint_entries table'))))"
proof -
  have wf: "wf_message (acquire_request (segment_key php w digest sz) sz)"
    "wf_message (acquire_request (segment_key php' w' digest' sz') sz')"
    using assms(4,5) by (simp_all add: acquire_request_wf)
  have k: "cache_key_text (euid w) (env_or (environ w ''AHE_CACHE_NAMESPACE'') ''default'')
      (case p_sapi_name php of Some name \<Rightarrow> name | None \<Rightarrow> ''unknown'') (p_system_id php) digest
      (p_execute_ex php) sz =
    cache_key_text (euid w') (env_or (environ w' ''AHE_CACHE_NAMESPACE'') ''default'')
      (case p_sapi_name php' of Some name \<Rightarrow> name | None \<Rightarrow> ''unknown'') (p_system_id php') digest'
      (p_execute_ex php') sz'"
    using assms(1,2) unfolding decode_encode_message [OF wf(1)] decode_encode_message [OF wf(2)]
    by (auto simp: ahe_generation_matches_def acquire_request_key assms(6,7) simp flip: segment_key_def)
  from assms(8,9) obtain table table' where t: "p_ini_directives php = Some table" "p_ini_directives php' = Some table'"
    and d: "digest = digest_hex (p_md5 php (digest_input (sort_entries (fingerprint_entries table))))"
      "digest' = digest_hex (p_md5 php' (digest_input (sort_entries (fingerprint_entries table'))))"
    by (auto simp: configuration_digest_of_def split: option.splits list.splits)
  from cache_key_text_injective [OF k assms(10-13)] t show ?thesis
    by (auto simp: d digest_hex_no_bar dest: digest_hex_injective)
qed

text \<open>Two invocations of the same PHP, from different directories of the same user.\<close>

definition demo_key :: string where
  "demo_key = segment_key some_php (world_of []) (digest_hex ''0123456789abcdef'') 4096"

definition demo_generation :: ahe_generation where
  "demo_generation = building_generation\<lparr>g_cache_key :=
     m_cache_key (decode_message (encode_message (acquire_request demo_key 4096)))\<rparr>"

lemma demo_key_text: "demo_key =
    ''abi=2|uid=1000|namespace=default|sapi=cli|system=0123|opcache=30313233343536373839616263646566|execute=10000|size=4096''"
  by code_simp

theorem shared_cache_same_identity_witness:
  "ahe_generation_matches demo_generation
     (decode_message (encode_message (acquire_request demo_key 4096))) \<and>
   (\<exists>table. p_ini_directives some_php = Some table)"
proof -
  have l: "length demo_key < AHE_BROKER_CACHE_KEY_SIZE" and n: "NUL \<notin> set demo_key"
    unfolding demo_key_text by simp_all
  have wf: "wf_message (acquire_request demo_key 4096)" by (rule acquire_request_wf [OF l])
  have k: "g_cache_key demo_generation = m_cache_key (decode_message (encode_message (acquire_request demo_key 4096)))"
    "g_mapping_size demo_generation = 4096"
    by (simp_all add: demo_generation_def building_generation_def ready_generation_def)
  have m: "ahe_generation_matches demo_generation (decode_message (encode_message (acquire_request demo_key 4096)))"
    by (simp add: ahe_generation_matches_def k decode_encode_message [OF wf])
  have d: "configuration_digest_of some_php = Some (digest_hex ''0123456789abcdef'')"
    by (simp add: configuration_digest_of_def some_php_def fingerprint_entries_def is_opcache_entry_def
        OPCACHE_PREFIX_def)
  have b: "no_bar (case p_sapi_name some_php of Some name \<Rightarrow> name | None \<Rightarrow> ''unknown'')"
    "no_bar (system_text (p_system_id some_php))" by code_simp+
  show ?thesis
    using shared_cache_same_identity [of demo_generation some_php "world_of []" "digest_hex ''0123456789abcdef''" 4096
        some_php "world_of []" "digest_hex ''0123456789abcdef''" 4096, folded demo_key_def, OF m k l l n n d d b(1) b(1) b(2) b(2)] m
    by blast
qed

section \<open>When the kernel cooperates\<close>

text \<open>
  C23. The broker does serve: when it has no generation, the request is admissible and its five
  calls succeed (two memory files created and sized, the answer sent whole), the requester is
  granted the creation of a cache of the requested size, with both descriptors, and the
  generation is being built by it under the requested key.
\<close>

theorem creation_granted:
  assumes "acquire_request_valid m" and "script w = [r1, r2, r3, r4, r5] @ rest"
    and "0 \<le> r_ret r1" and "0 \<le> r_ret r2" and "0 \<le> r_ret r3" and "0 \<le> r_ret r4"
    and "r_ret r5 = int MESSAGE_SIZE"
  shows "\<exists>g w'. run_state (ahe_broker_handle_acquire f ahe_generation_init m) w = ((0, g), w') \<and>
    phase_of g = Building f (r_ret r1, r_ret r3) (cstr (m_cache_key m)) (m_mapping_size m) \<and>
    hd (history w') = (Sendmsg f (encode_message (answer_message
      (Granted_create (m_mapping_size m) (r_ret r1, r_ret r3)))) [r_ret r1, r_ret r3], r5)"
  using run_grant_create [OF assms, of f] by (force simp: phase_of_def)

theorem creation_granted_witness:
  "\<exists>g w'. run_state (ahe_broker_handle_acquire 4 ahe_generation_init (acquire_request ''key'' 4096))
      (world_of [returned 5, ok, returned 6, ok, sent_reply]) = ((0, g), w') \<and>
    phase_of g = Building 4 (5, 6) ''key'' 4096"
proof -
  have v: "acquire_request_valid (acquire_request ''key'' 4096)"
    using cstr_empty_iff [of "m_cache_key (acquire_request ''key'' 4096)"]
    by (simp add: acquire_request_valid_def acquire_request_key)
  have s: "script (world_of [returned 5, ok, returned 6, ok, sent_reply]) =
      [returned 5, ok, returned 6, ok, sent_reply] @ []" by (simp add: world_of_def)
  from creation_granted [OF v s, of 4] show ?thesis
    by (force simp: ok_def sent_reply_def acquire_request_key)
qed

text \<open>
  C24. A creator that dies makes room for the next one: after its connection is lost before it
  published, another client's admissible request is granted the creation of a new cache, for
  its own key and size, when the broker's calls succeed.
\<close>

theorem lost_creator_makes_room:
  assumes "gen_wf g" and "g_state g = AHE_GENERATION_INITIALIZING" and "g_creator_fd g = c_fd (clients ! i)"
    and "acquire_request_valid m" and "script w = [r1, r2, r3, r4, r5] @ rest"
    and "0 \<le> r_ret r1" and "0 \<le> r_ret r2" and "0 \<le> r_ret r3" and "0 \<le> r_ret r4"
    and "r_ret r5 = int MESSAGE_SIZE"
  shows "\<exists>g' w'. run_state (do {
      (remaining, g1) \<leftarrow> ahe_broker_close_client clients i g;
      ahe_broker_handle_acquire f g1 m
    }) w = ((0, g'), w') \<and>
    phase_of g' = Building f (r_ret r1, r_ret r3) (cstr (m_cache_key m)) (m_mapping_size m)"
proof -
  have "0 \<le> g_cache_fd g" "0 \<le> g_lock_fd g" using assms(1,2) by (simp_all add: gen_wf_def)
  then have close: "run_state (ahe_broker_close_client clients i g) w = ((swap_remove clients i, ahe_generation_init),
      noted (Close (c_fd (clients ! i))) (noted (Close (g_lock_fd g)) (noted (Close (g_cache_fd g)) w)))"
    (is "_ = (_, ?w)")
    using assms(2,3) by (simp add: ahe_broker_close_client_def reset_if_creator_def ahe_generation_reset_def
        close_fd_def note_call_def)
  have "script ?w = [r1, r2, r3, r4, r5] @ rest" using assms(5) by simp
  from run_grant_create [OF assms(4) this assms(6-10), of f] close show ?thesis
    by (auto simp: phase_of_def)
qed

theorem lost_creator_makes_room_witness:
  "\<exists>g' w'. run_state (do {
      (remaining, g1) \<leftarrow> ahe_broker_close_client (clients_of [4, 7]) 0 building_generation;
      ahe_broker_handle_acquire 7 g1 (acquire_request ''other'' 8192)
    }) (world_of [returned 5, ok, returned 6, ok, sent_reply]) = ((0, g'), w') \<and>
    phase_of g' = Building 7 (5, 6) ''other'' 8192"
proof -
  have g: "g_state building_generation = AHE_GENERATION_INITIALIZING"
    "g_creator_fd building_generation = c_fd (clients_of [4, 7] ! 0)"
    by (simp_all add: building_generation_def ready_generation_def clients_of_def)
  have v: "acquire_request_valid (acquire_request ''other'' 8192)"
    using cstr_empty_iff [of "m_cache_key (acquire_request ''other'' 8192)"]
    by (simp add: acquire_request_valid_def acquire_request_key)
  have s: "script (world_of [returned 5, ok, returned 6, ok, sent_reply]) =
      [returned 5, ok, returned 6, ok, sent_reply] @ []" by (simp add: world_of_def)
  from lost_creator_makes_room [OF building_generation_wf g v s, of 7] show ?thesis
    by (force simp: ok_def sent_reply_def acquire_request_key)
qed

text \<open>
  C25. The client does attach: when the broker at the path passes the check, the client's ten
  calls succeed, and the answer grants attachment to a cache of the requested size with two
  descriptors, then acquiring succeeds: the client holds the connection and the two descriptors,
  is mapped where the answer says and is told where the globals are.
\<close>

theorem attach_succeeds:
  assumes "length key < AHE_BROKER_CACHE_KEY_SIZE" and "path \<noteq> []" and "length path < SUN_PATH_SIZE"
    and "script w = [r1, r2, r3, r4, r5, r6, r7, r8, r9, r10] @ rest"
    and "0 \<le> r_ret r1" and "0 \<le> r_ret r2" and "0 \<le> r_ret r3" and "0 \<le> r_ret r4"
    and "\<not> broker_rejected (euid w) r5" and "0 \<le> r_ret r6" and "private_socket (euid w) (r_stat r6)"
    and "r_ret r7 = int MESSAGE_SIZE" and "0 \<le> r_ret r8" and "\<not> r_trunc r8"
    and "r_data r8 = encode_message (answer_message (Granted_attach sz base offset fds))"
    and "r_ctl r8 = [\<lparr>cmsg_level = SOL_SOCKET, cmsg_type = SCM_RIGHTS, cmsg_len = 24, cmsg_fds = [a, b]\<rparr>]"
    and "base \<noteq> 0" and "base \<noteq> MAP_FAILED" and "offset < sz" and "r_addr r9 = base" and "r_addr r10 \<noteq> 0"
  shows "\<exists>c' o' w'. run_state (ahe_broker_client_acquire c path key sz outputs) w =
      ((ZEND_OPCACHE_SHM_SUCCESSFULLY_REATTACHED, c', o'), w') \<and>
    k_socket_fd c' = r_ret r1 \<and> k_cache_fd c' = a \<and> k_lock_fd c' = b \<and>
    k_mapping c' = base \<and> k_mapping_size c' = sz \<and> out_segments o' = r_addr r10 \<and> out_globals o' = base + offset"
  by (rule run_acquire_attach [OF assms])

theorem attach_succeeds_witness:
  "\<exists>c' o' w'. run_state (ahe_broker_client_acquire AHE_BROKER_CLIENT_INITIALIZER ''/r/s'' ''key'' 4096 unset_outputs)
      (world_of attaching) = ((ZEND_OPCACHE_SHM_SUCCESSFULLY_REATTACHED, c', o'), w') \<and>
    k_cache_fd c' = 5 \<and> k_mapping c' = 65536 \<and> out_globals o' = 65600"
proof -
  have s: "script (world_of attaching) = [returned 3, ok, ok, ok, peer_reply, stat_reply 0xC180, sent_reply, offer,
      ok\<lparr>r_addr := 65536\<rparr>, allocated] @ []" by (simp add: world_of_def attaching_def)
  show ?thesis
    using attach_succeeds [OF _ _ _ s, of "''key''" "''/r/s''" 4096 65536 64 "(5, 6)" 5 6
        AHE_BROKER_CLIENT_INITIALIZER unset_outputs]
    by (auto simp: world_of_def ok_def peer_reply_def stat_reply_def sent_reply_def offer_def message_reply_def
        allocated_def broker_rejected_def private_socket_def is_socket_def user_def returned_def failed_def)
qed

text \<open>
  C34. Publishing cannot be taken back: once the broker acknowledged \<open>READY\<close>, an \<open>ABORT\<close> from the
  same client (which sends one when that acknowledgement did not reach it in time) is
  acknowledged too, and leaves the cache published as it was.
\<close>

theorem abort_after_publish_keeps_generation:
  assumes "m_type m = AHE_BROKER_ABORT"
  shows "wp (ahe_broker_dispatch f (published_by g request) m) (\<lambda>(_, g') w'. g' = published_by g request \<and>
    sends (history w') = insert (f, encode_message (ahe_broker_message_init AHE_BROKER_ACK), []) (sends (history w))) w"
  using assms
  by (auto simp: ahe_broker_dispatch_def reset_if_creator_def published_by_def wp_rules intro!: wp_send_message)

theorem abort_after_publish_keeps_generation_witness:
  "wp (ahe_broker_dispatch 4 (published_by building_generation (ready_request creator 65600))
      (ahe_broker_message_init AHE_BROKER_ABORT)) (\<lambda>(_, g') w'.
    g' = published_by building_generation (ready_request creator 65600) \<and>
    sends (history w') = insert (4, encode_message (ahe_broker_message_init AHE_BROKER_ACK), [])
      (sends (history (world_of [sent_reply])))) (world_of [sent_reply])"
  by (rule abort_after_publish_keeps_generation) simp

end
